theory Spec2Isabelle
  imports Complex_Main "HOL-Library.Monad_Syntax" "HOL-Library.AList"
begin

section \<open>JavaScript values and the runtime library\<close>

text \<open>
  The sync route of the backend (\<^verbatim>\<open>routes/sync.ts\<close>) works on parsed request bodies, that is
  on JSON values typed \<^verbatim>\<open>Record<string, unknown>\<close>. They are modelled as they are at run time.

  \<^item> A string is held as its UTF-8 bytes (a \<^typ>\<open>string\<close> is a list of 8-bit characters).
    JavaScript's \<^verbatim>\<open>.length\<close> counts UTF-16 code units and is \<open>jsLength\<close> below. The text is
    well-formed Unicode: a string with an unpaired surrogate has no UTF-8 form and is outside
    the model.
  \<^item> A number read by \<^verbatim>\<open>JSON.parse\<close> is a finite double, which is a rational, or an infinity
    (\<^verbatim>\<open>1e999\<close>). Every double is a \<^typ>\<open>rat\<close>, so a statement about all rationals covers
    all doubles.
  \<^item> An object is the list of its own properties in property order. A property read under
    a fixed name (\<^verbatim>\<open>food.customImageUrl\<close>, \<^verbatim>\<open>next.foods\<close>) is an own property or
    \<^verbatim>\<open>undefined\<close>, because none of the names that the code reads is a property of
    \<^verbatim>\<open>Object.prototype\<close>. A lookup under a computed key (\<^verbatim>\<open>legacyMap[current]\<close> here,
    \<^verbatim>\<open>local.foods[id]\<close> in the client) also finds the properties that every object inherits
    from \<^verbatim>\<open>Object.prototype\<close>: it is \<open>lookup\<close> below.
  \<^item> A value that the code has computed can hold what no JSON text holds: a built-in
    function, found by such a lookup. \<open>JFunction name\<close> is the built-in function of that
    name.
\<close>

datatype number = Fin rat | PosInf | NegInf

datatype json =
    JNull
  | JBool bool
  | JNum number
  | JStr string
  | JArr "json list"
  | JObj "(string \<times> json) list"
  | JFunction string

text \<open>
  The parsed \<^verbatim>\<open>URL\<close> object, with the four properties the code reads.
\<close>

record URL =
  protocol :: string
  hostname :: string
  host :: string
  pathname :: string

text \<open>
  Library functions of the JavaScript runtime that the code calls and whose full
  definition (Unicode tables, the WHATWG URL parser, number formatting, date parsing)
  is not part of this repository. They are parameters of the model: every theorem
  below holds for every runtime. \<open>None\<close> is a thrown exception for \<open>newURL\<close> and
  \<open>decodeURIComponent\<close>, and \<^verbatim>\<open>NaN\<close> for \<open>dateParse\<close>.
\<close>

record runtime =
  trim :: "string \<Rightarrow> string"
  toLowerCase :: "string \<Rightarrow> string"
  replaceWhiteSpace :: "string \<Rightarrow> string"
  numberToString :: "rat \<Rightarrow> string"
  newURL :: "string \<Rightarrow> URL option"
  decodeURIComponent :: "string \<Rightarrow> string option"
  dateParse :: "string \<Rightarrow> int option"

text \<open>
  \<open>replaceWhiteSpace s\<close> is \<^verbatim>\<open>s.replace(/\s+/g, " ")\<close>;
  \<open>numberToString\<close> is \<^verbatim>\<open>String(n)\<close> for a finite number.
\<close>

subsection \<open>Truthiness, property access, \<^verbatim>\<open>String(...)\<close>\<close>

fun truthy :: "json \<Rightarrow> bool" where
  "truthy JNull = False"
| "truthy (JBool b) = b"
| "truthy (JNum n) = (n \<noteq> Fin 0)"
| "truthy (JStr s) = (s \<noteq> [])"
| "truthy (JArr xs) = True"
| "truthy (JObj kvs) = True"
| "truthy (JFunction name) = True"

text \<open>\<^verbatim>\<open>x || ""\<close>, where \<open>None\<close> is \<^verbatim>\<open>undefined\<close>.\<close>

fun orEmpty :: "json option \<Rightarrow> json" where
  "orEmpty None = JStr []"
| "orEmpty (Some v) = (if truthy v then v else JStr [])"

text \<open>
  \<^verbatim>\<open>obj.k\<close> on a value that is not \<^verbatim>\<open>null\<close>: an object gives its own property, and
  a primitive or an array has none of the property names read by this code.
\<close>

fun getProp :: "json \<Rightarrow> string \<Rightarrow> json option" where
  "getProp (JObj kvs) k = map_of kvs k"
| "getProp v k = None"

text \<open>
  The properties of \<^verbatim>\<open>Object.prototype\<close>. All are functions, named as the property is
  (the function under \<^verbatim>\<open>constructor\<close> is \<^verbatim>\<open>Object\<close>), except \<^verbatim>\<open>__proto__\<close>, an accessor
  that gives the prototype object itself. The prototype object has no enumerable property:
  to \<^verbatim>\<open>JSON.stringify\<close>, to \<^verbatim>\<open>Object.values\<close> and to a spread it is an empty object, and
  nothing else is done to it here.
\<close>

definition objectPrototype :: "string list" where
  "objectPrototype =
     [''constructor'', ''__defineGetter__'', ''__defineSetter__'', ''hasOwnProperty'',
      ''__lookupGetter__'', ''__lookupSetter__'', ''isPrototypeOf'', ''propertyIsEnumerable'',
      ''toString'', ''valueOf'', ''__proto__'', ''toLocaleString'']"

definition inherited :: "string \<Rightarrow> json option" where
  "inherited k =
     (if k = ''__proto__'' then Some (JObj [])
      else if k = ''constructor'' then Some (JFunction ''Object'')
      else if k \<in> set objectPrototype then Some (JFunction k)
      else None)"

text \<open>\<^verbatim>\<open>dict[k]\<close> on a dictionary written as an object literal or read from JSON.\<close>

definition lookup :: "(string \<times> json) list \<Rightarrow> string \<Rightarrow> json option" where
  "lookup dict k = (case map_of dict k of Some v \<Rightarrow> Some v | None \<Rightarrow> inherited k)"

text \<open>
  \<^verbatim>\<open>obj.k = v\<close> on an object: an existing property keeps its place, a new one is
  appended.
\<close>

fun assign :: "string \<Rightarrow> json \<Rightarrow> json \<Rightarrow> json" where
  "assign k v (JObj kvs) = JObj (AList.update k v kvs)"
| "assign k v obj = obj"

fun join :: "string \<Rightarrow> string list \<Rightarrow> string" where
  "join sep [] = []"
| "join sep [x] = x"
| "join sep (x # y # ys) = x @ sep @ join sep (y # ys)"

text \<open>
  \<^verbatim>\<open>String(v)\<close>. An array joins its elements with commas, \<^verbatim>\<open>null\<close> elements being
  empty. A plain object is \<^verbatim>\<open>[object Object]\<close>, unless it has an own property
  \<^verbatim>\<open>toString\<close>: a parsed JSON value is never callable, so the conversion finds no
  method and throws a \<^verbatim>\<open>TypeError\<close> (\<open>None\<close>). A built-in function is its source text.
\<close>

fun toString :: "runtime \<Rightarrow> json \<Rightarrow> string option" where
  "toString rt JNull = Some ''null''"
| "toString rt (JBool b) = Some (if b then ''true'' else ''false'')"
| "toString rt (JNum (Fin r)) = Some (numberToString rt r)"
| "toString rt (JNum PosInf) = Some ''Infinity''"
| "toString rt (JNum NegInf) = Some ''-Infinity''"
| "toString rt (JStr s) = Some s"
| "toString rt (JArr xs) =
     map_option (join '','')
       (those (map (\<lambda>x. if x = JNull then Some [] else toString rt x) xs))"
| "toString rt (JObj kvs) =
     (if ''toString'' \<in> set (map fst kvs) then None else Some ''[object Object]'')"
| "toString rt (JFunction name) = Some (''function '' @ name @ ''() { [native code] }'')"

fun isFunction :: "json \<Rightarrow> bool" where
  "isFunction (JFunction name) = True"
| "isFunction v = False"

text \<open>
  \<^verbatim>\<open>JSON.parse(JSON.stringify(v))\<close>: a copy, in which an infinite number has become
  \<^verbatim>\<open>null\<close>, a function in an array has become \<^verbatim>\<open>null\<close>, and a property whose value is a
  function is left out.
\<close>

fun jsonClone :: "json \<Rightarrow> json" where
  "jsonClone (JNum (Fin r)) = JNum (Fin r)"
| "jsonClone (JNum PosInf) = JNull"
| "jsonClone (JNum NegInf) = JNull"
| "jsonClone (JArr xs) = JArr (map jsonClone xs)"
| "jsonClone (JObj kvs) =
     JObj (map (\<lambda>(k, v). (k, jsonClone v)) (filter (\<lambda>(k, v). \<not> isFunction v) kvs))"
| "jsonClone JNull = JNull"
| "jsonClone (JBool b) = JBool b"
| "jsonClone (JStr s) = JStr s"
| "jsonClone (JFunction name) = JNull"

subsection \<open>\<^verbatim>\<open>JSON.stringify\<close> and string length\<close>

definition hexDigit :: "nat \<Rightarrow> char" where
  "hexDigit n = ''0123456789abcdef'' ! n"

text \<open>
  The escapes of \<^verbatim>\<open>JSON.stringify\<close>: the quote, the backslash and the control
  characters. Every other byte, in particular every byte of a multi-byte UTF-8
  sequence, is copied.
\<close>

definition escapeChar :: "char \<Rightarrow> string" where
  "escapeChar c =
     (let n = (of_char c :: nat) in
      if n = 0x22 then [CHR 0x5C, CHR 0x22]
      else if n = 0x5C then [CHR 0x5C, CHR 0x5C]
      else if n = 0x08 then [CHR 0x5C, CHR ''b'']
      else if n = 0x0C then [CHR 0x5C, CHR ''f'']
      else if n = 0x0A then [CHR 0x5C, CHR ''n'']
      else if n = 0x0D then [CHR 0x5C, CHR ''r'']
      else if n = 0x09 then [CHR 0x5C, CHR ''t'']
      else if n < 0x20 then [CHR 0x5C, CHR ''u'', CHR ''0'', CHR ''0'', hexDigit (n div 16), hexDigit (n mod 16)]
      else [c])"

definition quote :: "string \<Rightarrow> string" where
  "quote s = [CHR 0x22] @ concat (map escapeChar s) @ [CHR 0x22]"

fun stringify :: "runtime \<Rightarrow> json \<Rightarrow> string" where
  "stringify rt JNull = ''null''"
| "stringify rt (JBool b) = (if b then ''true'' else ''false'')"
| "stringify rt (JNum (Fin r)) = numberToString rt r"
| "stringify rt (JNum PosInf) = ''null''"
| "stringify rt (JNum NegInf) = ''null''"
| "stringify rt (JStr s) = quote s"
| "stringify rt (JArr xs) = ''['' @ join '','' (map (stringify rt) xs) @ '']''"
| "stringify rt (JObj kvs) =
     ''{'' @ join '','' (map (\<lambda>(k, v). quote k @ '':'' @ stringify rt v)
                        (filter (\<lambda>(k, v). \<not> isFunction v) kvs)) @ ''}''"
| "stringify rt (JFunction name) = ''null''"

text \<open>
  \<^verbatim>\<open>s.length\<close>: the number of UTF-16 code units of the text whose UTF-8 bytes are
  \<open>s\<close>. Each code point counts once, at its first byte (a byte that is not a
  continuation byte \<^verbatim>\<open>10xxxxxx\<close>), and once more when it lies outside the basic plane
  (a four-byte sequence, first byte \<^verbatim>\<open>11110xxx\<close>).
\<close>

definition jsLength :: "string \<Rightarrow> nat" where
  "jsLength s =
     length (filter (\<lambda>c. \<not> (0x80 \<le> (of_char c :: nat) \<and> (of_char c :: nat) < 0xC0)) s)
     + length (filter (\<lambda>c. 0xF0 \<le> (of_char c :: nat)) s)"

section \<open>Server-side image field sanitization (\<^verbatim>\<open>routes/sync.ts\<close>)\<close>

subsection \<open>String helpers for the regular expressions of the source\<close>

definition asciiLower :: "char \<Rightarrow> char" where
  "asciiLower c =
     (case map_of (zip ''ABCDEFGHIJKLMNOPQRSTUVWXYZ'' ''abcdefghijklmnopqrstuvwxyz'') c of
        None \<Rightarrow> c
      | Some l \<Rightarrow> l)"

definition isAlnum :: "char \<Rightarrow> bool" where
  "isAlnum c =
     (let n = (of_char c :: nat) in
      (48 \<le> n \<and> n \<le> 57) \<or> (65 \<le> n \<and> n \<le> 90) \<or> (97 \<le> n \<and> n \<le> 122))"

text \<open>\<^verbatim>\<open>/^https?:\/\//i.test(s)\<close>\<close>

definition isHttpUrl :: "string \<Rightarrow> bool" where
  "isHttpUrl s =
     (let l = map asciiLower s in take 7 l = ''http://'' \<or> take 8 l = ''https://'')"

text \<open>\<^verbatim>\<open>s.includes(sub)\<close>\<close>

fun stringIncludes :: "string \<Rightarrow> string \<Rightarrow> bool" where
  "stringIncludes [] sub = (sub = [])"
| "stringIncludes (c # cs) sub = (take (length sub) (c # cs) = sub \<or> stringIncludes cs sub)"

text \<open>\<^verbatim>\<open>s.split("/")\<close>, for any separator character.\<close>

fun splitOn :: "char \<Rightarrow> string \<Rightarrow> string list" where
  "splitOn d [] = [[]]"
| "splitOn d (c # cs) =
     (if c = d then [] # splitOn d cs
      else (case splitOn d cs of [] \<Rightarrow> [[c]] | x # xs \<Rightarrow> (c # x) # xs))"

text \<open>\<^verbatim>\<open>pathname.split("/").filter(Boolean).pop() || ""\<close>\<close>

definition lastSegment :: "string \<Rightarrow> string" where
  "lastSegment p =
     (case filter (\<lambda>s. s \<noteq> []) (splitOn CHR ''/'' p) of [] \<Rightarrow> [] | x # xs \<Rightarrow> last (x # xs))"

text \<open>
  \<^verbatim>\<open>s.replace(/\.[a-z0-9]{2,5}$/i, "")\<close>: a match starts at a dot that is followed, up to
  the end of the string, by two to five letters or digits; that dot can only be the last
  dot of \<open>s\<close>.
\<close>

definition stripExtension :: "string \<Rightarrow> string" where
  "stripExtension s =
     (let ext = takeWhile (\<lambda>c. c \<noteq> CHR ''.'') (rev s);
          rest = dropWhile (\<lambda>c. c \<noteq> CHR ''.'') (rev s) in
      if rest \<noteq> [] \<and> 2 \<le> length ext \<and> length ext \<le> 5 \<and> list_all isAlnum ext
      then rev (tl rest) else s)"

text \<open>
  \<^verbatim>\<open>s.replace(/[_-]+/g, " ")\<close>; the flag says that the character before was part of
  the run being replaced.
\<close>

fun replaceDashRuns :: "bool \<Rightarrow> string \<Rightarrow> string" where
  "replaceDashRuns inRun [] = []"
| "replaceDashRuns inRun (c # cs) =
     (if c = CHR ''_'' \<or> c = CHR ''-''
      then (if inRun then replaceDashRuns True cs else CHR '' '' # replaceDashRuns True cs)
      else c # replaceDashRuns False cs)"

subsection \<open>Attribution helpers\<close>

text \<open>
  The three helpers convert an unknown value with \<^verbatim>\<open>String(x || "")\<close>, which can throw;
  they return \<open>None\<close> then.
\<close>

definition shouldClearManualImage :: "runtime \<Rightarrow> json option \<Rightarrow> bool option" where
  "shouldClearManualImage rt attribution =
     do {
       s \<leftarrow> toString rt (orEmpty attribution);
       let normalized = toLowerCase rt (trim rt s);
       Some (normalized = [])
     }"

definition needsAttributionBackfill :: "runtime \<Rightarrow> json option \<Rightarrow> bool option" where
  "needsAttributionBackfill rt attribution =
     do {
       s \<leftarrow> toString rt (orEmpty attribution);
       let normalized = toLowerCase rt (trim rt s);
       Some (normalized = [] \<or> normalized = ''url manual'')
     }"

record Inferred =
  imageAttribution :: string
  imageAttributionUrl :: string
  source :: string

definition sourceMap :: "(string \<times> string \<times> string) list" where
  "sourceMap =
     [(''wikipedia.org'', ''Wikipedia'', ''wikipedia-url''),
      (''wikimedia.org'', ''Wikimedia Commons'', ''wikimedia-url''),
      (''unsplash.com'', ''Unsplash'', ''unsplash-url''),
      (''pexels.com'', ''Pexels'', ''pexels-url''),
      (''pixabay.com'', ''Pixabay'', ''pixabay-url''),
      (''openverse.org'', ''Openverse'', ''openverse-url''),
      (''pxhere.com'', ''pxhere'', ''pxhere-url'')]"

text \<open>The body of the \<^verbatim>\<open>try\<close>; \<open>None\<close> is the \<^verbatim>\<open>null\<close> of the \<^verbatim>\<open>catch\<close>.\<close>

definition inferAttributionFromUrl :: "runtime \<Rightarrow> string \<Rightarrow> Inferred option" where
  "inferAttributionFromUrl rt rawUrl =
     (case newURL rt rawUrl of
        None \<Rightarrow> None
      | Some url \<Rightarrow>
          (let hostName = toLowerCase rt (hostname url);
               matched = find (\<lambda>(match, label, src). stringIncludes hostName match) sourceMap
           in case decodeURIComponent rt (pathname url) of
                None \<Rightarrow> None
              | Some path \<Rightarrow>
                  (let rawTitle = lastSegment path;
                       title = trim rt (replaceWhiteSpace rt
                                 (replaceDashRuns False (stripExtension rawTitle)));
                       baseUrl = protocol url @ ''//'' @ host url
                   in case matched of
                        Some (match, label, src) \<Rightarrow>
                          Some \<lparr>imageAttribution =
                                  (if title \<noteq> [] then label @ '': '' @ title else label),
                                imageAttributionUrl = baseUrl,
                                source = src\<rparr>
                      | None \<Rightarrow>
                          Some \<lparr>imageAttribution =
                                  (if title \<noteq> []
                                   then ''Fuente: '' @ hostName @ '' ('' @ title @ '')''
                                   else ''Fuente: '' @ hostName),
                                imageAttributionUrl = baseUrl,
                                source = ''url-scan''\<rparr>)))"

definition legacyMap :: "(string \<times> string) list" where
  "legacyMap =
     [(''manual-url-scan'', ''url-scan''),
      (''wikipedia-manual-url'', ''wikipedia-url''),
      (''wikimedia commons-manual-url'', ''wikimedia-url''),
      (''unsplash-manual-url'', ''unsplash-url''),
      (''pexels-manual-url'', ''pexels-url''),
      (''pixabay-manual-url'', ''pixabay-url''),
      (''openverse-manual-url'', ''openverse-url''),
      (''pxhere-manual-url'', ''pxhere-url'')]"

text \<open>
  \<^verbatim>\<open>if (legacyMap[current]) return legacyMap[current]\<close> is a lookup under a computed key:
  for a current source that is the name of a property of \<^verbatim>\<open>Object.prototype\<close>
  (\<^verbatim>\<open>constructor\<close>, \<^verbatim>\<open>__proto__\<close>) the value found is truthy, and the function returns it: a
  built-in function or the prototype object, not a string. \<open>None\<close> is a thrown
  \<^verbatim>\<open>TypeError\<close>.
\<close>

definition normalizeSourceFromUrl :: "runtime \<Rightarrow> string \<Rightarrow> json option \<Rightarrow> json option" where
  "normalizeSourceFromUrl rt rawUrl currentSource =
     do {
       s \<leftarrow> toString rt (orEmpty currentSource);
       let current = toLowerCase rt (trim rt s);
       let fallback = (case currentSource of
                         None \<Rightarrow> Some (JStr [])
                       | Some v \<Rightarrow> if truthy v then map_option JStr (toString rt v)
                                  else Some (JStr []));
       let legacy = lookup (map (\<lambda>(k, v). (k, JStr v)) legacyMap) current;
       if (case legacy of None \<Rightarrow> False | Some v \<Rightarrow> truthy v) then legacy
       else
         (case inferAttributionFromUrl rt rawUrl of
            None \<Rightarrow> fallback
          | Some inferred \<Rightarrow>
              if source inferred \<noteq> []
                 \<and> (current = [] \<or> current = ''manual-url'' \<or> current = ''url-scan'')
              then Some (JStr (source inferred))
              else fallback)
     }"

subsection \<open>The pass over the items and over the family overrides\<close>

text \<open>
  Lines 91 to 101 of \<^verbatim>\<open>sanitizeSnapshotImages\<close>: the normalization of the source and of the
  attribution of an item whose custom image URL is \<open>customImageUrl\<close>.
\<close>

definition backfillFood :: "runtime \<Rightarrow> string \<Rightarrow> json \<Rightarrow> json option" where
  "backfillFood rt customImageUrl food =
     (if isHttpUrl customImageUrl then
        do {
          src \<leftarrow> normalizeSourceFromUrl rt customImageUrl (getProp food ''imageSource'');
          let food1 = assign ''imageSource'' src food;
          needs \<leftarrow> needsAttributionBackfill rt (getProp food1 ''customImageAttribution'');
          Some (if needs then
                  (case inferAttributionFromUrl rt customImageUrl of
                     None \<Rightarrow> food1
                   | Some inferred \<Rightarrow>
                       assign ''imageSource'' (JStr (source inferred))
                         (assign ''customImageAttributionUrl'' (JStr (imageAttributionUrl inferred))
                            (assign ''customImageAttribution'' (JStr (imageAttribution inferred))
                               food1)))
                else food1)
        }
      else Some food)"

text \<open>Lines 103 to 108: the custom-image field group is emptied and the item stamped.\<close>

definition clearManualImage :: "string \<Rightarrow> json \<Rightarrow> json" where
  "clearManualImage now food =
     assign ''updatedAt'' (JStr now)
       (assign ''imageGeneratedAt'' (JStr [])
          (assign ''imageSource'' (JStr [])
             (assign ''customImageAttributionUrl'' (JStr [])
                (assign ''customImageAttribution'' (JStr [])
                   (assign ''customImageUrl'' (JStr []) food)))))"

text \<open>
  The callback of \<^verbatim>\<open>Object.values(foods).forEach\<close> on one item. Reading a property of
  \<^verbatim>\<open>null\<close> throws a \<^verbatim>\<open>TypeError\<close>; nothing in the source guards against it.
\<close>

definition sanitizeFood :: "runtime \<Rightarrow> string \<Rightarrow> json \<Rightarrow> json option" where
  "sanitizeFood rt now food =
     (case food of
        JNull \<Rightarrow> None
      | _ \<Rightarrow>
          do {
            url \<leftarrow> toString rt (orEmpty (getProp food ''customImageUrl''));
            let customImageUrl = trim rt url;
            if customImageUrl = [] then Some food
            else
              do {
                food' \<leftarrow> backfillFood rt customImageUrl food;
                clear \<leftarrow> shouldClearManualImage rt (getProp food' ''customImageAttribution'');
                Some (if clear then clearManualImage now food' else food')
              }
          })"

text \<open>
  \<^verbatim>\<open>Object.values(foods)\<close> are the property values of an object and the elements of an
  array; the values of a string are its characters, which have no properties, and a
  number or a boolean has no values.
\<close>

definition sanitizeFoods :: "runtime \<Rightarrow> string \<Rightarrow> json \<Rightarrow> json option" where
  "sanitizeFoods rt now foods =
     (case foods of
        JObj kvs \<Rightarrow>
          map_option JObj
            (those (map (\<lambda>(k, food). map_option (Pair k) (sanitizeFood rt now food)) kvs))
      | JArr xs \<Rightarrow> map_option JArr (those (map (sanitizeFood rt now) xs))
      | _ \<Rightarrow> Some foods)"

text \<open>
  The callback of the second loop on \<^verbatim>\<open>familyOverrides[family] || {}\<close>. The outer
  \<open>None\<close> is a thrown \<^verbatim>\<open>TypeError\<close>, \<open>Some None\<close> is \<^verbatim>\<open>delete familyOverrides[family]\<close>.
\<close>

definition sanitizeOverride :: "runtime \<Rightarrow> json \<Rightarrow> json option option" where
  "sanitizeOverride rt item =
     do {
       url \<leftarrow> toString rt (orEmpty (getProp item ''imageUrl''));
       let imageUrl = trim rt url;
       if imageUrl = [] then Some (Some item)
       else
         do {
           item' \<leftarrow>
             (if isHttpUrl imageUrl then
                do {
                  src \<leftarrow> normalizeSourceFromUrl rt imageUrl (getProp item ''imageSource'');
                  let item1 = assign ''imageSource'' src item;
                  needs \<leftarrow> needsAttributionBackfill rt (getProp item1 ''imageAttribution'');
                  Some (if needs then
                          (case inferAttributionFromUrl rt imageUrl of
                             None \<Rightarrow> item1
                           | Some inferred \<Rightarrow>
                               assign ''imageSource'' (JStr (source inferred))
                                 (assign ''imageAttributionUrl'' (JStr (imageAttributionUrl inferred))
                                    (assign ''imageAttribution'' (JStr (imageAttribution inferred))
                                       item1)))
                        else item1)
                }
              else Some item);
           clear \<leftarrow> shouldClearManualImage rt (getProp item' ''imageAttribution'');
           Some (if clear then None else Some item')
         }
     }"

text \<open>
  \<^verbatim>\<open>Object.keys(familyOverrides).forEach\<close>. A deleted property of an object is gone; a
  deleted element of an array leaves a hole, which is \<^verbatim>\<open>null\<close> once serialized.
\<close>

definition sanitizeFamilyOverrides :: "runtime \<Rightarrow> json \<Rightarrow> json option" where
  "sanitizeFamilyOverrides rt familyOverrides =
     (case familyOverrides of
        JObj kvs \<Rightarrow>
          map_option (\<lambda>rs. JObj (List.map_filter (\<lambda>(k, r). map_option (Pair k) r) rs))
            (those (map (\<lambda>(k, item). map_option (Pair k) (sanitizeOverride rt item)) kvs))
      | JArr xs \<Rightarrow>
          map_option (\<lambda>rs. JArr (map (\<lambda>r. case r of None \<Rightarrow> JNull | Some item \<Rightarrow> item) rs))
            (those (map (sanitizeOverride rt) xs))
      | _ \<Rightarrow> Some familyOverrides)"

text \<open>\<^verbatim>\<open>v || {}\<close>\<close>

fun orEmptyObject :: "json option \<Rightarrow> json" where
  "orEmptyObject None = JObj []"
| "orEmptyObject (Some v) = (if truthy v then v else JObj [])"

definition sanitizeSnapshotImages :: "runtime \<Rightarrow> string \<Rightarrow> json \<Rightarrow> json option" where
  "sanitizeSnapshotImages rt now snapshot =
     (let next = jsonClone snapshot;
          foods = orEmptyObject (getProp next ''foods'')
      in do {
           foods' \<leftarrow> sanitizeFoods rt now foods;
           let next1 = assign ''foods'' foods' next;
           let familyOverrides = orEmptyObject (getProp next1 ''familyOverrides'');
           familyOverrides' \<leftarrow> sanitizeFamilyOverrides rt familyOverrides;
           Some (assign ''familyOverrides'' familyOverrides' next1)
         })"

section \<open>The push route\<close>

text \<open>
  The table \<^verbatim>\<open>profile_snapshots\<close> has the primary key \<^verbatim>\<open>(profile_id, share_code)\<close>,
  so it is a map from that pair to the other three columns. \<^verbatim>\<open>revision\<close> is an
  \<^verbatim>\<open>integer\<close> column: its values are exact in JavaScript arithmetic. \<^verbatim>\<open>snapshot\<close> is a
  \<^verbatim>\<open>jsonb\<close> column: it holds the value of the JSON text that the driver writes with
  \<^verbatim>\<open>JSON.stringify\<close> (the order of the keys of an object, which the model carries along,
  means nothing there). Failures of the database itself (a lost connection, a value the
  column type refuses) are not modelled, except the refusal of a second row under one key.
\<close>

record Row =
  rowSnapshot :: json
  rowRevision :: int
  rowUpdatedAt :: string

type_synonym store = "string \<times> string \<rightharpoonup> Row"

text \<open>
  The body of the request. The two tokens are strings when they are present, as the type
  \<^verbatim>\<open>PushBody\<close> says; \<^verbatim>\<open>baseRevision\<close> and \<^verbatim>\<open>snapshot\<close> are inspected by the handler
  (\<^verbatim>\<open>typeof\<close>, \<^verbatim>\<open>Array.isArray\<close>) and are any JSON value.
\<close>

record PushBody =
  reqShareCode :: "string option"
  reqProfileId :: "string option"
  reqBaseRevision :: "json option"
  reqSnapshot :: "json option"

text \<open>
  The exceptions that escape from the handler: the \<^verbatim>\<open>TypeError\<close> of the sanitization pass,
  and the error with which the database refuses an \<^verbatim>\<open>insert\<close> under a key that has a row.
\<close>

datatype error = TypeError | DatabaseError

datatype response = Response nat json

text \<open>\<^verbatim>\<open>/^[a-zA-Z0-9_-]{8,128}$/\<close>\<close>

definition tokenChar :: "char \<Rightarrow> bool" where
  "tokenChar c = (isAlnum c \<or> c = CHR ''_'' \<or> c = CHR ''-'')"

definition tokenPattern :: "string \<Rightarrow> bool" where
  "tokenPattern s = (8 \<le> length s \<and> length s \<le> 128 \<and> list_all tokenChar s)"

definition isValidToken :: "string option \<Rightarrow> bool" where
  "isValidToken v = (case v of None \<Rightarrow> False | Some s \<Rightarrow> s \<noteq> [] \<and> tokenPattern s)"

fun typeof :: "json \<Rightarrow> string" where
  "typeof JNull = ''object''"
| "typeof (JBool b) = ''boolean''"
| "typeof (JNum n) = ''number''"
| "typeof (JStr s) = ''string''"
| "typeof (JArr xs) = ''object''"
| "typeof (JObj kvs) = ''object''"
| "typeof (JFunction name) = ''function''"

fun isArray :: "json \<Rightarrow> bool" where
  "isArray (JArr xs) = True"
| "isArray v = False"

text \<open>
  On a parsed JSON value \<^verbatim>\<open>JSON.stringify\<close> throws only when its recursion runs out of
  stack, on a value nested many thousands of levels deep; the \<^verbatim>\<open>catch\<close> then gives
  \<^verbatim>\<open>false\<close>. The model has no limit on the stack and so no such case.
\<close>

definition isValidSnapshot :: "runtime \<Rightarrow> json option \<Rightarrow> bool" where
  "isValidSnapshot rt snapshot =
     (case snapshot of
        None \<Rightarrow> False
      | Some v \<Rightarrow>
          if \<not> truthy v \<or> typeof v \<noteq> ''object'' \<or> isArray v then False
          else jsLength (stringify rt v) \<le> 1000000)"

text \<open>
  The check of line 204, \<^verbatim>\<open>typeof baseRevision !== "number" || !Number.isInteger(baseRevision)
  || baseRevision < 0\<close>; a value that passes is returned as the rational it is.
\<close>

definition checkBaseRevision :: "json option \<Rightarrow> rat option" where
  "checkBaseRevision v =
     (case v of
        Some (JNum (Fin r)) \<Rightarrow> if of_int \<lfloor>r\<rfloor> \<noteq> r \<or> r < 0 then None else Some r
      | _ \<Rightarrow> None)"

definition errorBody :: "string \<Rightarrow> json" where
  "errorBody msg = JObj [(''error'', JStr msg)]"

text \<open>
  \<^verbatim>\<open>{ ...sanitizedSnapshot, revision: nextRevision, updatedAt: new Date().toISOString() }\<close>
\<close>

definition snapshotToSave :: "json \<Rightarrow> int \<Rightarrow> string \<Rightarrow> json" where
  "snapshotToSave sanitizedSnapshot nextRevision now =
     assign ''updatedAt'' (JStr now)
       (assign ''revision'' (JNum (Fin (of_int nextRevision))) sanitizedSnapshot)"

text \<open>
  What the database keeps of an object given as a query parameter, and what the client
  reads of an object sent with \<^verbatim>\<open>res.json\<close>: the value of its \<^verbatim>\<open>JSON.stringify\<close> text.
\<close>

definition written :: "json \<Rightarrow> json" where
  "written v = jsonClone v"

text \<open>
  The handler of \<^verbatim>\<open>POST /push\<close>, from the parsed body on (the body parser and the rate
  limiter in front of the router are not part of it). \<open>now\<close> is the clock reading of the
  request, \<open>db\<close> the table before, and the result is what the handler sends, or the
  exception that escapes from it, with the table after. The checks come in the order of
  the source, and the sanitization pass of line 213 runs before the row is read. This is
  the handler run without any other request between its \<^verbatim>\<open>select\<close> and its
  \<^verbatim>\<open>insert\<close> or \<^verbatim>\<open>update\<close>; the runs in which requests overlap are in the next subsection.
\<close>

definition push :: "runtime \<Rightarrow> string \<Rightarrow> PushBody \<Rightarrow> store \<Rightarrow> (error + response) \<times> store" where
  "push rt now body db =
     (if \<not> isValidToken (reqShareCode body) \<or> \<not> isValidToken (reqProfileId body) then
        (Inr (Response 400 (errorBody ''shareCode or profileId format is invalid'')), db)
      else if \<not> isValidSnapshot rt (reqSnapshot body) then
        (Inr (Response 400 (errorBody ''snapshot is invalid'')), db)
      else
        (case checkBaseRevision (reqBaseRevision body) of
           None \<Rightarrow>
             (Inr (Response 400 (errorBody ''baseRevision must be a positive integer'')), db)
         | Some baseRevision \<Rightarrow>
             (case (reqShareCode body, reqProfileId body, reqSnapshot body) of
                (Some shareCode, Some profileId, Some snapshot) \<Rightarrow>
                  (case sanitizeSnapshotImages rt now snapshot of
                     None \<Rightarrow> (Inl TypeError, db)
                   | Some sanitizedSnapshot \<Rightarrow>
                       (case db (profileId, shareCode) of
                          None \<Rightarrow>
                            (let nextRevision = 1;
                                 saved = written (snapshotToSave sanitizedSnapshot nextRevision now)
                             in (Inr (Response 200
                                        (JObj [(''snapshot'', saved),
                                               (''revision'', JNum (Fin (of_int nextRevision)))])),
                                 db((profileId, shareCode) \<mapsto>
                                    \<lparr>rowSnapshot = saved, rowRevision = nextRevision,
                                     rowUpdatedAt = now\<rparr>)))
                        | Some existing \<Rightarrow>
                            (let currentRevision = rowRevision existing
                             in if baseRevision \<noteq> of_int currentRevision then
                                  (Inr (Response 409
                                          (JObj [(''snapshot'', rowSnapshot existing),
                                                 (''revision'', JNum (Fin (of_int currentRevision))),
                                                 (''conflict'', JBool True)])),
                                   db)
                                else
                                  (let nextRevision = currentRevision + 1;
                                       saved =
                                         written (snapshotToSave sanitizedSnapshot nextRevision now)
                                   in (Inr (Response 200
                                              (JObj [(''snapshot'', saved),
                                                     (''revision'', JNum (Fin (of_int nextRevision)))])),
                                       db((profileId, shareCode) \<mapsto>
                                          \<lparr>rowSnapshot = saved, rowRevision = nextRevision,
                                           rowUpdatedAt = now\<rparr>))))))
              | _ \<Rightarrow>
                  (Inr (Response 400
                          (errorBody ''shareCode, profileId and snapshot are required'')), db))))"

subsection \<open>Sequences of pushes\<close>

text \<open>
  Requests that are handled one after the other, none arriving before the one before it
  has been answered; each comes with its clock reading. The result lists, for every
  request, what was sent and the table after it.
\<close>

fun pushAll ::
  "runtime \<Rightarrow> (string \<times> PushBody) list \<Rightarrow> store \<Rightarrow> ((error + response) \<times> store) list" where
  "pushAll rt [] db = []"
| "pushAll rt ((now, body) # reqs) db =
     (let r = push rt now body db in r # pushAll rt reqs (snd r))"

text \<open>The \<^verbatim>\<open>revision\<close> member of a 200 response, \<open>None\<close> for any other outcome.\<close>

fun acceptedRevision :: "error + response \<Rightarrow> json option" where
  "acceptedRevision (Inr (Response status body)) =
     (if status = 200 then getProp body ''revision'' else None)"
| "acceptedRevision (Inl e) = None"

text \<open>A row is addressed by \<^verbatim>\<open>(profile_id, share_code)\<close>.\<close>

definition isFor :: "string \<times> string \<Rightarrow> PushBody \<Rightarrow> bool" where
  "isFor key body = (reqProfileId body = Some (fst key) \<and> reqShareCode body = Some (snd key))"

text \<open>The accepted pushes against one row, in order: what was sent and the table after.\<close>

definition acceptedFor ::
  "string \<times> string \<Rightarrow> (string \<times> PushBody) list \<Rightarrow> ((error + response) \<times> store) list
     \<Rightarrow> ((error + response) \<times> store) list" where
  "acceptedFor key reqs results =
     map snd (filter (\<lambda>(req, res). isFor key (snd req) \<and> acceptedRevision (fst res) \<noteq> None)
                (zip reqs results))"

definition storedRevision :: "store \<Rightarrow> string \<times> string \<Rightarrow> int option" where
  "storedRevision db key = map_option rowRevision (db key)"

text \<open>The revision of a row, 0 when there is no row yet.\<close>

definition revisionBefore :: "store \<Rightarrow> string \<times> string \<Rightarrow> int" where
  "revisionBefore db key = (case db key of None \<Rightarrow> 0 | Some row \<Rightarrow> rowRevision row)"

subsection \<open>Overlapping requests\<close>

text \<open>
  The handler is an \<^verbatim>\<open>async\<close> function. It runs without interruption up to its
  \<^verbatim>\<open>await\<close> of the \<^verbatim>\<open>select\<close> (line 215), and again from the result of the \<^verbatim>\<open>select\<close> to
  its \<^verbatim>\<open>await\<close> of the \<^verbatim>\<open>insert\<close> (line 227) or of the \<^verbatim>\<open>update\<close> (line 252); the
  database runs each statement on its own, there is no transaction, and the \<^verbatim>\<open>update\<close>
  names the row by its key alone. Between the \<^verbatim>\<open>select\<close> of one request and its write,
  the statements of other requests can run.

  \<open>pushRead\<close> is the handler up to the point where it has the result of its
  \<^verbatim>\<open>select\<close> on the table \<open>db\<close> and has decided what to do: it is done (a 400, a 409,
  or the \<^verbatim>\<open>TypeError\<close>), or it is about to write. \<open>pushWrite\<close> is the write on the table
  as it is by then, and the answer.
\<close>

record Write =
  writeKey :: "string \<times> string"
  writeSnapshot :: json
  writeRevision :: int
  writeInsert :: bool
  writeTime :: string

datatype progress = Done "error + response" | Awaiting Write

definition pushRead :: "runtime \<Rightarrow> string \<Rightarrow> PushBody \<Rightarrow> store \<Rightarrow> progress" where
  "pushRead rt now body db =
     (if \<not> isValidToken (reqShareCode body) \<or> \<not> isValidToken (reqProfileId body) then
        Done (Inr (Response 400 (errorBody ''shareCode or profileId format is invalid'')))
      else if \<not> isValidSnapshot rt (reqSnapshot body) then
        Done (Inr (Response 400 (errorBody ''snapshot is invalid'')))
      else
        (case checkBaseRevision (reqBaseRevision body) of
           None \<Rightarrow> Done (Inr (Response 400 (errorBody ''baseRevision must be a positive integer'')))
         | Some baseRevision \<Rightarrow>
             (case (reqShareCode body, reqProfileId body, reqSnapshot body) of
                (Some shareCode, Some profileId, Some snapshot) \<Rightarrow>
                  (case sanitizeSnapshotImages rt now snapshot of
                     None \<Rightarrow> Done (Inl TypeError)
                   | Some sanitizedSnapshot \<Rightarrow>
                       (case db (profileId, shareCode) of
                          None \<Rightarrow>
                            Awaiting
                              \<lparr>writeKey = (profileId, shareCode),
                               writeSnapshot = written (snapshotToSave sanitizedSnapshot 1 now),
                               writeRevision = 1, writeInsert = True, writeTime = now\<rparr>
                        | Some existing \<Rightarrow>
                            (let currentRevision = rowRevision existing
                             in if baseRevision \<noteq> of_int currentRevision then
                                  Done (Inr (Response 409
                                               (JObj [(''snapshot'', rowSnapshot existing),
                                                      (''revision'',
                                                       JNum (Fin (of_int currentRevision))),
                                                      (''conflict'', JBool True)])))
                                else
                                  Awaiting
                                    \<lparr>writeKey = (profileId, shareCode),
                                     writeSnapshot =
                                       written (snapshotToSave sanitizedSnapshot
                                                  (currentRevision + 1) now),
                                     writeRevision = currentRevision + 1, writeInsert = False,
                                     writeTime = now\<rparr>)))
              | _ \<Rightarrow>
                  Done (Inr (Response 400
                               (errorBody ''shareCode, profileId and snapshot are required''))))))"

text \<open>
  An \<^verbatim>\<open>insert\<close> under a key that has a row by now is refused, and the error escapes from
  the handler. An \<^verbatim>\<open>update\<close> writes over the row whatever its revision is by now (one that
  finds no row changes nothing); the handler then answers 200.
\<close>

definition pushWrite :: "Write \<Rightarrow> store \<Rightarrow> (error + response) \<times> store" where
  "pushWrite w db =
     (let row = \<lparr>rowSnapshot = writeSnapshot w, rowRevision = writeRevision w,
                 rowUpdatedAt = writeTime w\<rparr>;
          accepted = Inr (Response 200
                            (JObj [(''snapshot'', writeSnapshot w),
                                   (''revision'', JNum (Fin (of_int (writeRevision w))))]))
      in case db (writeKey w) of
           None \<Rightarrow> if writeInsert w then (accepted, db(writeKey w \<mapsto> row)) else (accepted, db)
         | Some present \<Rightarrow>
             if writeInsert w then (Inl DatabaseError, db)
             else (accepted, db(writeKey w \<mapsto> row)))"

text \<open>
  The server: the table, the requests that have read and not yet written, and what has
  been sent, in the order it was sent. Requests are numbered by the caller. An event is
  the arrival of a request, which runs it up to its write, or the moment at which the
  write of a waiting request is run.
\<close>

record Server =
  table :: store
  waiting :: "(nat \<times> Write) list"
  answers :: "(nat \<times> (error + response)) list"

datatype event = Arrive nat string PushBody | Resume nat

fun step :: "runtime \<Rightarrow> event \<Rightarrow> Server \<Rightarrow> Server" where
  "step rt (Arrive i now body) s =
     (case pushRead rt now body (table s) of
        Done out \<Rightarrow> s\<lparr>answers := answers s @ [(i, out)]\<rparr>
      | Awaiting w \<Rightarrow> s\<lparr>waiting := waiting s @ [(i, w)]\<rparr>)"
| "step rt (Resume i) s =
     (case map_of (waiting s) i of
        None \<Rightarrow> s
      | Some w \<Rightarrow>
          (let (out, db') = pushWrite w (table s)
           in s\<lparr>table := db', waiting := AList.delete i (waiting s),
                answers := answers s @ [(i, out)]\<rparr>))"

definition run :: "runtime \<Rightarrow> event list \<Rightarrow> Server \<Rightarrow> Server" where
  "run rt events s = fold (step rt) events s"

definition idle :: "store \<Rightarrow> Server" where
  "idle db = \<lparr>table = db, waiting = [], answers = []\<rparr>"

text \<open>The events of requests handled one after the other, numbered from \<open>i\<close>.\<close>

fun oneByOne :: "nat \<Rightarrow> (string \<times> PushBody) list \<Rightarrow> event list" where
  "oneByOne i [] = []"
| "oneByOne i ((now, body) # reqs) = Arrive i now body # Resume i # oneByOne (Suc i) reqs"

subsection \<open>Notions used to state the properties of the route\<close>

text \<open>The three guards at the head of the handler, lines 196 to 207.\<close>

definition validPush :: "runtime \<Rightarrow> PushBody \<Rightarrow> bool" where
  "validPush rt body =
     (isValidToken (reqShareCode body) \<and> isValidToken (reqProfileId body)
      \<and> isValidSnapshot rt (reqSnapshot body)
      \<and> checkBaseRevision (reqBaseRevision body) \<noteq> None)"

text \<open>The body of the 409 response for a stored row, lines 237 to 241.\<close>

definition conflictBody :: "Row \<Rightarrow> json" where
  "conflictBody row =
     JObj [(''snapshot'', rowSnapshot row),
           (''revision'', JNum (Fin (of_int (rowRevision row)))),
           (''conflict'', JBool True)]"

text \<open>The item \<open>itemId\<close> of the snapshot stored in a row: \<^verbatim>\<open>snapshot.foods[itemId]\<close>.\<close>

definition storedItem :: "store \<Rightarrow> string \<times> string \<Rightarrow> string \<Rightarrow> json option" where
  "storedItem db key itemId =
     do {
       row \<leftarrow> db key;
       foods \<leftarrow> getProp (rowSnapshot row) ''foods'';
       getProp foods itemId
     }"

text \<open>
  No object inside the value has an own property named \<^verbatim>\<open>toString\<close>; on such a value
  \<^verbatim>\<open>String(...)\<close> cannot throw.
\<close>

fun noOwnToString :: "json \<Rightarrow> bool" where
  "noOwnToString (JArr xs) = (\<forall>x \<in> set xs. noOwnToString x)"
| "noOwnToString (JObj kvs) =
     (''toString'' \<notin> set (map fst kvs) \<and> (\<forall>v \<in> set (map snd kvs). noOwnToString v))"
| "noOwnToString v = True"

text \<open>The values that \<^verbatim>\<open>JSON.parse\<close> returns: they hold no function.\<close>

fun isParsed :: "json \<Rightarrow> bool" where
  "isParsed (JArr xs) = (\<forall>x \<in> set xs. isParsed x)"
| "isParsed (JObj kvs) = (\<forall>v \<in> set (map snd kvs). isParsed v)"
| "isParsed (JFunction name) = False"
| "isParsed v = True"

text \<open>\<^verbatim>\<open>Object.values(v)\<close> on an object or an array.\<close>

fun objectValues :: "json \<Rightarrow> json list" where
  "objectValues (JObj kvs) = map snd kvs"
| "objectValues (JArr xs) = xs"
| "objectValues v = []"

section \<open>The merge engine (\<^verbatim>\<open>App.tsx\<close>)\<close>

text \<open>
  The client merges two snapshots with \<^verbatim>\<open>mergeSnapshots\<close>, on values typed
  \<^verbatim>\<open>ProfileSnapshot\<close> and \<^verbatim>\<open>FoodState\<close> (\<^verbatim>\<open>db.ts\<close>). The functions are those of lines 648 to
  869 of \<^verbatim>\<open>src/App.tsx\<close>. (An older copy of the file, also among the sources, has them at
  its lines 483 to 700; it differs in \<^verbatim>\<open>mergeSnapshots\<close> alone, which there leaves
  \<^verbatim>\<open>babyName\<close>, \<^verbatim>\<open>babyBirthDate\<close> and \<^verbatim>\<open>correctedWeeks\<close> as the remote side has them.)

  The records below are the declared types: an optional property is an
  \<^typ>\<open>'a option\<close>, \<open>None\<close> when it is absent or \<^verbatim>\<open>undefined\<close>. \<^verbatim>\<open>FoodState\<close> has, besides its
  declared properties, the legacy property \<^verbatim>\<open>ai\<close> that \<^verbatim>\<open>normalizeFoods\<close> reads.

  A dictionary (\<^verbatim>\<open>Record<string, T>\<close>) is the list of its own entries in property order.
  It is a plain object with the prototype \<^verbatim>\<open>Object.prototype\<close>, as \<^verbatim>\<open>JSON.parse\<close> returns the
  dictionaries of a snapshot received from the server and as \<^verbatim>\<open>mergeSnapshots\<close> returns the
  dictionaries that it writes, so that
  \<^item> a lookup under a computed key, \<^verbatim>\<open>local.foods[id]\<close>, finds the own entry, and when there
    is none and the key is the name of a property of \<^verbatim>\<open>Object.prototype\<close>, the inherited
    property (\<open>lookupItem\<close>);
  \<^item> an assignment under a computed key, \<^verbatim>\<open>mergedFoods[id] = food\<close>, adds or replaces the own
    entry, except under the key \<^verbatim>\<open>__proto__\<close>, where it sets the prototype of the
    dictionary and adds no entry (\<open>setProperty\<close>).

  A dictionary written key by key lists its keys in the order they were written, which is
  the property order of JavaScript as long as no key is an array index; the theorems about
  the items of a merged snapshot go through \<^const>\<open>map_of\<close> and the set of entries, which do
  not depend on that order.
\<close>

subsection \<open>The types\<close>

text \<open>An element of \<^verbatim>\<open>exposures\<close>.\<close>

record Exposure =
  checkedAt :: string

record LegacyAi =
  aiDescription :: "string option"
  aiReactions :: "string option"
  aiGeneratedAt :: "string option"
  aiModel :: "string option"

record FoodState =
  foodId :: string
  isHidden :: bool
  "notes" :: string
  exposures :: "Exposure list"
  customImageUrl :: "string option"
  customImageAttribution :: "string option"
  customImageAttributionUrl :: "string option"
  imageGeneratedAt :: "string option"
  imageSource :: "string option"
  description :: "string option"
  reactions :: "string option"
  descriptionGeneratedAt :: "string option"
  descriptionModel :: "string option"
  updatedAt :: string
  ai :: "LegacyAi option"

text \<open>
  The values of the item dictionary as they are at run time. The declared type of an
  item is \<^verbatim>\<open>FoodState\<close>, but \<^verbatim>\<open>mergeSnapshots\<close> can return items that lack properties the
  type asks for (it spreads an inherited property into an item), and what it returns is
  merged again later. An \<open>Item\<close> is an object that has any of the properties of
  \<^verbatim>\<open>FoodState\<close>, each with its declared type.
\<close>

record Item =
  itemFoodId :: "string option"
  itemIsHidden :: "bool option"
  itemNotes :: "string option"
  itemExposures :: "Exposure list option"
  itemCustomImageUrl :: "string option"
  itemCustomImageAttribution :: "string option"
  itemCustomImageAttributionUrl :: "string option"
  itemImageGeneratedAt :: "string option"
  itemImageSource :: "string option"
  itemDescription :: "string option"
  itemReactions :: "string option"
  itemDescriptionGeneratedAt :: "string option"
  itemDescriptionModel :: "string option"
  itemUpdatedAt :: "string option"
  itemAi :: "LegacyAi option"

datatype ThemeMode = Light | Dark | System
datatype AppLanguage = Es | En

record Settings =
  theme :: ThemeMode
  language :: AppLanguage
  hideIntroduced :: bool
  showHidden :: bool
  showNotSuitableFoods :: "bool option"

record FoodSeed =
  seedId :: string
  seedName :: string
  seedFamily :: string
  seedAllergens :: "string list"
  seedImageUrl :: string
  seedImageAttribution :: "string option"
  seedImageAttributionUrl :: "string option"

record FamilyOverride =
  overrideImageUrl :: string
  overrideImageAttribution :: "string option"
  overrideImageAttributionUrl :: "string option"
  overrideImageSource :: "string option"

record Meta =
  orderUpdatedAt :: "string option"

record ProfileSnapshot =
  schemaVersion :: int
  profileId :: string
  profileName :: string
  shareCode :: string
  babyName :: "string option"
  babyBirthDate :: "string option"
  correctedWeeks :: "rat option"
  revision :: int
  snapshotUpdatedAt :: string
  settings :: Settings
  foods :: "(string \<times> Item) list"
  customFoods :: "(string \<times> FoodSeed) list option"
  customFamilies :: "string list option"
  familyOrder :: "string list option"
  familyOverrides :: "(string \<times> FamilyOverride) list option"
  order :: "string list"
  meta :: Meta

subsection \<open>The functions\<close>

text \<open>\<^verbatim>\<open>x || y\<close> and \<^verbatim>\<open>x ?? y\<close> on an optional string.\<close>

fun orElse :: "string option \<Rightarrow> string \<Rightarrow> string" where
  "orElse None y = y"
| "orElse (Some s) y = (if s \<noteq> [] then s else y)"

fun nullish :: "string option \<Rightarrow> string \<Rightarrow> string" where
  "nullish None y = y"
| "nullish (Some s) y = s"

text \<open>\<^verbatim>\<open>Array.from(new Set(xs))\<close>: the values in the order of their first occurrence.\<close>

fun addAll :: "'a list \<Rightarrow> 'a list \<Rightarrow> 'a list" where
  "addAll seen [] = seen"
| "addAll seen (x # xs) = (if x \<in> set seen then addAll seen xs else addAll (seen @ [x]) xs)"

definition uniqueValues :: "'a list \<Rightarrow> 'a list" where
  "uniqueValues xs = addAll [] xs"

text \<open>\<^verbatim>\<open>{ ...a, ...b }\<close> on dictionaries.\<close>

definition spread :: "('k \<times> 'v) list \<Rightarrow> ('k \<times> 'v) list \<Rightarrow> ('k \<times> 'v) list" where
  "spread a b = fold (\<lambda>(k, v). AList.update k v) b a"

text \<open>\<^verbatim>\<open>a >= b\<close> on the results of \<^verbatim>\<open>Date.parse\<close>: false as soon as one is \<^verbatim>\<open>NaN\<close>.\<close>

fun geq :: "int option \<Rightarrow> int option \<Rightarrow> bool" where
  "geq (Some a) (Some b) = (a \<ge> b)"
| "geq a b = False"

definition toTimestamp :: "runtime \<Rightarrow> string option \<Rightarrow> int" where
  "toTimestamp rt value =
     (case value of
        None \<Rightarrow> 0
      | Some s \<Rightarrow>
          if s = [] then 0
          else (case dateParse rt s of None \<Rightarrow> 0 | Some parsed \<Rightarrow> parsed))"

text \<open>
  \<^verbatim>\<open>Array.prototype.sort\<close> is stable, and so is \<^const>\<open>sort_key\<close>: with the comparator
  \<^verbatim>\<open>toTimestamp(a.checkedAt) - toTimestamp(b.checkedAt)\<close> two dates of the same time stay in
  the order they had.
\<close>

definition mergeExposures :: "runtime \<Rightarrow> Exposure list \<Rightarrow> Exposure list \<Rightarrow> Exposure list" where
  "mergeExposures rt left right =
     (let all = filter (\<lambda>item. checkedAt item \<noteq> []) (left @ right);
          unique = map (\<lambda>c. \<lparr>checkedAt = c\<rparr>) (uniqueValues (map checkedAt all));
          sorted = sort_key (\<lambda>e. toTimestamp rt (Some (checkedAt e))) unique
      in take 3 sorted)"

text \<open>
  The result is \<^verbatim>\<open>{ ...newer, ... }\<close>: the item \<open>newer\<close> with eleven properties written
  over.
\<close>

definition mergeFoodState :: "runtime \<Rightarrow> FoodState \<Rightarrow> FoodState \<Rightarrow> FoodState" where
  "mergeFoodState rt localFood remoteFood =
     (let localTime = toTimestamp rt (Some (updatedAt localFood));
          remoteTime = toTimestamp rt (Some (updatedAt remoteFood));
          newer = (if localTime \<ge> remoteTime then localFood else remoteFood);
          older = (if localTime \<ge> remoteTime then remoteFood else localFood);
          newerAiTime = toTimestamp rt (descriptionGeneratedAt newer);
          olderAiTime = toTimestamp rt (descriptionGeneratedAt older);
          aiSource = (if newerAiTime \<ge> olderAiTime then newer else older)
      in newer
           \<lparr>exposures := mergeExposures rt (exposures localFood) (exposures remoteFood),
            customImageUrl := Some (orElse (customImageUrl newer) (orElse (customImageUrl older) [])),
            customImageAttribution :=
              Some (orElse (customImageAttribution newer) (orElse (customImageAttribution older) [])),
            customImageAttributionUrl :=
              Some (orElse (customImageAttributionUrl newer)
                      (orElse (customImageAttributionUrl older) [])),
            imageGeneratedAt :=
              Some (orElse (imageGeneratedAt newer) (orElse (imageGeneratedAt older) [])),
            imageSource := Some (orElse (imageSource newer) (orElse (imageSource older) [])),
            description := Some (nullish (description aiSource) []),
            reactions := Some (nullish (reactions aiSource) []),
            descriptionGeneratedAt := Some (nullish (descriptionGeneratedAt aiSource) []),
            descriptionModel := Some (nullish (descriptionModel aiSource) []),
            updatedAt :=
              (if localTime \<ge> remoteTime
               then orElse (Some (updatedAt localFood)) (updatedAt remoteFood)
               else orElse (Some (updatedAt remoteFood)) (updatedAt localFood))\<rparr>)"

subsection \<open>Items at run time\<close>

text \<open>An item that has all the properties of a \<^verbatim>\<open>FoodState\<close>.\<close>

definition whole :: "FoodState \<Rightarrow> Item" where
  "whole f =
     \<lparr>itemFoodId = Some (foodId f), itemIsHidden = Some (isHidden f),
      itemNotes = Some (notes f), itemExposures = Some (exposures f),
      itemCustomImageUrl = customImageUrl f,
      itemCustomImageAttribution = customImageAttribution f,
      itemCustomImageAttributionUrl = customImageAttributionUrl f,
      itemImageGeneratedAt = imageGeneratedAt f, itemImageSource = imageSource f,
      itemDescription = description f, itemReactions = reactions f,
      itemDescriptionGeneratedAt = descriptionGeneratedAt f,
      itemDescriptionModel = descriptionModel f,
      itemUpdatedAt = Some (updatedAt f), itemAi = ai f\<rparr>"

text \<open>
  What a property inherited from \<^verbatim>\<open>Object.prototype\<close> is to the merge: a built-in function
  or the prototype object (\<open>inherited\<close>) is truthy, none of the properties of an item is
  defined on it, and a spread of it copies nothing. It is an item without properties.
\<close>

definition emptyItem :: Item where
  "emptyItem =
     \<lparr>itemFoodId = None, itemIsHidden = None, itemNotes = None, itemExposures = None,
      itemCustomImageUrl = None, itemCustomImageAttribution = None,
      itemCustomImageAttributionUrl = None, itemImageGeneratedAt = None,
      itemImageSource = None, itemDescription = None, itemReactions = None,
      itemDescriptionGeneratedAt = None, itemDescriptionModel = None,
      itemUpdatedAt = None, itemAi = None\<rparr>"

text \<open>\<^verbatim>\<open>dict[k]\<close> on the item dictionary.\<close>

definition lookupItem :: "(string \<times> Item) list \<Rightarrow> string \<Rightarrow> Item option" where
  "lookupItem dict k =
     (case map_of dict k of
        Some item \<Rightarrow> Some item
      | None \<Rightarrow> if k \<in> set objectPrototype then Some emptyItem else None)"

text \<open>\<^verbatim>\<open>dict[k] = v\<close> on a dictionary, for an object \<open>v\<close>.\<close>

definition setProperty :: "string \<Rightarrow> 'v \<Rightarrow> (string \<times> 'v) list \<Rightarrow> (string \<times> 'v) list" where
  "setProperty k v dict = (if k = ''__proto__'' then dict else AList.update k v dict)"

text \<open>\<^verbatim>\<open>x || y\<close> on two optional strings, and the default \<^verbatim>\<open>= []\<close> of a parameter.\<close>

fun either :: "string option \<Rightarrow> string option \<Rightarrow> string option" where
  "either None y = y"
| "either (Some s) y = (if s \<noteq> [] then Some s else y)"

fun orEmptyList :: "'a list option \<Rightarrow> 'a list" where
  "orEmptyList None = []"
| "orEmptyList (Some xs) = xs"

text \<open>
  \<^verbatim>\<open>mergeFoodState\<close> (lines 756 to 784) on the values that it is given at run time. On two
  items that have all their properties it is \<open>mergeFoodState\<close> above (\<open>mergeItem_whole\<close>).
\<close>

definition mergeItem :: "runtime \<Rightarrow> Item \<Rightarrow> Item \<Rightarrow> Item" where
  "mergeItem rt localFood remoteFood =
     (let localTime = toTimestamp rt (itemUpdatedAt localFood);
          remoteTime = toTimestamp rt (itemUpdatedAt remoteFood);
          newer = (if localTime \<ge> remoteTime then localFood else remoteFood);
          older = (if localTime \<ge> remoteTime then remoteFood else localFood);
          newerAiTime = toTimestamp rt (itemDescriptionGeneratedAt newer);
          olderAiTime = toTimestamp rt (itemDescriptionGeneratedAt older);
          aiSource = (if newerAiTime \<ge> olderAiTime then newer else older)
      in newer
           \<lparr>itemExposures :=
              Some (mergeExposures rt (orEmptyList (itemExposures localFood))
                      (orEmptyList (itemExposures remoteFood))),
            itemCustomImageUrl :=
              Some (orElse (itemCustomImageUrl newer) (orElse (itemCustomImageUrl older) [])),
            itemCustomImageAttribution :=
              Some (orElse (itemCustomImageAttribution newer)
                      (orElse (itemCustomImageAttribution older) [])),
            itemCustomImageAttributionUrl :=
              Some (orElse (itemCustomImageAttributionUrl newer)
                      (orElse (itemCustomImageAttributionUrl older) [])),
            itemImageGeneratedAt :=
              Some (orElse (itemImageGeneratedAt newer) (orElse (itemImageGeneratedAt older) [])),
            itemImageSource :=
              Some (orElse (itemImageSource newer) (orElse (itemImageSource older) [])),
            itemDescription := Some (nullish (itemDescription aiSource) []),
            itemReactions := Some (nullish (itemReactions aiSource) []),
            itemDescriptionGeneratedAt :=
              Some (nullish (itemDescriptionGeneratedAt aiSource) []),
            itemDescriptionModel := Some (nullish (itemDescriptionModel aiSource) []),
            itemUpdatedAt :=
              (if localTime \<ge> remoteTime
               then either (itemUpdatedAt localFood) (itemUpdatedAt remoteFood)
               else either (itemUpdatedAt remoteFood) (itemUpdatedAt localFood))\<rparr>)"

subsection \<open>Normalization and the merge of two snapshots\<close>

text \<open>The entry written by \<^verbatim>\<open>normalizeFoods\<close> for one item (lines 650 to 675).\<close>

definition normalizeFood :: "Item \<Rightarrow> Item" where
  "normalizeFood food =
     (let legacyDescription = (case itemAi food of None \<Rightarrow> None | Some a \<Rightarrow> aiDescription a);
          legacyReactions = (case itemAi food of None \<Rightarrow> None | Some a \<Rightarrow> aiReactions a);
          legacyGeneratedAt = (case itemAi food of None \<Rightarrow> None | Some a \<Rightarrow> aiGeneratedAt a);
          legacyModel = (case itemAi food of None \<Rightarrow> None | Some a \<Rightarrow> aiModel a)
      in food
           \<lparr>itemCustomImageUrl := Some (nullish (itemCustomImageUrl food) []),
            itemCustomImageAttribution := Some (nullish (itemCustomImageAttribution food) []),
            itemCustomImageAttributionUrl :=
              Some (nullish (itemCustomImageAttributionUrl food) []),
            itemImageGeneratedAt := Some (nullish (itemImageGeneratedAt food) []),
            itemImageSource := Some (nullish (itemImageSource food) []),
            itemDescription :=
              Some (nullish (itemDescription food) (nullish legacyDescription [])),
            itemReactions := Some (nullish (itemReactions food) (nullish legacyReactions [])),
            itemDescriptionGeneratedAt :=
              Some (nullish (itemDescriptionGeneratedAt food) (nullish legacyGeneratedAt [])),
            itemDescriptionModel :=
              Some (nullish (itemDescriptionModel food) (nullish legacyModel []))\<rparr>)"

text \<open>
  The three normalizations write their result key by key,
  \<^verbatim>\<open>Object.entries(...).forEach(([id, food]) => { normalized[id] = ... })\<close>.
\<close>

definition normalizeFoods :: "(string \<times> Item) list \<Rightarrow> (string \<times> Item) list" where
  "normalizeFoods fs = fold (\<lambda>(itemId, food). setProperty itemId (normalizeFood food)) fs []"

definition normalizeCustomFoods ::
  "(string \<times> FoodSeed) list option \<Rightarrow> (string \<times> FoodSeed) list" where
  "normalizeCustomFoods custom =
     (case custom of
        None \<Rightarrow> []
      | Some entries \<Rightarrow>
          fold (\<lambda>(itemId, food) normalized.
                  if seedName food = [] \<or> seedFamily food = [] then normalized
                  else setProperty itemId
                         \<lparr>seedId = itemId,
                          seedName = seedName food,
                          seedFamily = seedFamily food,
                          seedAllergens = seedAllergens food,
                          seedImageUrl = orElse (Some (seedImageUrl food)) [],
                          seedImageAttribution = Some (orElse (seedImageAttribution food) []),
                          seedImageAttributionUrl =
                            Some (orElse (seedImageAttributionUrl food) [])\<rparr>
                         normalized)
               entries [])"

definition normalizeFamilyList :: "runtime \<Rightarrow> string list option \<Rightarrow> string list" where
  "normalizeFamilyList rt families =
     (case families of
        None \<Rightarrow> []
      | Some fs \<Rightarrow>
          uniqueValues (filter (\<lambda>s. s \<noteq> []) (map (\<lambda>item. toLowerCase rt (trim rt item)) fs)))"

definition normalizeFamilyOverrides ::
  "runtime \<Rightarrow> (string \<times> FamilyOverride) list option \<Rightarrow> (string \<times> FamilyOverride) list" where
  "normalizeFamilyOverrides rt overrides =
     (case overrides of
        None \<Rightarrow> []
      | Some entries \<Rightarrow>
          fold (\<lambda>(family, data) normalized.
                  let key = toLowerCase rt (trim rt family)
                  in if key = [] \<or> overrideImageUrl data = [] then normalized
                     else setProperty key
                            \<lparr>overrideImageUrl = overrideImageUrl data,
                             overrideImageAttribution =
                               Some (orElse (overrideImageAttribution data) []),
                             overrideImageAttributionUrl =
                               Some (orElse (overrideImageAttributionUrl data) []),
                             overrideImageSource = Some (orElse (overrideImageSource data) [])\<rparr>
                            normalized)
               entries [])"

definition getOrderUpdatedAt :: "ProfileSnapshot \<Rightarrow> string" where
  "getOrderUpdatedAt snapshot =
     orElse (orderUpdatedAt (meta snapshot)) (orElse (Some (snapshotUpdatedAt snapshot)) [])"

text \<open>
  The body of the loop over \<^verbatim>\<open>allFoodIds\<close> (lines 796 to 808): what is assigned to
  \<^verbatim>\<open>mergedFoods[id]\<close>, if anything. An item, and an inherited property, are truthy.
\<close>

definition mergedFood ::
  "runtime \<Rightarrow> ProfileSnapshot \<Rightarrow> ProfileSnapshot \<Rightarrow> string \<Rightarrow> Item option" where
  "mergedFood rt local remote itemId =
     (case (lookupItem (foods local) itemId, lookupItem (foods remote) itemId) of
        (None, Some remoteFood) \<Rightarrow> Some remoteFood
      | (Some localFood, None) \<Rightarrow> Some localFood
      | (None, None) \<Rightarrow> None
      | (Some localFood, Some remoteFood) \<Rightarrow> Some (mergeItem rt localFood remoteFood))"

text \<open>
  The two \<^verbatim>\<open>Date.parse\<close> comparisons are on numbers that can be \<^verbatim>\<open>NaN\<close> (\<open>geq\<close>); the
  result is \<^verbatim>\<open>{ ...remote, ... }\<close>.
\<close>

definition mergeSnapshots :: "runtime \<Rightarrow> ProfileSnapshot \<Rightarrow> ProfileSnapshot \<Rightarrow> ProfileSnapshot" where
  "mergeSnapshots rt local remote =
     (let allFoodIds = uniqueValues (map fst (foods local) @ map fst (foods remote));
          mergedFoods =
            fold (\<lambda>itemId merged.
                    case mergedFood rt local remote itemId of
                      None \<Rightarrow> merged
                    | Some food \<Rightarrow> setProperty itemId food merged)
                 allFoodIds [];
          localOrderTime = dateParse rt (getOrderUpdatedAt local);
          remoteOrderTime = dateParse rt (getOrderUpdatedAt remote);
          mergedOrder = (if geq localOrderTime remoteOrderTime then order local else order remote);
          localUpdatedAt = dateParse rt (snapshotUpdatedAt local);
          remoteUpdatedAt = dateParse rt (snapshotUpdatedAt remote);
          mergedSettings =
            (if geq localUpdatedAt remoteUpdatedAt then settings local else settings remote);
          newestSnapshot = (if geq localUpdatedAt remoteUpdatedAt then local else remote);
          mergedCustomFoods =
            spread (normalizeCustomFoods (customFoods local))
              (normalizeCustomFoods (customFoods remote));
          mergedCustomFamilies =
            uniqueValues (normalizeFamilyList rt (customFamilies local)
                          @ normalizeFamilyList rt (customFamilies remote));
          mergedFamilyOverrides =
            spread (normalizeFamilyOverrides rt (familyOverrides local))
              (normalizeFamilyOverrides rt (familyOverrides remote));
          localFamilyOrder = normalizeFamilyList rt (familyOrder local);
          remoteFamilyOrder = normalizeFamilyList rt (familyOrder remote);
          mergedFamilyOrder =
            (if length localFamilyOrder = 0 \<and> length remoteFamilyOrder > 0 then remoteFamilyOrder
             else if length remoteFamilyOrder = 0 \<and> length localFamilyOrder > 0
                  then localFamilyOrder
                  else if geq localUpdatedAt remoteUpdatedAt then localFamilyOrder
                       else remoteFamilyOrder)
      in remote
           \<lparr>profileName := orElse (Some (profileName remote)) (profileName local),
            shareCode := orElse (Some (shareCode remote)) (shareCode local),
            babyName := Some (orElse (babyName newestSnapshot) []),
            babyBirthDate := Some (orElse (babyBirthDate newestSnapshot) []),
            correctedWeeks :=
              Some (case correctedWeeks newestSnapshot of None \<Rightarrow> 0 | Some weeks \<Rightarrow> weeks),
            foods := normalizeFoods mergedFoods,
            customFoods := Some mergedCustomFoods,
            customFamilies := Some mergedCustomFamilies,
            familyOrder := Some mergedFamilyOrder,
            familyOverrides := Some mergedFamilyOverrides,
            order := mergedOrder,
            settings := mergedSettings,
            snapshotUpdatedAt :=
              (if geq localUpdatedAt remoteUpdatedAt then snapshotUpdatedAt local
               else snapshotUpdatedAt remote),
            meta :=
              \<lparr>orderUpdatedAt =
                 Some (if geq localOrderTime remoteOrderTime then getOrderUpdatedAt local
                       else getOrderUpdatedAt remote)\<rparr>\<rparr>)"

subsection \<open>Notions used to state the properties of the merge\<close>

definition exposure :: "string \<Rightarrow> Exposure" where
  "exposure t = \<lparr>checkedAt = t\<rparr>"

definition itemIds :: "ProfileSnapshot \<Rightarrow> string set" where
  "itemIds s = fst ` set (foods s)"

text \<open>
  The snapshots that \<^verbatim>\<open>mergeSnapshots\<close> does not rewrite. An item is in normal form when
  its exposures are present, have a date, are distinct, in ascending order of time and at
  most three, and its nine optional image and description properties are present. A
  snapshot is in normal form when its dictionaries have no key twice and no key
  \<^verbatim>\<open>__proto__\<close>, its items are in normal form, its optional properties are present, the
  custom items carry their own id, a name and a family, the family names are trimmed,
  lower-case, not empty and listed once, the overrides have an image, and the order stamp
  is present.
\<close>

definition normalFamilyList :: "runtime \<Rightarrow> string list \<Rightarrow> bool" where
  "normalFamilyList rt fs =
     (distinct fs \<and> list_all (\<lambda>x. x \<noteq> [] \<and> toLowerCase rt (trim rt x) = x) fs)"

definition normalItem :: "runtime \<Rightarrow> Item \<Rightarrow> bool" where
  "normalItem rt f =
     (case itemExposures f of
        None \<Rightarrow> False
      | Some given \<Rightarrow>
          list_all (\<lambda>x. checkedAt x \<noteq> []) given
          \<and> distinct (map checkedAt given)
          \<and> sorted (map (\<lambda>x. toTimestamp rt (Some (checkedAt x))) given)
          \<and> length given \<le> 3
          \<and> itemCustomImageUrl f \<noteq> None \<and> itemCustomImageAttribution f \<noteq> None
          \<and> itemCustomImageAttributionUrl f \<noteq> None \<and> itemImageGeneratedAt f \<noteq> None
          \<and> itemImageSource f \<noteq> None \<and> itemDescription f \<noteq> None
          \<and> itemReactions f \<noteq> None \<and> itemDescriptionGeneratedAt f \<noteq> None
          \<and> itemDescriptionModel f \<noteq> None)"

definition normalCustomFood :: "string \<Rightarrow> FoodSeed \<Rightarrow> bool" where
  "normalCustomFood itemId food =
     (seedId food = itemId \<and> seedName food \<noteq> [] \<and> seedFamily food \<noteq> []
      \<and> seedImageAttribution food \<noteq> None \<and> seedImageAttributionUrl food \<noteq> None)"

definition normalOverride :: "runtime \<Rightarrow> string \<Rightarrow> FamilyOverride \<Rightarrow> bool" where
  "normalOverride rt family data =
     (family \<noteq> [] \<and> toLowerCase rt (trim rt family) = family \<and> overrideImageUrl data \<noteq> []
      \<and> overrideImageAttribution data \<noteq> None \<and> overrideImageAttributionUrl data \<noteq> None
      \<and> overrideImageSource data \<noteq> None)"

definition normalKeys :: "(string \<times> 'v) list \<Rightarrow> bool" where
  "normalKeys dict = (distinct (map fst dict) \<and> ''__proto__'' \<notin> set (map fst dict))"

definition normalSnapshot :: "runtime \<Rightarrow> ProfileSnapshot \<Rightarrow> bool" where
  "normalSnapshot rt s =
     (normalKeys (foods s)
      \<and> list_all (\<lambda>(itemId, f). normalItem rt f) (foods s)
      \<and> babyName s \<noteq> None \<and> babyBirthDate s \<noteq> None \<and> correctedWeeks s \<noteq> None
      \<and> (case customFoods s of
            None \<Rightarrow> False
          | Some entries \<Rightarrow>
              normalKeys entries
              \<and> list_all (\<lambda>(itemId, food). normalCustomFood itemId food) entries)
      \<and> (case customFamilies s of None \<Rightarrow> False | Some fs \<Rightarrow> normalFamilyList rt fs)
      \<and> (case familyOrder s of None \<Rightarrow> False | Some fs \<Rightarrow> normalFamilyList rt fs)
      \<and> (case familyOverrides s of
            None \<Rightarrow> False
          | Some entries \<Rightarrow>
              normalKeys entries
              \<and> list_all (\<lambda>(family, data). normalOverride rt family data) entries)
      \<and> (case orderUpdatedAt (meta s) of
            None \<Rightarrow> False
          | Some t \<Rightarrow> t \<noteq> [] \<or> snapshotUpdatedAt s = []))"

section \<open>A concrete runtime\<close>

text \<open>
  The theorems hold for every runtime; to evaluate the model on concrete requests and
  snapshots one runtime is fixed here. It agrees with JavaScript on ASCII text, on
  integers, on dates written as \<^verbatim>\<open>toISOString\<close> writes them
  (\<^verbatim>\<open>YYYY-MM-DDTHH:mm:ss.sssZ\<close>), on strings without percent escapes, and on the URLs
  listed in \<open>knownURLs\<close>; it is used on nothing else.
\<close>

definition isSpace :: "char \<Rightarrow> bool" where
  "isSpace c = (let n = (of_char c :: nat) in n = 32 \<or> (9 \<le> n \<and> n \<le> 13))"

definition asciiTrim :: "string \<Rightarrow> string" where
  "asciiTrim s = rev (dropWhile isSpace (rev (dropWhile isSpace s)))"

fun collapseSpaceRuns :: "bool \<Rightarrow> string \<Rightarrow> string" where
  "collapseSpaceRuns inRun [] = []"
| "collapseSpaceRuns inRun (c # cs) =
     (if isSpace c
      then (if inRun then collapseSpaceRuns True cs else CHR '' '' # collapseSpaceRuns True cs)
      else c # collapseSpaceRuns False cs)"

function showNat :: "nat \<Rightarrow> string" where
  "showNat n =
     (if n < 10 then [''0123456789'' ! n] else showNat (n div 10) @ [''0123456789'' ! (n mod 10)])"
  by pat_completeness auto
termination
  by (relation "measure id") auto

declare showNat.simps [simp del]

definition showInteger :: "int \<Rightarrow> string" where
  "showInteger i = (if i < 0 then CHR 0x2D # showNat (nat (- i)) else showNat (nat i))"

definition isDigit :: "char \<Rightarrow> bool" where
  "isDigit c = (let n = (of_char c :: nat) in 48 \<le> n \<and> n \<le> 57)"

definition readDigits :: "string \<Rightarrow> int" where
  "readDigits s = foldl (\<lambda>acc c. 10 * acc + (int (of_char c) - 48)) 0 s"

text \<open>Days between 1970-01-01 and a date of the proleptic Gregorian calendar.\<close>

definition daysFromCivil :: "int \<Rightarrow> int \<Rightarrow> int \<Rightarrow> int" where
  "daysFromCivil y m d =
     (let y' = (if m \<le> 2 then y - 1 else y);
          era = y' div 400;
          yoe = y' - era * 400;
          doy = (153 * (if m > 2 then m - 3 else m + 9) + 2) div 5 + d - 1;
          doe = yoe * 365 + yoe div 4 - yoe div 100 + doy
      in era * 146097 + doe - 719468)"

definition daysInMonth :: "int \<Rightarrow> int \<Rightarrow> int" where
  "daysInMonth y m =
     (if m = 2 then (if y mod 4 = 0 \<and> (y mod 100 \<noteq> 0 \<or> y mod 400 = 0) then 29 else 28)
      else if m = 4 \<or> m = 6 \<or> m = 9 \<or> m = 11 then 30 else 31)"

text \<open>\<^verbatim>\<open>Date.parse\<close> on the 24 characters of \<^verbatim>\<open>toISOString\<close>, in milliseconds.\<close>

definition isoDateParse :: "string \<Rightarrow> int option" where
  "isoDateParse s =
     (if length s = 24
         \<and> list_all (\<lambda>i. isDigit (s ! i))
              [0, 1, 2, 3, 5, 6, 8, 9, 11, 12, 14, 15, 17, 18, 20, 21, 22]
         \<and> s ! 4 = CHR 0x2D \<and> s ! 7 = CHR 0x2D \<and> s ! 10 = CHR ''T'' \<and> s ! 13 = CHR '':''
         \<and> s ! 16 = CHR '':'' \<and> s ! 19 = CHR ''.'' \<and> s ! 23 = CHR ''Z''
      then
        (let y = readDigits (take 4 s);
             m = readDigits (take 2 (drop 5 s));
             d = readDigits (take 2 (drop 8 s));
             hh = readDigits (take 2 (drop 11 s));
             mm = readDigits (take 2 (drop 14 s));
             ss = readDigits (take 2 (drop 17 s));
             ms = readDigits (take 3 (drop 20 s))
         in if 1 \<le> m \<and> m \<le> 12 \<and> 1 \<le> d \<and> d \<le> daysInMonth y m
               \<and> hh \<le> 23 \<and> mm \<le> 59 \<and> ss \<le> 59
            then Some ((((daysFromCivil y m d * 24 + hh) * 60 + mm) * 60 + ss) * 1000 + ms)
            else None)
      else None)"

definition knownURLs :: "(string \<times> URL) list" where
  "knownURLs =
     [(''https://upload.wikimedia.org/wikipedia/commons/1/15/Red_Apple.jpg'',
       \<lparr>protocol = ''https:'', hostname = ''upload.wikimedia.org'',
        host = ''upload.wikimedia.org'',
        pathname = ''/wikipedia/commons/1/15/Red_Apple.jpg''\<rparr>)]"

definition exampleRuntime :: runtime where
  "exampleRuntime =
     \<lparr>trim = asciiTrim,
      toLowerCase = map asciiLower,
      replaceWhiteSpace = collapseSpaceRuns False,
      numberToString = (\<lambda>r. showInteger \<lfloor>r\<rfloor>),
      newURL = map_of knownURLs,
      decodeURIComponent = (\<lambda>s. if CHR ''%'' \<in> set s then None else Some s),
      dateParse = isoDateParse\<rparr>"

subsection \<open>Example requests\<close>

text \<open>
  One row, and four pushes against it from an empty table: a creation, an update on
  revision 1, a stale push on revision 1 and its retry on revision 2.
\<close>

definition exampleKey :: "string \<times> string" where
  "exampleKey = (''profile-0001'', ''sharecode-0001'')"

definition examplePush :: "rat \<Rightarrow> json \<Rightarrow> PushBody" where
  "examplePush base snapshot =
     \<lparr>reqShareCode = Some ''sharecode-0001'', reqProfileId = Some ''profile-0001'',
      reqBaseRevision = Some (JNum (Fin base)), reqSnapshot = Some snapshot\<rparr>"

definition exampleSnapshot :: "string \<Rightarrow> json" where
  "exampleSnapshot note =
     JObj [(''profileId'', JStr ''profile-0001''),
           (''foods'', JObj [(''apple'', JObj [(''foodId'', JStr ''apple''), (''notes'', JStr note)])])]"

definition examplePushes :: "(string \<times> PushBody) list" where
  "examplePushes =
     [(''2024-01-01T00:00:00.000Z'', examplePush 0 (exampleSnapshot [])),
      (''2024-01-02T00:00:00.000Z'', examplePush 1 (exampleSnapshot ''likes it'')),
      (''2024-01-03T00:00:00.000Z'', examplePush 1 (exampleSnapshot ''rash'')),
      (''2024-01-04T00:00:00.000Z'', examplePush 2 (exampleSnapshot ''likes it, rash''))]"

text \<open>A row at revision 2, as the second push of \<open>examplePushes\<close> leaves it.\<close>

definition exampleRow :: Row where
  "exampleRow =
     \<lparr>rowSnapshot = JObj [(''profileId'', JStr ''profile-0001''), (''foods'', JObj []),
                          (''familyOverrides'', JObj []), (''revision'', JNum (Fin 2)),
                          (''updatedAt'', JStr ''2024-01-02T00:00:00.000Z'')],
      rowRevision = 2,
      rowUpdatedAt = ''2024-01-02T00:00:00.000Z''\<rparr>"

text \<open>A snapshot that passes validation and has \<^verbatim>\<open>null\<close> where an item should be.\<close>

definition nullItemSnapshot :: json where
  "nullItemSnapshot = JObj [(''foods'', JObj [(''apple'', JNull)])]"

text \<open>
  Snapshots of a chosen size: \<open>letters n\<close> is the letter a, \<open>n\<close> times, and
  \<open>accents n\<close> is the letter e with an acute accent (U+00E9, two bytes in UTF-8, one
  UTF-16 code unit), \<open>n\<close> times.
\<close>

definition letters :: "nat \<Rightarrow> string" where
  "letters n = replicate n CHR ''a''"

definition accents :: "nat \<Rightarrow> string" where
  "accents n = concat (replicate n [CHR 0xC3, CHR 0xA9])"

definition namedSnapshot :: "string \<Rightarrow> json" where
  "namedSnapshot name = JObj [(''profileName'', JStr name)]"

text \<open>
  Two items with an empty attribution: \<open>pearItem\<close> has a custom image (an uploaded file,
  held as a \<^verbatim>\<open>data:\<close> URL), \<open>figItem\<close> has no custom image URL but still carries a source
  and a generation time.
\<close>

definition pearItem :: json where
  "pearItem =
     JObj [(''foodId'', JStr ''pear''),
           (''customImageUrl'', JStr ''data:image/png;base64,AAAA''),
           (''customImageAttribution'', JStr []),
           (''customImageAttributionUrl'', JStr []),
           (''imageGeneratedAt'', JStr ''2024-01-01T00:00:00.000Z''),
           (''imageSource'', JStr ''manual-file'')]"

definition figItem :: json where
  "figItem =
     JObj [(''foodId'', JStr ''fig''),
           (''customImageUrl'', JStr []),
           (''customImageAttribution'', JStr []),
           (''customImageAttributionUrl'', JStr []),
           (''imageGeneratedAt'', JStr ''2024-01-01T00:00:00.000Z''),
           (''imageSource'', JStr ''manual-file'')]"

definition clearedPearItem :: "string \<Rightarrow> json" where
  "clearedPearItem now =
     JObj [(''foodId'', JStr ''pear''),
           (''customImageUrl'', JStr []),
           (''customImageAttribution'', JStr []),
           (''customImageAttributionUrl'', JStr []),
           (''imageGeneratedAt'', JStr []),
           (''imageSource'', JStr []),
           (''updatedAt'', JStr now)]"

definition imageSnapshot :: json where
  "imageSnapshot = JObj [(''foods'', JObj [(''pear'', pearItem), (''fig'', figItem)])]"

definition savedImageSnapshot :: "string \<Rightarrow> json" where
  "savedImageSnapshot now =
     JObj [(''foods'', JObj [(''pear'', clearedPearItem now), (''fig'', figItem)]),
           (''familyOverrides'', JObj []),
           (''revision'', JNum (Fin 1)),
           (''updatedAt'', JStr now)]"

subsection \<open>Example snapshots\<close>

text \<open>Four dates a week apart, as \<^verbatim>\<open>toISOString\<close> writes them.\<close>

definition day0 :: string where "day0 = ''2023-12-25T00:00:00.000Z''"
definition day1 :: string where "day1 = ''2024-01-01T00:00:00.000Z''"
definition day2 :: string where "day2 = ''2024-01-08T00:00:00.000Z''"
definition day3 :: string where "day3 = ''2024-01-15T00:00:00.000Z''"

text \<open>An item and a snapshot as \<^verbatim>\<open>buildInitialState\<close> and \<^verbatim>\<open>createSnapshot\<close> make them.\<close>

definition initialFood :: "string \<Rightarrow> string \<Rightarrow> FoodState" where
  "initialFood itemId now =
     \<lparr>foodId = itemId, isHidden = False, notes = [], exposures = [],
      customImageUrl = Some [], customImageAttribution = Some [],
      customImageAttributionUrl = Some [], imageGeneratedAt = Some [], imageSource = Some [],
      description = Some [], reactions = Some [], descriptionGeneratedAt = Some [],
      descriptionModel = Some [], updatedAt = now, ai = None\<rparr>"

definition initialSnapshot :: "(string \<times> FoodState) list \<Rightarrow> ProfileSnapshot" where
  "initialSnapshot items =
     \<lparr>schemaVersion = 1, profileId = ''profile-0001'', profileName = ''Bebe'',
      shareCode = ''sharecode-0001'', babyName = Some [], babyBirthDate = Some [],
      correctedWeeks = Some 0, revision = 1, snapshotUpdatedAt = day1,
      settings = \<lparr>theme = System, language = Es, hideIntroduced = False, showHidden = False,
                  showNotSuitableFoods = Some False\<rparr>,
      foods = map (\<lambda>(itemId, food). (itemId, whole food)) items,
      customFoods = Some [], customFamilies = Some [], familyOrder = Some [],
      familyOverrides = Some [], order = map fst items, meta = \<lparr>orderUpdatedAt = Some day1\<rparr>\<rparr>"

text \<open>
  Two copies of one item: \<open>foodA\<close> was edited last (its notes, on \<open>day3\<close>) and has the
  older generated description (\<open>day0\<close>); \<open>foodB\<close> was edited on \<open>day2\<close> and has the
  description generated last (\<open>day1\<close>), one exposure and a custom image.
\<close>

definition foodA :: FoodState where
  "foodA = (initialFood ''apple'' day3)
     \<lparr>notes := ''likes it'', description := Some ''old text'',
      descriptionGeneratedAt := Some day0\<rparr>"

definition foodB :: FoodState where
  "foodB = (initialFood ''apple'' day2)
     \<lparr>notes := ''rash'', exposures := [exposure day1],
      customImageUrl := Some ''https://upload.wikimedia.org/wikipedia/commons/1/15/Red_Apple.jpg'',
      description := Some ''new text'', descriptionGeneratedAt := Some day1\<rparr>"





definition familySnapshot :: ProfileSnapshot where
  "familySnapshot =
     (initialSnapshot [(''apple'', foodB), (''pear'', initialFood ''pear'' day1)])
       \<lparr>customFamilies := Some [''frutas''], familyOrder := Some [''frutas'']\<rparr>"

text \<open>
  A snapshot with the exposures of an item in the order they were received and a family
  name written with a capital.
\<close>

definition unsortedSnapshot :: ProfileSnapshot where
  "unsortedSnapshot =
     (initialSnapshot
        [(''apple'', (initialFood ''apple'' day3)\<lparr>exposures := [exposure day2, exposure day1]\<rparr>)])
       \<lparr>customFamilies := Some [''Frutas'']\<rparr>"




section \<open>Properties of the push route\<close>

subsection \<open>The outcomes of the handler\<close>

text \<open>
  Every run of the handler ends in one of four ways: a 400 response, an uncaught
  \<^verbatim>\<open>TypeError\<close>, a 409 response with the stored row, all three with the table as it was,
  or a 200 response together with the row written.
\<close>

lemma push_cases:
  "(\<exists>msg. push rt now body db = (Inr (Response 400 (errorBody msg)), db))
   \<or> push rt now body db = (Inl TypeError, db)
   \<or> (\<exists>pid sc row.
         reqProfileId body = Some pid \<and> reqShareCode body = Some sc \<and> db (pid, sc) = Some row
         \<and> push rt now body db = (Inr (Response 409 (conflictBody row)), db))
   \<or> (\<exists>pid sc saved.
         reqProfileId body = Some pid \<and> reqShareCode body = Some sc
         \<and> push rt now body db =
             (Inr (Response 200
                     (JObj [(''snapshot'', saved),
                            (''revision'', JNum (Fin (of_int (revisionBefore db (pid, sc) + 1))))])),
              db((pid, sc) \<mapsto>
                 \<lparr>rowSnapshot = saved, rowRevision = revisionBefore db (pid, sc) + 1,
                  rowUpdatedAt = now\<rparr>)))"
  by (auto simp: push_def revisionBefore_def conflictBody_def Let_def
           split: option.splits prod.splits)

lemma push_step:
  assumes "push rt now body db = (out, db')"
  shows "if isFor key body \<and> acceptedRevision out \<noteq> None
         then storedRevision db' key = Some (revisionBefore db key + 1)
              \<and> acceptedRevision out = Some (JNum (Fin (of_int (revisionBefore db key + 1))))
              \<and> revisionBefore db' key = revisionBefore db key + 1
         else revisionBefore db' key = revisionBefore db key"
  using push_cases [of rt now body db] assms
  by (cases key)
     (auto simp: isFor_def storedRevision_def revisionBefore_def errorBody_def conflictBody_def)

lemma isValidToken_Some: "isValidToken v \<Longrightarrow> \<exists>s. v = Some s"
  by (cases v) (simp_all add: isValidToken_def)

lemma checkBaseRevision_Some:
  "checkBaseRevision v = Some r \<Longrightarrow> v = Some (JNum (Fin r))"
  by (auto simp: checkBaseRevision_def split: option.splits json.splits number.splits if_splits)

text \<open>What an accepted push has written.\<close>

lemma push_accepted:
  assumes "push rt now body db = (Inr (Response 200 b), db')"
  shows "\<exists>pid sc kvs sanitized.
           reqProfileId body = Some pid \<and> reqShareCode body = Some sc
           \<and> reqSnapshot body = Some (JObj kvs)
           \<and> sanitizeSnapshotImages rt now (JObj kvs) = Some sanitized
           \<and> db' = db((pid, sc) \<mapsto>
                      \<lparr>rowSnapshot =
                         written (snapshotToSave sanitized (revisionBefore db (pid, sc) + 1) now),
                       rowRevision = revisionBefore db (pid, sc) + 1, rowUpdatedAt = now\<rparr>)"
proof -
  from assms have v: "isValidSnapshot rt (reqSnapshot body)"
    by (auto simp: push_def errorBody_def split: if_splits)
  then obtain kvs where s: "reqSnapshot body = Some (JObj kvs)"
    by (cases "reqSnapshot body"; simp add: isValidSnapshot_def)
       (rename_tac v, case_tac v; simp)
  with assms show ?thesis
    by (auto simp: push_def errorBody_def revisionBefore_def Let_def
             split: if_splits option.splits)
qed

text \<open>
  A push to a row that does not exist creates it at revision 1, whatever the base
  revision, provided the sanitization pass returns.
\<close>

lemma push_creates:
  assumes "validPush rt body"
    and "reqProfileId body = Some pid" and "reqShareCode body = Some sc"
    and "reqSnapshot body = Some snapshot"
    and "sanitizeSnapshotImages rt now snapshot = Some sanitized"
    and "db (pid, sc) = None"
  shows "push rt now body db =
           (Inr (Response 200 (JObj [(''snapshot'', written (snapshotToSave sanitized 1 now)),
                                     (''revision'', JNum (Fin 1))])),
            db((pid, sc) \<mapsto>
               \<lparr>rowSnapshot = written (snapshotToSave sanitized 1 now), rowRevision = 1,
                rowUpdatedAt = now\<rparr>))"
  using assms by (auto simp: push_def validPush_def Let_def)

subsection \<open>When the sanitization pass returns, and when it throws\<close>

text \<open>
  The pass throws in two ways only: on an item that is \<^verbatim>\<open>null\<close>, and in a conversion
  \<^verbatim>\<open>String(...)\<close> of an object that has an own property \<^verbatim>\<open>toString\<close>. The lemmas of this
  subsection follow the pass through a snapshot that has neither.
\<close>

lemma map_of_cloned:
  "map_of (map (\<lambda>(k, v). (k, jsonClone v)) (filter (\<lambda>(k, v). \<not> isFunction v) kvs)) k
   = (case map_of (filter (\<lambda>(k, v). \<not> isFunction v) kvs) k of
        None \<Rightarrow> None
      | Some v \<Rightarrow> Some (jsonClone v))"
  by (induction kvs) auto

lemma map_of_kept:
  "map_of kvs k = Some v \<Longrightarrow> \<not> isFunction v \<Longrightarrow>
   map_of (filter (\<lambda>(k, v). \<not> isFunction v) kvs) k = Some v"
  by (induction kvs) (auto split: if_splits)

lemma map_of_kept_None:
  "map_of kvs k = None \<Longrightarrow> map_of (filter (\<lambda>(k, v). \<not> isFunction v) kvs) k = None"
  by (induction kvs) (auto split: if_splits)

lemma getProp_jsonClone:
  "getProp v k = Some w \<Longrightarrow> \<not> isFunction w \<Longrightarrow> getProp (jsonClone v) k = Some (jsonClone w)"
  by (cases v rule: jsonClone.cases) (simp_all add: map_of_cloned map_of_kept)

lemma getProp_jsonClone_None: "getProp v k = None \<Longrightarrow> getProp (jsonClone v) k = None"
  by (cases v rule: jsonClone.cases) (simp_all add: map_of_cloned map_of_kept_None)

lemma those_Some: "(\<forall>x \<in> set xs. x \<noteq> None) \<Longrightarrow> those xs \<noteq> None"
  by (induction xs) (auto split: option.splits)

lemma toString_returns: "noOwnToString v \<Longrightarrow> toString rt v \<noteq> None"
proof (induction v rule: toString.induct)
  case (7 rt xs)
  then have "\<forall>y \<in> set (map (\<lambda>x. if x = JNull then Some [] else toString rt x) xs). y \<noteq> None"
    by auto
  from those_Some [OF this] show ?case by simp
qed auto

lemma noOwnToString_clone: "noOwnToString v \<Longrightarrow> noOwnToString (jsonClone v)"
  by (induction v rule: jsonClone.induct) (auto simp: image_iff)

lemma noOwnToString_getProp: "noOwnToString v \<Longrightarrow> getProp v k = Some w \<Longrightarrow> noOwnToString w"
  by (cases v) (auto dest!: map_of_SomeD simp: image_iff)

lemma noOwnToString_orEmpty:
  "(\<And>w. x = Some w \<Longrightarrow> noOwnToString w) \<Longrightarrow> noOwnToString (orEmpty x)"
  by (cases x) auto

lemma toString_prop: "noOwnToString v \<Longrightarrow> toString rt (orEmpty (getProp v k)) \<noteq> None"
  by (rule toString_returns, rule noOwnToString_orEmpty) (auto dest: noOwnToString_getProp)

lemma noOwnToString_legacy:
  "lookup (map (\<lambda>(k, v). (k, JStr v)) legacyMap) k = Some v \<Longrightarrow> noOwnToString v"
  by (auto simp: lookup_def inherited_def split: option.splits if_splits dest!: map_of_SomeD)

lemma normalizeSource_returns:
  assumes "\<And>w. src = Some w \<Longrightarrow> noOwnToString w"
  shows "\<exists>v. normalizeSourceFromUrl rt url src = Some v \<and> noOwnToString v"
proof -
  from assms have "toString rt (orEmpty src) \<noteq> None"
    by (intro toString_returns noOwnToString_orEmpty)
  then obtain s where s: "toString rt (orEmpty src) = Some s" by auto
  have "\<exists>t. (case src of
               None \<Rightarrow> Some (JStr [])
             | Some v \<Rightarrow> if truthy v then map_option JStr (toString rt v) else Some (JStr []))
            = Some (JStr t)"
    using assms by (auto split: option.splits dest: toString_returns)
  then obtain t where t: "(case src of
               None \<Rightarrow> Some (JStr [])
             | Some v \<Rightarrow> if truthy v then map_option JStr (toString rt v) else Some (JStr []))
            = Some (JStr t)" by auto
  show ?thesis
    unfolding normalizeSourceFromUrl_def s t
    by (auto simp: Let_def split: option.splits dest: noOwnToString_legacy)
qed

lemma update_entries:
  "(a, b) \<in> set (AList.update k v al) \<Longrightarrow> (a, b) = (k, v) \<or> (a, b) \<in> set al"
  by (induction al) (auto split: if_splits)

lemma noOwnToString_assign:
  "noOwnToString obj \<Longrightarrow> noOwnToString v \<Longrightarrow> k \<noteq> ''toString'' \<Longrightarrow>
   noOwnToString (assign k v obj)"
  by (cases obj) (auto dest!: update_entries simp: image_iff)

lemma backfillFood_returns:
  assumes "noOwnToString food"
  shows "\<exists>food'. backfillFood rt url food = Some food' \<and> noOwnToString food'"
proof (cases "isHttpUrl url")
  case False
  with assms show ?thesis by (simp add: backfillFood_def)
next
  case True
  from assms obtain src where
    src: "normalizeSourceFromUrl rt url (getProp food ''imageSource'') = Some src"
    and ps: "noOwnToString src"
    using normalizeSource_returns [of "getProp food ''imageSource''" rt url]
    by (auto dest: noOwnToString_getProp)
  let ?food1 = "assign ''imageSource'' src food"
  from assms ps have p1: "noOwnToString ?food1" by (simp add: noOwnToString_assign)
  then obtain needs where
    needs: "needsAttributionBackfill rt (getProp ?food1 ''customImageAttribution'') = Some needs"
    using toString_prop [OF p1, of rt "''customImageAttribution''"]
    by (auto simp: needsAttributionBackfill_def Let_def)
  from p1 show ?thesis
    by (auto simp: backfillFood_def True src needs noOwnToString_assign Let_def
             split: option.splits)
qed

lemma sanitizeFood_returns:
  assumes "noOwnToString food" and "food \<noteq> JNull"
  shows "sanitizeFood rt now food \<noteq> None"
proof -
  from assms(1) obtain url where
    url: "toString rt (orEmpty (getProp food ''customImageUrl'')) = Some url"
    using toString_prop [OF assms(1), of rt "''customImageUrl''"] by auto
  from backfillFood_returns [OF assms(1), of rt "trim rt url"] obtain food' where
    b: "backfillFood rt (trim rt url) food = Some food'" and p: "noOwnToString food'" by auto
  from toString_prop [OF p, of rt "''customImageAttribution''"]
  obtain clear where
    "shouldClearManualImage rt (getProp food' ''customImageAttribution'') = Some clear"
    by (auto simp: shouldClearManualImage_def Let_def)
  with assms(2) url b show ?thesis
    by (cases food) (simp_all add: sanitizeFood_def Let_def)
qed

lemma sanitizeOverride_returns:
  assumes "noOwnToString item"
  shows "sanitizeOverride rt item \<noteq> None"
proof -
  from assms obtain url where url: "toString rt (orEmpty (getProp item ''imageUrl'')) = Some url"
    using toString_prop [OF assms, of rt "''imageUrl''"] by auto
  from assms obtain src where
    src: "normalizeSourceFromUrl rt (trim rt url) (getProp item ''imageSource'') = Some src"
    and ps: "noOwnToString src"
    using normalizeSource_returns [of "getProp item ''imageSource''" rt "trim rt url"]
    by (auto dest: noOwnToString_getProp)
  let ?item1 = "assign ''imageSource'' src item"
  from assms ps have p1: "noOwnToString ?item1" by (simp add: noOwnToString_assign)
  then obtain needs where
    needs: "needsAttributionBackfill rt (getProp ?item1 ''imageAttribution'') = Some needs"
    using toString_prop [OF p1, of rt "''imageAttribution''"]
    by (auto simp: needsAttributionBackfill_def Let_def)
  have clear: "shouldClearManualImage rt (getProp x ''imageAttribution'') \<noteq> None"
    if "noOwnToString x" for x
    using toString_prop [OF that, of rt "''imageAttribution''"]
    by (auto simp: shouldClearManualImage_def Let_def)
  show ?thesis
  proof (cases "inferAttributionFromUrl rt (trim rt url)")
    case None
    with clear [OF assms] clear [OF p1] show ?thesis
      by (auto simp: sanitizeOverride_def url src needs Let_def)
  next
    case (Some inferred)
    let ?item2 = "assign ''imageSource'' (JStr (source inferred))
                    (assign ''imageAttributionUrl'' (JStr (imageAttributionUrl inferred))
                       (assign ''imageAttribution'' (JStr (imageAttribution inferred)) ?item1))"
    from p1 have "noOwnToString ?item2" by (simp add: noOwnToString_assign)
    from clear [OF assms] clear [OF p1] clear [OF this] Some show ?thesis
      by (auto simp: sanitizeOverride_def url src needs Let_def)
  qed
qed

lemma sanitizeFoods_returns:
  assumes "noOwnToString items" and "\<forall>item \<in> set (objectValues items). item \<noteq> JNull"
  shows "sanitizeFoods rt now items \<noteq> None"
proof (cases items)
  case (JObj kvs)
  have "\<forall>y \<in> set (map (\<lambda>(k, food). map_option (Pair k) (sanitizeFood rt now food)) kvs).
          y \<noteq> None"
  proof
    fix y assume "y \<in> set (map (\<lambda>(k, food). map_option (Pair k) (sanitizeFood rt now food)) kvs)"
    then obtain k food where kf: "(k, food) \<in> set kvs"
      and y: "y = map_option (Pair k) (sanitizeFood rt now food)" by auto
    from kf assms JObj have "noOwnToString food" "food \<noteq> JNull" by force+
    from sanitizeFood_returns [OF this, of rt now] y show "y \<noteq> None" by simp
  qed
  from those_Some [OF this] show ?thesis by (auto simp: sanitizeFoods_def JObj)
next
  case (JArr xs)
  have "\<forall>y \<in> set (map (sanitizeFood rt now) xs). y \<noteq> None"
  proof
    fix y assume "y \<in> set (map (sanitizeFood rt now) xs)"
    then obtain food where f: "food \<in> set xs" and y: "y = sanitizeFood rt now food" by auto
    from f assms JArr have "noOwnToString food" "food \<noteq> JNull" by auto
    from sanitizeFood_returns [OF this, of rt now] y show "y \<noteq> None" by simp
  qed
  from those_Some [OF this] show ?thesis by (auto simp: sanitizeFoods_def JArr)
qed (simp_all add: sanitizeFoods_def)

lemma sanitizeFamilyOverrides_returns:
  assumes "noOwnToString overrides"
  shows "sanitizeFamilyOverrides rt overrides \<noteq> None"
proof (cases overrides)
  case (JObj kvs)
  have "\<forall>y \<in> set (map (\<lambda>(k, item). map_option (Pair k) (sanitizeOverride rt item)) kvs).
          y \<noteq> None"
  proof
    fix y assume "y \<in> set (map (\<lambda>(k, item). map_option (Pair k) (sanitizeOverride rt item)) kvs)"
    then obtain k item where ki: "(k, item) \<in> set kvs"
      and y: "y = map_option (Pair k) (sanitizeOverride rt item)" by auto
    from ki assms JObj have "noOwnToString item" by force
    from sanitizeOverride_returns [OF this, of rt] y show "y \<noteq> None" by simp
  qed
  from those_Some [OF this] show ?thesis by (auto simp: sanitizeFamilyOverrides_def JObj)
next
  case (JArr xs)
  with assms have "\<forall>y \<in> set (map (sanitizeOverride rt) xs). y \<noteq> None"
    by (auto simp del: not_None_eq intro!: sanitizeOverride_returns)
  from those_Some [OF this] show ?thesis by (auto simp: sanitizeFamilyOverrides_def JArr)
qed (simp_all add: sanitizeFamilyOverrides_def)

lemma noOwnToString_orEmptyObject:
  "(\<And>w. x = Some w \<Longrightarrow> noOwnToString w) \<Longrightarrow> noOwnToString (orEmptyObject x)"
  by (cases x) auto

lemma isParsed_value: "isParsed v \<Longrightarrow> \<not> isFunction v"
  by (cases v) simp_all

lemma isParsed_kept: "isParsed (JObj kvs) \<Longrightarrow> filter (\<lambda>(k, v). \<not> isFunction v) kvs = kvs"
  by (rule filter_True) (force dest: isParsed_value)

lemma isParsed_kept_snd:
  "isParsed (JObj kvs) \<Longrightarrow> filter (\<lambda>p. \<not> isFunction (snd p)) kvs = kvs"
  using isParsed_kept [of kvs] by (simp add: split_def)

lemma getProp_isParsed:
  "isParsed v \<Longrightarrow> getProp (jsonClone v) k = map_option jsonClone (getProp v k)"
  by (cases v rule: jsonClone.cases) (simp_all add: isParsed_kept map_of_map del: isParsed.simps)

lemma objectValues_jsonClone:
  assumes "isParsed v"
  shows "objectValues (orEmptyObject (getProp (jsonClone v) k))
         = map jsonClone (objectValues (orEmptyObject (getProp v k)))"
proof (cases "getProp v k")
  case None
  with assms show ?thesis by (simp add: getProp_isParsed)
next
  case (Some w)
  with assms have "isParsed w"
    by (cases v) (auto dest!: map_of_SomeD simp: image_iff)
  with Some assms show ?thesis
    by (cases w rule: jsonClone.cases)
       (simp_all add: getProp_isParsed isParsed_kept_snd o_def split_def del: isParsed.simps)
qed

lemma getProp_assign_other: "k' \<noteq> k \<Longrightarrow> getProp (assign k v obj) k' = getProp obj k'"
  by (cases obj) (simp_all add: update_conv')

text \<open>
  The pass returns on every parsed snapshot in which no object has a property named
  \<^verbatim>\<open>toString\<close> and no item is \<^verbatim>\<open>null\<close> (or an infinite number, which the copy turns into
  \<^verbatim>\<open>null\<close>).
\<close>

lemma sanitize_returns:
  assumes "noOwnToString snapshot"
    and "\<forall>item \<in> set (objectValues (orEmptyObject (getProp snapshot ''foods''))).
           jsonClone item \<noteq> JNull"
    and "isParsed snapshot"
  shows "sanitizeSnapshotImages rt now snapshot \<noteq> None"
proof -
  let ?next = "jsonClone snapshot"
  let ?foods = "orEmptyObject (getProp ?next ''foods'')"
  from assms(1) have p: "noOwnToString ?next" by (rule noOwnToString_clone)
  then have pf: "noOwnToString ?foods"
    by (intro noOwnToString_orEmptyObject) (auto dest: noOwnToString_getProp)
  from assms(2,3) have "\<forall>item \<in> set (objectValues ?foods). item \<noteq> JNull"
    by (simp add: objectValues_jsonClone)
  from sanitizeFoods_returns [OF pf this] obtain foods' where
    f: "sanitizeFoods rt now ?foods = Some foods'" by auto
  let ?overrides = "orEmptyObject (getProp (assign ''foods'' foods' ?next) ''familyOverrides'')"
  from p have "noOwnToString ?overrides"
    by (intro noOwnToString_orEmptyObject)
       (auto simp: getProp_assign_other dest: noOwnToString_getProp)
  from sanitizeFamilyOverrides_returns [OF this, of rt] f show ?thesis
    by (auto simp: sanitizeSnapshotImages_def Let_def)
qed

text \<open>On such a snapshot a push that passes validation is answered, with 200 or with 409.\<close>

lemma valid_push_answered:
  assumes "validPush rt body" and "reqSnapshot body = Some snapshot" and "noOwnToString snapshot"
    and "\<forall>item \<in> set (objectValues (orEmptyObject (getProp snapshot ''foods''))).
           jsonClone item \<noteq> JNull"
    and "isParsed snapshot"
  shows "\<exists>status b. fst (push rt now body db) = Inr (Response status b) \<and> status \<in> {200, 409}"
  using assms(1,2) sanitize_returns [OF assms(3,4,5), of rt now]
  by (auto simp: push_def validPush_def Let_def dest!: isValidToken_Some split: option.splits)

lemma those_None: "None \<in> set xs \<Longrightarrow> those xs = None"
  by (induction xs) (auto split: option.splits)

lemma sanitizeFoods_null:
  assumes "(k, JNull) \<in> set fs"
  shows "sanitizeFoods rt now (JObj fs) = None"
proof -
  from assms
  have "None \<in> set (map (\<lambda>(k, food). map_option (Pair k) (sanitizeFood rt now food)) fs)"
    by (force simp: sanitizeFood_def)
  then show ?thesis by (simp add: sanitizeFoods_def those_None)
qed

lemma jsonClone_entry:
  "(k, v) \<in> set kvs \<Longrightarrow> \<not> isFunction v \<Longrightarrow>
   (k, jsonClone v)
     \<in> set (map (\<lambda>(k, v). (k, jsonClone v)) (filter (\<lambda>(k, v). \<not> isFunction v) kvs))"
  by force

text \<open>The pass throws on a snapshot whose item map has \<^verbatim>\<open>null\<close> for an item.\<close>

lemma null_item_throws:
  assumes "map_of kvs ''foods'' = Some (JObj fs)" and "(k, JNull) \<in> set fs"
  shows "sanitizeSnapshotImages rt now (JObj kvs) = None"
proof -
  have "getProp (jsonClone (JObj kvs)) ''foods'' = Some (jsonClone (JObj fs))"
    using assms(1) by (intro getProp_jsonClone) simp_all
  moreover have "(k, JNull)
                   \<in> set (map (\<lambda>(k, v). (k, jsonClone v)) (filter (\<lambda>(k, v). \<not> isFunction v) fs))"
    using jsonClone_entry [OF assms(2)] by simp
  ultimately show ?thesis
    by (simp add: sanitizeSnapshotImages_def sanitizeFoods_null)
qed

subsection \<open>Evaluation of the examples\<close>

text \<open>
  An image source that is the name of a property of \<^verbatim>\<open>Object.prototype\<close> is replaced by the
  inherited property, which is truthy; a function is left out of what is stored.
\<close>

lemma inherited_source_example:
  "normalizeSourceFromUrl exampleRuntime
     ''https://upload.wikimedia.org/wikipedia/commons/1/15/Red_Apple.jpg''
     (Some (JStr ''constructor''))
   = Some (JFunction ''Object'')"
  "normalizeSourceFromUrl exampleRuntime
     ''https://upload.wikimedia.org/wikipedia/commons/1/15/Red_Apple.jpg''
     (Some (JStr ''__proto__''))
   = Some (JObj [])"
  "written (JObj [(''foodId'', JStr ''apple''), (''imageSource'', JFunction ''Object'')])
   = JObj [(''foodId'', JStr ''apple'')]"
  by (simp_all add: normalizeSourceFromUrl_def exampleRuntime_def asciiTrim_def isSpace_def
        asciiLower_def lookup_def inherited_def legacyMap_def objectPrototype_def
        written_def Let_def)

lemma exampleTokens:
  "isValidToken (Some ''profile-0001'')" "isValidToken (Some ''sharecode-0001'')"
  by (simp_all add: isValidToken_def tokenPattern_def tokenChar_def isAlnum_def)

lemma sanitize_exampleSnapshot:
  "sanitizeSnapshotImages exampleRuntime now (exampleSnapshot note)
     = Some (JObj [(''profileId'', JStr ''profile-0001''),
                   (''foods'',
                    JObj [(''apple'', JObj [(''foodId'', JStr ''apple''), (''notes'', JStr note)])]),
                   (''familyOverrides'', JObj [])])"
  by (simp add: exampleSnapshot_def sanitizeSnapshotImages_def sanitizeFoods_def sanitizeFood_def
        sanitizeFamilyOverrides_def exampleRuntime_def asciiTrim_def List.map_filter_def)

lemma sanitize_namedSnapshot:
  "sanitizeSnapshotImages rt now (namedSnapshot name)
     = Some (JObj [(''profileName'', JStr name), (''foods'', JObj []),
                   (''familyOverrides'', JObj [])])"
  by (simp add: namedSnapshot_def sanitizeSnapshotImages_def sanitizeFoods_def
        sanitizeFamilyOverrides_def List.map_filter_def Let_def)

lemma validPush_example:
  "validPush exampleRuntime (examplePush 1 (exampleSnapshot ''rash''))"
  by (simp add: validPush_def examplePush_def exampleTokens exampleSnapshot_def
        isValidSnapshot_def quote_def escapeChar_def jsLength_def checkBaseRevision_def)

lemma validPush_nullItem:
  "validPush exampleRuntime (examplePush 0 nullItemSnapshot)"
  by (simp add: validPush_def examplePush_def exampleTokens nullItemSnapshot_def
        isValidSnapshot_def quote_def escapeChar_def jsLength_def checkBaseRevision_def)

lemma examplePushes_accepted:
  "length (acceptedFor exampleKey examplePushes (pushAll exampleRuntime examplePushes Map.empty))
   = 3"
  by (simp add: examplePushes_def examplePush_def exampleSnapshot_def exampleKey_def
        acceptedFor_def isFor_def push_def Let_def
        isValidToken_def tokenPattern_def tokenChar_def isAlnum_def
        isValidSnapshot_def quote_def escapeChar_def jsLength_def checkBaseRevision_def
        sanitizeSnapshotImages_def sanitizeFoods_def sanitizeFood_def
        sanitizeFamilyOverrides_def snapshotToSave_def exampleRuntime_def asciiTrim_def
        List.map_filter_def)

text \<open>The length of the serialization of the sized snapshots, in bytes and in code units.\<close>

lemma jsLength_append: "jsLength (xs @ ys) = jsLength xs + jsLength ys"
  by (simp add: jsLength_def)

lemma accents_Suc: "accents (Suc n) = [CHR 0xC3, CHR 0xA9] @ accents n"
  by (simp add: accents_def)

lemma length_accents: "length (accents n) = 2 * n"
  by (induction n) (simp_all add: accents_Suc, simp add: accents_def)

lemma jsLength_accents: "jsLength (accents n) = n"
  by (induction n)
     (simp_all add: accents_Suc jsLength_append, simp_all add: accents_def jsLength_def)

lemma escape_accents: "concat (map escapeChar (accents n)) = accents n"
  by (induction n) (simp_all add: accents_Suc, simp_all add: accents_def escapeChar_def)

lemma jsLength_letters: "jsLength (letters n) = n"
  by (induction n) (simp_all add: letters_def jsLength_def)

lemma escape_letters: "concat (map escapeChar (letters n)) = letters n"
  by (induction n) (simp_all add: letters_def escapeChar_def)

lemma stringify_named:
  "stringify rt (namedSnapshot name)
     = ''{'' @ quote ''profileName'' @ '':'' @ [CHR 0x22] @ concat (map escapeChar name)
       @ [CHR 0x22] @ ''}''"
  by (simp add: namedSnapshot_def quote_def)

lemma length_named_accents:
  "length (stringify rt (namedSnapshot (accents n))) = 2 * n + 18"
  by (simp add: stringify_named escape_accents length_accents quote_def escapeChar_def)

lemma jsLength_named_accents:
  "jsLength (stringify rt (namedSnapshot (accents n))) = n + 18"
  unfolding stringify_named escape_accents jsLength_append jsLength_accents
  by (simp add: quote_def escapeChar_def jsLength_def)

lemma jsLength_named_letters:
  "jsLength (stringify rt (namedSnapshot (letters n))) = n + 18"
  unfolding stringify_named escape_letters jsLength_append jsLength_letters
  by (simp add: quote_def escapeChar_def jsLength_def)

lemma asciiTrim_data: "asciiTrim ''data:image/png;base64,AAAA'' = ''data:image/png;base64,AAAA''"
  by (simp add: asciiTrim_def isSpace_def)

lemma push_imageSnapshot:
  "push exampleRuntime now (examplePush 0 imageSnapshot) Map.empty
   = (Inr (Response 200 (JObj [(''snapshot'', savedImageSnapshot now),
                               (''revision'', JNum (Fin 1))])),
      [exampleKey \<mapsto>
         \<lparr>rowSnapshot = savedImageSnapshot now, rowRevision = 1, rowUpdatedAt = now\<rparr>])"
  by (simp add: push_def examplePush_def exampleTokens imageSnapshot_def pearItem_def figItem_def
        savedImageSnapshot_def clearedPearItem_def exampleKey_def
        isValidSnapshot_def quote_def escapeChar_def jsLength_def checkBaseRevision_def
        sanitizeSnapshotImages_def sanitizeFoods_def sanitizeFood_def backfillFood_def
        isHttpUrl_def asciiLower_def shouldClearManualImage_def clearManualImage_def
        sanitizeFamilyOverrides_def snapshotToSave_def written_def exampleRuntime_def asciiTrim_def
        isSpace_def List.map_filter_def Let_def)

subsection \<open>Conflicts\<close>

text \<open>
  When a row is stored with revision \<open>R\<close>, a push for its \<^verbatim>\<open>(profileId, shareCode)\<close> that
  passes validation, on whose snapshot the sanitization pass returns, and whose base
  revision is not \<open>R\<close>, is answered with 409, the body carrying exactly the stored snapshot
  and \<open>R\<close>, and the table is left as it was.
\<close>

lemma stale_push_conflicts:
  assumes "validPush rt body"
    and "reqProfileId body = Some pid" and "reqShareCode body = Some sc"
    and "reqSnapshot body = Some snapshot"
    and "sanitizeSnapshotImages rt now snapshot \<noteq> None"
    and "db (pid, sc) = Some row"
    and "reqBaseRevision body \<noteq> Some (JNum (Fin (of_int (rowRevision row))))"
  shows "push rt now body db = (Inr (Response 409 (conflictBody row)), db)"
proof -
  from assms(1) obtain r where r: "checkBaseRevision (reqBaseRevision body) = Some r"
    by (auto simp: validPush_def)
  with assms(7) have "r \<noteq> of_int (rowRevision row)"
    by (auto dest: checkBaseRevision_Some)
  with assms r show ?thesis
    by (auto simp: push_def validPush_def conflictBody_def Let_def)
qed

text \<open>The stale push of \<open>examplePushes\<close>, base revision 1 against the row at revision 2.\<close>

lemma stale_push_example:
  "push exampleRuntime ''2024-01-03T00:00:00.000Z'' (examplePush 1 (exampleSnapshot ''rash''))
     [exampleKey \<mapsto> exampleRow]
   = (Inr (Response 409 (conflictBody exampleRow)), [exampleKey \<mapsto> exampleRow])"
  by (rule stale_push_conflicts [OF validPush_example, where pid = "''profile-0001''"
        and sc = "''sharecode-0001''" and snapshot = "exampleSnapshot ''rash''"])
     (simp_all add: examplePush_def exampleKey_def exampleRow_def sanitize_exampleSnapshot)

lemma validPush_staleNullItem:
  "validPush exampleRuntime (examplePush 1 nullItemSnapshot)"
  by (simp add: validPush_def examplePush_def exampleTokens nullItemSnapshot_def
        isValidSnapshot_def quote_def escapeChar_def jsLength_def checkBaseRevision_def)


text \<open>
  C1 does not hold of the code. A push that passes validation, against a stored row with
  a revision other than its base revision, and whose item map holds \<^verbatim>\<open>null\<close> for some item,
  is not answered with 409: the sanitization pass runs before the row is read (line 213),
  it reads a property of \<^verbatim>\<open>null\<close> (line 88), the \<^verbatim>\<open>TypeError\<close> escapes from the handler and
  nothing is sent. The table is left as it was. (On every other parsed snapshot without an
  own property \<^verbatim>\<open>toString\<close> the answer is the 409 of C1: \<open>stale_push_conflicts\<close>,
  \<open>sanitize_returns\<close>.)
\<close>

theorem stale_null_item_push_throws:
  assumes "validPush rt body"
    and "reqProfileId body = Some pid" and "reqShareCode body = Some sc"
    and "reqSnapshot body = Some (JObj kvs)"
    and "map_of kvs ''foods'' = Some (JObj fs)" and "(k, JNull) \<in> set fs"
    and "db (pid, sc) = Some row"
    and "reqBaseRevision body \<noteq> Some (JNum (Fin (of_int (rowRevision row))))"
  shows "push rt now body db = (Inl TypeError, db)
         \<and> push rt now body db \<noteq> (Inr (Response 409 (conflictBody row)), db)"
proof -
  have "sanitizeSnapshotImages rt now (JObj kvs) = None"
    using assms(5,6) by (rule null_item_throws)
  with assms(1-4) show ?thesis
    by (auto simp: push_def validPush_def split: option.splits)
qed

text \<open>
  The failing input: the push of \<^verbatim>\<open>{"foods": {"apple": null}}\<close> with base revision 1
  against the row at revision 2.
\<close>

theorem stale_null_item_push_throws_witness:
  "validPush exampleRuntime (examplePush 1 nullItemSnapshot)
   \<and> [exampleKey \<mapsto> exampleRow] exampleKey = Some exampleRow
   \<and> rowRevision exampleRow = 2
   \<and> push exampleRuntime ''2024-01-03T00:00:00.000Z'' (examplePush 1 nullItemSnapshot)
        [exampleKey \<mapsto> exampleRow]
      = (Inl TypeError, [exampleKey \<mapsto> exampleRow])"
proof -
  have "push exampleRuntime ''2024-01-03T00:00:00.000Z'' (examplePush 1 nullItemSnapshot)
          [exampleKey \<mapsto> exampleRow]
        = (Inl TypeError, [exampleKey \<mapsto> exampleRow])
        \<and> push exampleRuntime ''2024-01-03T00:00:00.000Z'' (examplePush 1 nullItemSnapshot)
            [exampleKey \<mapsto> exampleRow]
          \<noteq> (Inr (Response 409 (conflictBody exampleRow)), [exampleKey \<mapsto> exampleRow])"
    by (rule stale_null_item_push_throws
              [OF validPush_staleNullItem, where pid = "''profile-0001''"
                 and sc = "''sharecode-0001''" and kvs = "[(''foods'', JObj [(''apple'', JNull)])]"
                 and fs = "[(''apple'', JNull)]" and k = "''apple''"])
       (simp_all add: examplePush_def nullItemSnapshot_def exampleKey_def exampleRow_def)
  then show ?thesis
    by (simp add: validPush_staleNullItem exampleRow_def)
qed

subsection \<open>Revisions\<close>

text \<open>
  Requests handled one after the other. Take any sequence of pushes, from any table, and
  look at the accepted pushes against one row. The revisions stored by them, and the
  revisions sent back, are consecutive: they start one above the revision the row had
  before (at 1 when the row did not exist) and grow by exactly 1 with each accepted push;
  pushes that are refused, that fail, or that address another row change nothing of it.
\<close>

lemma revisions_consecutive:
  "map (\<lambda>(out, db'). storedRevision db' key) (acceptedFor key reqs (pushAll rt reqs db))
     = map Some [revisionBefore db key + 1 ..
                 revisionBefore db key + int (length (acceptedFor key reqs (pushAll rt reqs db)))]
   \<and> map (\<lambda>(out, db'). acceptedRevision out) (acceptedFor key reqs (pushAll rt reqs db))
     = map (\<lambda>n. Some (JNum (Fin (of_int n))))
         [revisionBefore db key + 1 ..
          revisionBefore db key + int (length (acceptedFor key reqs (pushAll rt reqs db)))]"
proof (induction reqs arbitrary: db)
  case Nil
  show ?case by (simp add: acceptedFor_def)
next
  case (Cons req reqs)
  obtain now body where req: "req = (now, body)" by (cases req)
  obtain out db' where r: "push rt now body db = (out, db')" by (cases "push rt now body db")
  let ?rest = "acceptedFor key reqs (pushAll rt reqs db')"
  note step = push_step [OF r, of key]
  note IH = Cons.IH [of db']
  show ?case
  proof (cases "isFor key body \<and> acceptedRevision out \<noteq> None")
    case True
    then have acc: "acceptedFor key (req # reqs) (pushAll rt (req # reqs) db) = (out, db') # ?rest"
      by (simp add: acceptedFor_def req r)
    from True step have s: "storedRevision db' key = Some (revisionBefore db key + 1)"
      "acceptedRevision out = Some (JNum (Fin (of_int (revisionBefore db key + 1))))"
      "revisionBefore db' key = revisionBefore db key + 1" by simp_all
    have eq: "[revisionBefore db key + 1 ..
               revisionBefore db key + int (length ((out, db') # ?rest))]
              = (revisionBefore db key + 1)
                # [revisionBefore db key + 1 + 1 .. revisionBefore db key + 1 + int (length ?rest)]"
      by (simp add: upto_rec1 add.assoc)
    show ?thesis
      unfolding acc eq using IH s by simp
  next
    case False
    then have acc: "acceptedFor key (req # reqs) (pushAll rt (req # reqs) db) = ?rest"
      by (auto simp add: acceptedFor_def req r)
    from False step have "revisionBefore db' key = revisionBefore db key" by auto
    then show ?thesis unfolding acc using IH by simp
  qed
qed

text \<open>
  The four pushes of \<open>examplePushes\<close> from an empty table: three are accepted, with the
  revisions 1, 2 and 3.
\<close>

lemma revisions_consecutive_example:
  "map (\<lambda>(out, db'). storedRevision db' exampleKey)
     (acceptedFor exampleKey examplePushes (pushAll exampleRuntime examplePushes Map.empty))
     = [Some 1, Some 2, Some 3]
   \<and> map (\<lambda>(out, db'). acceptedRevision out)
       (acceptedFor exampleKey examplePushes (pushAll exampleRuntime examplePushes Map.empty))
     = [Some (JNum (Fin 1)), Some (JNum (Fin 2)), Some (JNum (Fin 3))]"
proof -
  have none: "revisionBefore Map.empty exampleKey = 0"
    by (simp add: revisionBefore_def)
  have upto: "[0 + 1 .. 0 + int 3] = [1, 2, 3]"
    by (simp add: upto_rec1)
  show ?thesis
    using revisions_consecutive [of exampleKey examplePushes exampleRuntime Map.empty]
    unfolding examplePushes_accepted none upto by simp
qed

text \<open>
  The handler in one piece is its two parts without anything in between, and requests
  handled one after the other are the run in which every request writes before the next
  one arrives.
\<close>

lemma push_phases:
  "push rt now body db
   = (case pushRead rt now body db of Done out \<Rightarrow> (out, db) | Awaiting w \<Rightarrow> pushWrite w db)"
  by (auto simp: push_def pushRead_def pushWrite_def Let_def split: option.splits prod.splits)

lemma run_one:
  "run rt [Arrive i now body, Resume i] \<lparr>table = db, waiting = [], answers = ans\<rparr>
   = \<lparr>table = snd (push rt now body db), waiting = [],
      answers = ans @ [(i, fst (push rt now body db))]\<rparr>"
  by (cases "pushRead rt now body db")
     (auto simp: run_def push_phases split: prod.splits)

lemma run_append: "run rt (xs @ ys) s = run rt ys (run rt xs s)"
  by (simp add: run_def)

lemma run_oneByOne:
  "run rt (oneByOne i reqs) \<lparr>table = db, waiting = [], answers = ans\<rparr>
   = \<lparr>table = last (db # map snd (pushAll rt reqs db)), waiting = [],
      answers = ans @ zip [i ..< i + length reqs] (map fst (pushAll rt reqs db))\<rparr>"
proof (induction reqs arbitrary: i db ans)
  case Nil
  show ?case by (simp add: run_def)
next
  case (Cons req reqs)
  obtain now body where req: "req = (now, body)" by (cases req)
  let ?p = "push rt now body db"
  have "run rt (oneByOne i (req # reqs)) \<lparr>table = db, waiting = [], answers = ans\<rparr>
        = run rt (oneByOne (Suc i) reqs)
            (run rt [Arrive i now body, Resume i] \<lparr>table = db, waiting = [], answers = ans\<rparr>)"
    using run_append [of rt "[Arrive i now body, Resume i]" "oneByOne (Suc i) reqs"]
    by (simp add: req)
  also have "\<dots> = run rt (oneByOne (Suc i) reqs)
                    \<lparr>table = snd ?p, waiting = [], answers = ans @ [(i, fst ?p)]\<rparr>"
    by (simp only: run_one)
  also have "\<dots> = \<lparr>table = last (snd ?p # map snd (pushAll rt reqs (snd ?p))), waiting = [],
                   answers = (ans @ [(i, fst ?p)])
                     @ zip [Suc i ..< Suc i + length reqs] (map fst (pushAll rt reqs (snd ?p)))\<rparr>"
    by (rule Cons.IH)
  finally have r: "run rt (oneByOne i (req # reqs)) \<lparr>table = db, waiting = [], answers = ans\<rparr>
                   = \<lparr>table = last (snd ?p # map snd (pushAll rt reqs (snd ?p))), waiting = [],
                      answers = (ans @ [(i, fst ?p)])
                        @ zip [Suc i ..< Suc i + length reqs]
                            (map fst (pushAll rt reqs (snd ?p)))\<rparr>" .
  have u: "[i ..< i + length (req # reqs)] = i # [Suc i ..< Suc i + length reqs]"
    by (simp add: upt_conv_Cons del: upt_Suc)
  have l: "last (db # map snd (pushAll rt (req # reqs) db))
           = last (snd ?p # map snd (pushAll rt reqs (snd ?p)))"
    by (simp add: req Let_def)
  have z: "map fst (pushAll rt (req # reqs) db) = fst ?p # map fst (pushAll rt reqs (snd ?p))"
    by (simp add: req Let_def)
  show ?case
    unfolding r u l z by simp
qed

lemma validPush_overlapping:
  "validPush exampleRuntime (examplePush 2 (exampleSnapshot ''rash''))"
  "validPush exampleRuntime (examplePush 2 (exampleSnapshot ''likes it''))"
  by (simp_all add: validPush_def examplePush_def exampleTokens exampleSnapshot_def
        isValidSnapshot_def quote_def escapeChar_def jsLength_def checkBaseRevision_def)


text \<open>
  C2 does not hold of the code. Two pushes against one row, both with the revision \<open>R\<close>
  of the row as their base revision, the second arriving before the first has written:
  both find the revision \<open>R\<close>, both are accepted, both write and send back the revision
  \<open>R + 1\<close>, and the row keeps the snapshot of the one that wrote last. The second accepted
  push has not stored the revision before it plus 1.
\<close>

theorem overlapping_pushes_share_revision:
  assumes "validPush rt body1" and "validPush rt body2"
    and "isFor key body1" and "isFor key body2"
    and "reqSnapshot body1 = Some snapshot1" and "reqSnapshot body2 = Some snapshot2"
    and "sanitizeSnapshotImages rt now1 snapshot1 \<noteq> None"
    and "sanitizeSnapshotImages rt now2 snapshot2 \<noteq> None"
    and "db key = Some row"
    and "reqBaseRevision body1 = Some (JNum (Fin (of_int (rowRevision row))))"
    and "reqBaseRevision body2 = Some (JNum (Fin (of_int (rowRevision row))))"
  shows "map (\<lambda>(i, out). acceptedRevision out)
           (answers (run rt [Arrive 1 now1 body1, Arrive 2 now2 body2, Resume 1, Resume 2]
                       (idle db)))
         = [Some (JNum (Fin (of_int (rowRevision row + 1)))),
            Some (JNum (Fin (of_int (rowRevision row + 1))))]
         \<and> storedRevision
             (table (run rt [Arrive 1 now1 body1, Arrive 2 now2 body2, Resume 1, Resume 2]
                       (idle db))) key
           = Some (rowRevision row + 1)"
proof -
  obtain pid sc where key: "key = (pid, sc)" by (cases key)
  from assms(7,8) obtain s1 s2 where
    s: "sanitizeSnapshotImages rt now1 snapshot1 = Some s1"
       "sanitizeSnapshotImages rt now2 snapshot2 = Some s2" by auto
  have base: "checkBaseRevision (Some (JNum (Fin (of_int (rowRevision row)))))
              = Some (of_int (rowRevision row))"
    using assms(1,10) by (auto simp: validPush_def checkBaseRevision_def split: if_splits)
  have r1: "pushRead rt now1 body1 db
            = Awaiting \<lparr>writeKey = key,
                        writeSnapshot = written (snapshotToSave s1 (rowRevision row + 1) now1),
                        writeRevision = rowRevision row + 1, writeInsert = False,
                        writeTime = now1\<rparr>"
    using assms(1,3,5,9,10) s(1) base
    by (simp add: pushRead_def validPush_def isFor_def key Let_def)
  have r2: "pushRead rt now2 body2 db
            = Awaiting \<lparr>writeKey = key,
                        writeSnapshot = written (snapshotToSave s2 (rowRevision row + 1) now2),
                        writeRevision = rowRevision row + 1, writeInsert = False,
                        writeTime = now2\<rparr>"
    using assms(2,4,6,9,11) s(2) base
    by (simp add: pushRead_def validPush_def isFor_def key Let_def)
  show ?thesis
    using assms(9)
    by (simp add: run_def idle_def r1 r2 pushWrite_def storedRevision_def Let_def)
qed


text \<open>Two pushes with base revision 2 against the row at revision 2.\<close>

theorem overlapping_pushes_share_revision_witness:
  "map (\<lambda>(i, out). acceptedRevision out)
     (answers (run exampleRuntime
                 [Arrive 1 ''2024-01-03T00:00:00.000Z'' (examplePush 2 (exampleSnapshot ''rash'')),
                  Arrive 2 ''2024-01-03T00:00:01.000Z'' (examplePush 2 (exampleSnapshot ''likes it'')),
                  Resume 1, Resume 2]
                 (idle [exampleKey \<mapsto> exampleRow])))
   = [Some (JNum (Fin 3)), Some (JNum (Fin 3))]
   \<and> storedRevision
       (table (run exampleRuntime
                 [Arrive 1 ''2024-01-03T00:00:00.000Z'' (examplePush 2 (exampleSnapshot ''rash'')),
                  Arrive 2 ''2024-01-03T00:00:01.000Z'' (examplePush 2 (exampleSnapshot ''likes it'')),
                  Resume 1, Resume 2]
                 (idle [exampleKey \<mapsto> exampleRow])))
       exampleKey
     = Some 3"
  using overlapping_pushes_share_revision
          [OF validPush_overlapping, of exampleKey "exampleSnapshot ''rash''"
             "exampleSnapshot ''likes it''" "''2024-01-03T00:00:00.000Z''"
             "''2024-01-03T00:00:01.000Z''" "[exampleKey \<mapsto> exampleRow]" exampleRow]
  by (simp add: isFor_def examplePush_def exampleKey_def sanitize_exampleSnapshot exampleRow_def)

subsection \<open>Creation\<close>

text \<open>
  On a snapshot that the sanitization pass gets through, a push that passes validation
  creates the missing row at revision 1, whatever its base revision.
\<close>

lemma first_push_accepted:
  assumes "validPush rt body"
    and "reqProfileId body = Some pid" and "reqShareCode body = Some sc"
    and "reqSnapshot body = Some snapshot"
    and "noOwnToString snapshot"
    and "\<forall>item \<in> set (objectValues (orEmptyObject (getProp snapshot ''foods''))).
           jsonClone item \<noteq> JNull"
    and "isParsed snapshot"
    and "db (pid, sc) = None"
  shows "acceptedRevision (fst (push rt now body db)) = Some (JNum (Fin 1))
         \<and> storedRevision (snd (push rt now body db)) (pid, sc) = Some 1"
proof -
  from sanitize_returns [OF assms(5,6,7), of rt now] obtain sanitized where
    "sanitizeSnapshotImages rt now snapshot = Some sanitized" by auto
  from push_creates [where db = db, OF assms(1-4) this assms(8)] show ?thesis
    by (simp add: storedRevision_def)
qed

text \<open>
  C3 does not hold of the code. A push that passes validation and whose item map holds
  \<^verbatim>\<open>null\<close> for some item is not accepted: the sanitization pass reads a property of
  \<^verbatim>\<open>null\<close>, the \<^verbatim>\<open>TypeError\<close> escapes from the handler, nothing is sent and nothing is
  stored, whether the row exists or not. (When the pass returns, the creation is as C3
  says: \<open>push_creates\<close>, \<open>first_push_accepted\<close>.)
\<close>

theorem null_item_push_throws:
  assumes "validPush rt body"
    and "reqSnapshot body = Some (JObj kvs)"
    and "map_of kvs ''foods'' = Some (JObj fs)"
    and "(k, JNull) \<in> set fs"
  shows "push rt now body db = (Inl TypeError, db)"
proof -
  have "sanitizeSnapshotImages rt now (JObj kvs) = None"
    using assms(3,4) by (rule null_item_throws)
  with assms(1,2) show ?thesis
    by (auto simp: push_def validPush_def dest: isValidToken_Some split: option.splits)
qed

text \<open>
  The failing input: a first push, base revision 0, of the snapshot
  \<^verbatim>\<open>{"foods": {"apple": null}}\<close> to an empty table.
\<close>

theorem null_item_push_throws_witness:
  "validPush exampleRuntime (examplePush 0 nullItemSnapshot)
   \<and> Map.empty exampleKey = None
   \<and> push exampleRuntime ''2024-01-01T00:00:00.000Z'' (examplePush 0 nullItemSnapshot) Map.empty
      = (Inl TypeError, Map.empty)"
  using null_item_push_throws [OF validPush_nullItem, of "[(''foods'', JObj [(''apple'', JNull)])]"
          "[(''apple'', JNull)]" "''apple''" "''2024-01-01T00:00:00.000Z''" Map.empty]
  by (simp add: validPush_nullItem) (simp add: examplePush_def nullItemSnapshot_def)

subsection \<open>The size ceiling\<close>

text \<open>
  C7, as amended. A push whose snapshot has a \<^verbatim>\<open>JSON.stringify\<close> text of more than
  1,000,000 UTF-16 code units (its \<^verbatim>\<open>.length\<close>) is answered with 400, for its tokens or for
  its snapshot, and the table is left as it was.
\<close>

theorem oversized_push_rejected:
  assumes "reqSnapshot body = Some snapshot"
    and "1000000 < jsLength (stringify rt snapshot)"
  shows "push rt now body db
           = (Inr (Response 400 (errorBody ''shareCode or profileId format is invalid'')), db)
         \<or> push rt now body db = (Inr (Response 400 (errorBody ''snapshot is invalid'')), db)"
  using assms by (auto simp: push_def isValidSnapshot_def)

text \<open>A snapshot of 1,000,001 ASCII characters.\<close>

theorem oversized_push_rejected_witness:
  "1000000 < jsLength (stringify exampleRuntime (namedSnapshot (letters 999983)))
   \<and> push exampleRuntime ''2024-01-01T00:00:00.000Z'' (examplePush 0 (namedSnapshot (letters 999983)))
        Map.empty
      = (Inr (Response 400 (errorBody ''snapshot is invalid'')), Map.empty)"
proof -
  have big: "1000000 < jsLength (stringify exampleRuntime (namedSnapshot (letters 999983)))"
    by (simp add: jsLength_named_letters)
  have tokens: "\<not> (\<not> isValidToken (reqShareCode (examplePush 0 (namedSnapshot (letters 999983))))
                  \<or> \<not> isValidToken (reqProfileId (examplePush 0 (namedSnapshot (letters 999983)))))"
    by (simp add: examplePush_def exampleTokens)
  have "push exampleRuntime ''2024-01-01T00:00:00.000Z''
          (examplePush 0 (namedSnapshot (letters 999983))) Map.empty
        \<noteq> (Inr (Response 400 (errorBody ''shareCode or profileId format is invalid'')), Map.empty)"
    using tokens big
    by (simp add: push_def examplePush_def isValidSnapshot_def namedSnapshot_def errorBody_def)
  with oversized_push_rejected [of "examplePush 0 (namedSnapshot (letters 999983))"
         "namedSnapshot (letters 999983)" exampleRuntime "''2024-01-01T00:00:00.000Z''" Map.empty] big
  show ?thesis by (simp add: examplePush_def)
qed

text \<open>
  C7 as stated, in bytes, fails: the snapshot whose profile name is 500,000 accented
  letters serializes to 1,000,018 bytes of UTF-8, but to 500,018 code units; its push is
  accepted with revision 1 and stored.
\<close>

theorem accented_push_counterexample:
  "1000000 < length (stringify exampleRuntime (namedSnapshot (accents 500000)))
   \<and> acceptedRevision (fst (push exampleRuntime ''2024-01-01T00:00:00.000Z''
                               (examplePush 0 (namedSnapshot (accents 500000))) Map.empty))
      = Some (JNum (Fin 1))
   \<and> storedRevision (snd (push exampleRuntime ''2024-01-01T00:00:00.000Z''
                             (examplePush 0 (namedSnapshot (accents 500000))) Map.empty))
        exampleKey
      = Some 1"
proof -
  have valid: "isValidSnapshot exampleRuntime (Some (namedSnapshot (accents 500000)))"
    using jsLength_named_accents [of exampleRuntime 500000]
    by (simp add: isValidSnapshot_def namedSnapshot_def)
  show ?thesis
    using valid
    by (simp add: length_named_accents push_def examplePush_def exampleTokens
          checkBaseRevision_def sanitize_namedSnapshot storedRevision_def exampleKey_def Let_def)
qed

subsection \<open>The custom-image field group\<close>

lemma those_map_of:
  assumes "those (map (\<lambda>(k, v). map_option (Pair k) (f v)) kvs) = Some kvs'"
    and "map_of kvs k = Some v"
  shows "\<exists>w. f v = Some w \<and> map_of kvs' k = Some w"
  using assms
proof (induction kvs arbitrary: kvs')
  case Nil
  then show ?case by simp
next
  case (Cons a kvs)
  obtain k0 v0 where a: "a = (k0, v0)" by (cases a)
  from Cons.prems(1) obtain w0 rest where w0: "f v0 = Some w0"
    and rest: "those (map (\<lambda>(k, v). map_option (Pair k) (f v)) kvs) = Some rest"
    and kvs': "kvs' = (k0, w0) # rest"
    by (auto simp: a split: option.splits)
  show ?case
  proof (cases "k = k0")
    case True
    with Cons.prems(2) a w0 kvs' show ?thesis by simp
  next
    case False
    with Cons.prems(2) a have "map_of kvs k = Some v" by simp
    from Cons.IH [OF rest this] False kvs' show ?thesis by simp
  qed
qed

lemma sanitized_foods:
  assumes "sanitizeSnapshotImages rt now (JObj kvs) = Some sanitized"
  shows "\<exists>foods'.
           sanitizeFoods rt now (orEmptyObject (getProp (jsonClone (JObj kvs)) ''foods''))
             = Some foods'
           \<and> getProp sanitized ''foods'' = Some foods'"
  using assms
  by (auto simp: sanitizeSnapshotImages_def Let_def update_conv' split: Option.bind_splits)

lemma getProp_snapshotToSave:
  "sanitizeSnapshotImages rt now (JObj kvs) = Some sanitized \<Longrightarrow>
   getProp (snapshotToSave sanitized r now') ''foods'' = getProp sanitized ''foods''"
  by (auto simp: sanitizeSnapshotImages_def snapshotToSave_def Let_def update_conv'
           split: Option.bind_splits)

lemma backfillFood_JObj:
  "backfillFood rt url (JObj kvs) = Some food' \<Longrightarrow> \<exists>kvs'. food' = JObj kvs'"
  by (auto simp: backfillFood_def Let_def split: if_splits Option.bind_splits option.splits)

lemma cleared_fields:
  "getProp (clearManualImage now (JObj kvs)) ''customImageUrl'' = Some (JStr [])"
  "getProp (clearManualImage now (JObj kvs)) ''customImageAttribution'' = Some (JStr [])"
  "getProp (clearManualImage now (JObj kvs)) ''customImageAttributionUrl'' = Some (JStr [])"
  "getProp (clearManualImage now (JObj kvs)) ''imageSource'' = Some (JStr [])"
  "getProp (clearManualImage now (JObj kvs)) ''imageGeneratedAt'' = Some (JStr [])"
  "getProp (clearManualImage now (JObj kvs)) ''updatedAt'' = Some (JStr now)"
  by (simp_all add: clearManualImage_def update_conv')

text \<open>
  C9, as amended. On an accepted push, take an item of the pushed item map that is an
  object and has a custom image, that is a URL \<^verbatim>\<open>String(customImageUrl || "").trim()\<close>
  that is not empty. If the attribution of the item is empty after the normalization of
  lines 91 to 101 (source and attribution inferred from the URL), then the stored item
  has the five fields of the custom-image group (url, attribution, attribution-url,
  source, generated-at) set to the empty string.
\<close>

theorem empty_attribution_clears_image:
  assumes accepted: "push rt now body db = (Inr (Response 200 b), db')"
    and body: "reqProfileId body = Some pid" "reqShareCode body = Some sc"
      "reqSnapshot body = Some snapshot"
    and pushed: "getProp snapshot ''foods'' = Some (JObj fs)" "map_of fs itemId = Some item"
      "jsonClone item = JObj kvs"
    and url: "toString rt (orEmpty (getProp (JObj kvs) ''customImageUrl'')) = Some url"
      "trim rt url \<noteq> []"
    and normalized: "backfillFood rt (trim rt url) (JObj kvs) = Some food'"
    and empty: "shouldClearManualImage rt (getProp food' ''customImageAttribution'') = Some True"
  shows "\<exists>stored. storedItem db' (pid, sc) itemId = Some stored
           \<and> getProp stored ''customImageUrl'' = Some (JStr [])
           \<and> getProp stored ''customImageAttribution'' = Some (JStr [])
           \<and> getProp stored ''customImageAttributionUrl'' = Some (JStr [])
           \<and> getProp stored ''imageSource'' = Some (JStr [])
           \<and> getProp stored ''imageGeneratedAt'' = Some (JStr [])"
proof -
  let ?cloned = "map (\<lambda>(k, v). (k, jsonClone v)) (filter (\<lambda>(k, v). \<not> isFunction v) fs)"
  from push_accepted [OF accepted] body obtain kvs0 sanitized where
    snap: "snapshot = JObj kvs0"
    and san: "sanitizeSnapshotImages rt now (JObj kvs0) = Some sanitized"
    and db': "db' = db((pid, sc) \<mapsto>
                \<lparr>rowSnapshot =
                   written (snapshotToSave sanitized (revisionBefore db (pid, sc) + 1) now),
                 rowRevision = revisionBefore db (pid, sc) + 1, rowUpdatedAt = now\<rparr>)"
    by auto
  have cloned: "getProp (jsonClone (JObj kvs0)) ''foods'' = Some (JObj ?cloned)"
    using getProp_jsonClone [OF pushed(1) [unfolded snap]] by simp
  from sanitized_foods [OF san] cloned obtain foods' where
    sf: "sanitizeFoods rt now (JObj ?cloned) = Some foods'"
    and gf: "getProp sanitized ''foods'' = Some foods'"
    by auto
  from sf obtain fs' where fs': "foods' = JObj fs'"
    and th: "those (map (\<lambda>(k, food). map_option (Pair k) (sanitizeFood rt now food)) ?cloned)
             = Some fs'"
    by (auto simp: sanitizeFoods_def)
  from pushed(3) have "\<not> isFunction item" by (cases item rule: jsonClone.cases) simp_all
  with pushed(2,3) have "map_of ?cloned itemId = Some (JObj kvs)"
    by (simp add: map_of_cloned map_of_kept)
  from those_map_of [OF th this] obtain kept where
    st: "sanitizeFood rt now (JObj kvs) = Some kept" and look: "map_of fs' itemId = Some kept"
    by auto
  from st url normalized empty have "kept = clearManualImage now food'"
    by (simp add: sanitizeFood_def)
  moreover from backfillFood_JObj [OF normalized] obtain kvs' where "food' = JObj kvs'" by auto
  ultimately have kept: "kept = clearManualImage now (JObj kvs')" by simp
  then have object: "\<not> isFunction kept" by (simp add: clearManualImage_def)
  have "getProp (written (snapshotToSave sanitized (revisionBefore db (pid, sc) + 1) now)) ''foods''
        = Some (jsonClone (JObj fs'))"
    unfolding written_def
    by (rule getProp_jsonClone) (simp_all add: getProp_snapshotToSave [OF san] gf fs')
  moreover have "getProp (jsonClone (JObj fs')) itemId = Some (jsonClone kept)"
    using look object by (intro getProp_jsonClone) simp_all
  ultimately have "storedItem db' (pid, sc) itemId = Some (jsonClone kept)"
    by (simp add: storedItem_def db')
  moreover have "getProp (jsonClone kept) k = Some (JStr [])"
    if "getProp (clearManualImage now (JObj kvs')) k = Some (JStr [])" for k
    using getProp_jsonClone [OF that] by (simp add: kept)
  ultimately show ?thesis
    by (simp add: cleared_fields)
qed

text \<open>
  The first push of \<open>imageSnapshot\<close>: the item \<open>pear\<close> has an uploaded image and no
  attribution, and is stored with the group emptied.
\<close>

theorem empty_attribution_clears_image_witness:
  "\<exists>stored.
     storedItem
       (snd (push exampleRuntime ''2024-01-05T00:00:00.000Z'' (examplePush 0 imageSnapshot) Map.empty))
       exampleKey ''pear'' = Some stored
     \<and> getProp stored ''customImageUrl'' = Some (JStr [])
     \<and> getProp stored ''customImageAttribution'' = Some (JStr [])
     \<and> getProp stored ''customImageAttributionUrl'' = Some (JStr [])
     \<and> getProp stored ''imageSource'' = Some (JStr [])
     \<and> getProp stored ''imageGeneratedAt'' = Some (JStr [])"
  unfolding exampleKey_def
proof (rule empty_attribution_clears_image
         [where rt = exampleRuntime and body = "examplePush 0 imageSnapshot"
            and snapshot = imageSnapshot and url = "''data:image/png;base64,AAAA''"
            and db = Map.empty and now = "''2024-01-05T00:00:00.000Z''"
            and fs = "[(''pear'', pearItem), (''fig'', figItem)]" and item = pearItem
            and kvs = "[(''foodId'', JStr ''pear''),
                        (''customImageUrl'', JStr ''data:image/png;base64,AAAA''),
                        (''customImageAttribution'', JStr []),
                        (''customImageAttributionUrl'', JStr []),
                        (''imageGeneratedAt'', JStr ''2024-01-01T00:00:00.000Z''),
                        (''imageSource'', JStr ''manual-file'')]"
            and food' = pearItem])
  show "push exampleRuntime ''2024-01-05T00:00:00.000Z'' (examplePush 0 imageSnapshot) Map.empty
        = (Inr (Response 200
                  (JObj [(''snapshot'', savedImageSnapshot ''2024-01-05T00:00:00.000Z''),
                         (''revision'', JNum (Fin 1))])),
           snd (push exampleRuntime ''2024-01-05T00:00:00.000Z'' (examplePush 0 imageSnapshot)
                  Map.empty))"
    by (simp add: push_imageSnapshot)
  show "reqProfileId (examplePush 0 imageSnapshot) = Some ''profile-0001''"
    "reqShareCode (examplePush 0 imageSnapshot) = Some ''sharecode-0001''"
    "reqSnapshot (examplePush 0 imageSnapshot) = Some imageSnapshot"
    by (simp_all add: examplePush_def)
  show "getProp imageSnapshot ''foods'' = Some (JObj [(''pear'', pearItem), (''fig'', figItem)])"
    by (simp add: imageSnapshot_def)
  show "map_of [(''pear'', pearItem), (''fig'', figItem)] ''pear'' = Some pearItem"
    by simp
  show "jsonClone pearItem
        = JObj [(''foodId'', JStr ''pear''),
                (''customImageUrl'', JStr ''data:image/png;base64,AAAA''),
                (''customImageAttribution'', JStr []),
                (''customImageAttributionUrl'', JStr []),
                (''imageGeneratedAt'', JStr ''2024-01-01T00:00:00.000Z''),
                (''imageSource'', JStr ''manual-file'')]"
    by (simp add: pearItem_def)
  show "toString exampleRuntime
          (orEmpty (getProp (JObj [(''foodId'', JStr ''pear''),
                                   (''customImageUrl'', JStr ''data:image/png;base64,AAAA''),
                                   (''customImageAttribution'', JStr []),
                                   (''customImageAttributionUrl'', JStr []),
                                   (''imageGeneratedAt'', JStr ''2024-01-01T00:00:00.000Z''),
                                   (''imageSource'', JStr ''manual-file'')])
                      ''customImageUrl''))
        = Some ''data:image/png;base64,AAAA''"
    by simp
  show "trim exampleRuntime ''data:image/png;base64,AAAA'' \<noteq> []"
    by (simp add: exampleRuntime_def asciiTrim_data)
  show "backfillFood exampleRuntime (trim exampleRuntime ''data:image/png;base64,AAAA'')
          (JObj [(''foodId'', JStr ''pear''),
                 (''customImageUrl'', JStr ''data:image/png;base64,AAAA''),
                 (''customImageAttribution'', JStr []),
                 (''customImageAttributionUrl'', JStr []),
                 (''imageGeneratedAt'', JStr ''2024-01-01T00:00:00.000Z''),
                 (''imageSource'', JStr ''manual-file'')])
        = Some pearItem"
    by (simp add: exampleRuntime_def asciiTrim_data backfillFood_def isHttpUrl_def asciiLower_def
          pearItem_def)
  show "shouldClearManualImage exampleRuntime (getProp pearItem ''customImageAttribution'')
        = Some True"
    by (simp add: shouldClearManualImage_def exampleRuntime_def asciiTrim_def pearItem_def)
qed

text \<open>
  C9 as stated, for every item, fails: the item \<open>fig\<close> of the same push has an empty
  attribution, and no custom image URL. The pass leaves it alone, and it is stored with
  its source and its generation time.
\<close>

theorem image_without_url_counterexample:
  "acceptedRevision
     (fst (push exampleRuntime ''2024-01-05T00:00:00.000Z'' (examplePush 0 imageSnapshot) Map.empty))
   = Some (JNum (Fin 1))
   \<and> storedItem
       (snd (push exampleRuntime ''2024-01-05T00:00:00.000Z'' (examplePush 0 imageSnapshot) Map.empty))
       exampleKey ''fig''
     = Some (JObj [(''foodId'', JStr ''fig''),
                   (''customImageUrl'', JStr []),
                   (''customImageAttribution'', JStr []),
                   (''customImageAttributionUrl'', JStr []),
                   (''imageGeneratedAt'', JStr ''2024-01-01T00:00:00.000Z''),
                   (''imageSource'', JStr ''manual-file'')])"
  by (simp add: push_imageSnapshot storedItem_def exampleKey_def savedImageSnapshot_def
        figItem_def)

section \<open>Properties of the merge engine\<close>

subsection \<open>Sets, sorting and dictionaries\<close>

lemma set_addAll: "set (addAll seen xs) = set seen \<union> set xs"
  by (induction xs arbitrary: seen) auto

lemma distinct_addAll: "distinct seen \<Longrightarrow> distinct (addAll seen xs)"
  by (induction xs arbitrary: seen) auto

lemma addAll_append: "addAll seen (xs @ ys) = addAll (addAll seen xs) ys"
  by (induction xs arbitrary: seen) auto

lemma addAll_distinct: "distinct (seen @ xs) \<Longrightarrow> addAll seen xs = seen @ xs"
  by (induction xs arbitrary: seen) auto

lemma addAll_known: "set xs \<subseteq> set seen \<Longrightarrow> addAll seen xs = seen"
  by (induction xs arbitrary: seen) auto

lemma set_uniqueValues [simp]: "set (uniqueValues xs) = set xs"
  by (simp add: uniqueValues_def set_addAll)

lemma distinct_uniqueValues [simp]: "distinct (uniqueValues xs)"
  by (simp add: uniqueValues_def distinct_addAll)

lemma uniqueValues_distinct: "distinct xs \<Longrightarrow> uniqueValues xs = xs"
  using addAll_distinct [of "[]" xs] by (simp add: uniqueValues_def)

lemma uniqueValues_twice: "distinct xs \<Longrightarrow> uniqueValues (xs @ xs) = xs"
  using addAll_distinct [of "[]" xs] addAll_known [of xs xs]
  by (simp add: uniqueValues_def addAll_append)

lemma insort_key_map:
  "insort_key k (g x) (map g ys) = map g (insort_key (\<lambda>y. k (g y)) x ys)"
  by (induction ys) auto

lemma sort_key_map: "sort_key k (map g xs) = map g (sort_key (\<lambda>y. k (g y)) xs)"
  by (induction xs) (simp_all add: insort_key_map)

lemma merged_stamps:
  "map checkedAt (mergeExposures rt l r)
   = take 3 (sort_key (\<lambda>c. toTimestamp rt (Some c))
               (uniqueValues (filter (\<lambda>c. c \<noteq> []) (map checkedAt (l @ r)))))"
  by (simp add: mergeExposures_def Let_def take_map sort_key_map filter_map o_def)

lemma sorted_take_drop:
  assumes "sorted (map f xs)" and "x \<in> set (take n xs)" and "y \<in> set (drop n xs)"
  shows "f x \<le> f y"
proof -
  have "sorted (map f (take n xs) @ map f (drop n xs))"
    using assms(1) by (simp flip: map_append)
  with assms(2,3) show ?thesis by (auto simp: sorted_append)
qed

lemma exposure_eta: "\<lparr>checkedAt = checkedAt (x :: Exposure)\<rparr> = x"
  by (cases x) simp

lemma map_filter_cong:
  assumes "\<forall>x \<in> set xs. g x = h x"
  shows "List.map_filter g xs = List.map_filter h xs"
  using assms by (induction xs) (auto split: option.splits)

lemma map_filter_keys:
  assumes "distinct (map fst xs)"
  shows "List.map_filter (\<lambda>k. case map_of xs k of None \<Rightarrow> None | Some f \<Rightarrow> Some (k, h f))
           (map fst xs)
         = map (\<lambda>(k, f). (k, h f)) xs"
  using assms
proof (induction xs)
  case Nil
  show ?case by simp
next
  case (Cons p xs)
  obtain k f where p: "p = (k, f)" by (cases p)
  from Cons.prems p have notin: "k \<notin> fst ` set xs" and d: "distinct (map fst xs)" by auto
  have "List.map_filter (\<lambda>k'. case map_of (p # xs) k' of None \<Rightarrow> None | Some f \<Rightarrow> Some (k', h f))
          (map fst xs)
        = List.map_filter (\<lambda>k'. case map_of xs k' of None \<Rightarrow> None | Some f \<Rightarrow> Some (k', h f))
          (map fst xs)"
    using notin by (intro map_filter_cong) (auto simp: p rev_image_eqI)
  with Cons.IH [OF d] show ?case by (simp add: p)
qed

lemma update_present: "map_of al k = Some v \<Longrightarrow> AList.update k v al = al"
  by (induction al) auto

lemma spread_known:
  assumes "\<And>k v. (k, v) \<in> set b \<Longrightarrow> map_of a k = Some v"
  shows "spread a b = a"
  using assms unfolding spread_def
proof (induction b)
  case Nil
  show ?case by simp
next
  case (Cons p b)
  obtain k v where p: "p = (k, v)" by (cases p)
  from Cons.prems [of k v] p have "AList.update k v a = a" by (simp add: update_present)
  with Cons show ?case by (simp add: p)
qed

lemma spread_same: "distinct (map fst a) \<Longrightarrow> spread a a = a"
  by (rule spread_known) simp

lemma fold_update_fresh:
  assumes "distinct (map fst xs)" and "fst ` set xs \<inter> fst ` set acc = {}"
  shows "fold (\<lambda>(k, v). AList.update k v) xs acc = acc @ xs"
  using assms
proof (induction xs arbitrary: acc)
  case Nil
  show ?case by simp
next
  case (Cons p xs)
  obtain k v where p: "p = (k, v)" by (cases p)
  from Cons.prems p have fresh: "k \<notin> fst ` set acc" by auto
  then have upd: "AList.update k v acc = acc @ [(k, v)]"
    by (induction acc) auto
  from Cons.prems p have "distinct (map fst xs)"
    and "fst ` set xs \<inter> fst ` set (acc @ [(k, v)]) = {}" by auto
  from Cons.IH [OF this] show ?case by (simp add: p upd)
qed

lemma map_of_map_filter:
  assumes "\<And>i p. g i = Some p \<Longrightarrow> fst p = i"
  shows "map_of (List.map_filter g ids) k = (if k \<in> set ids then map_option snd (g k) else None)"
proof (induction ids)
  case Nil
  show ?case by (simp add: List.map_filter_simps)
next
  case (Cons i ids)
  show ?case
  proof (cases "g i")
    case None
    with Cons show ?thesis by (auto simp: List.map_filter_simps)
  next
    case (Some p)
    with assms have "fst p = i" by simp
    with Some Cons show ?thesis by (cases p) (auto simp: List.map_filter_simps)
  qed
qed

subsection \<open>Evaluation of the examples\<close>

lemma stamps:
  "toTimestamp exampleRuntime (Some day0) = 1703462400000"
  "toTimestamp exampleRuntime (Some day1) = 1704067200000"
  "toTimestamp exampleRuntime (Some day2) = 1704672000000"
  "toTimestamp exampleRuntime (Some day3) = 1705276800000"
  by (simp_all add: toTimestamp_def exampleRuntime_def day0_def day1_def day2_def day3_def
        isoDateParse_def isDigit_def readDigits_def daysFromCivil_def daysInMonth_def)

lemma days_nonempty: "day0 \<noteq> []" "day1 \<noteq> []" "day2 \<noteq> []" "day3 \<noteq> []"
  by (simp_all add: day0_def day1_def day2_def day3_def)

lemma dateParse_day1: "dateParse exampleRuntime day1 = Some 1704067200000"
  by (simp add: exampleRuntime_def day1_def
        isoDateParse_def isDigit_def readDigits_def daysFromCivil_def daysInMonth_def)

subsection \<open>Exposures\<close>

lemma uniqueValues_3: "distinct [a, b, c] \<Longrightarrow> uniqueValues [a, b, c] = [a, b, c]"
  by (rule uniqueValues_distinct)

lemma uniqueValues_4: "distinct [a, b, c, d] \<Longrightarrow> uniqueValues [a, b, c, d] = [a, b, c, d]"
  by (rule uniqueValues_distinct)

lemma sort_ascending_3:
  assumes "f a < f b" "f b < f c"
  shows "sort_key f [a, b, c] = [a, b, c]"
proof -
  have "f a \<le> f b" "f b \<le> f c" "f a \<le> f c" using assms by auto
  then show ?thesis by simp
qed

lemma sort_rotated_4:
  fixes f :: "'a \<Rightarrow> int"
  assumes "f z < f a" "f a < f b" "f b < f c"
  shows "sort_key f [a, b, c, z] = [z, a, b, c]"
proof -
  have le: "f a \<le> f b" "f b \<le> f c" "f a \<le> f c" using assms by auto
  have nle: "\<not> f a \<le> f z" "\<not> f b \<le> f z" "\<not> f c \<le> f z" using assms by auto
  have "sort_key f [c, z] = [z, c]" using nle by simp
  then have "sort_key f [b, c, z] = [z, b, c]" using nle le by simp
  then show ?thesis using nle le by simp
qed

lemma merge_two_one:
  assumes "t1 \<noteq> []" "t2 \<noteq> []" "t3 \<noteq> []"
    and "toTimestamp rt (Some t1) < toTimestamp rt (Some t2)"
    and "toTimestamp rt (Some t2) < toTimestamp rt (Some t3)"
  shows "mergeExposures rt [exposure t1, exposure t2] [exposure t3]
         = [exposure t1, exposure t2, exposure t3]"
proof -
  from assms have d: "distinct [t1, t2, t3]" by auto
  have "map checkedAt (mergeExposures rt [exposure t1, exposure t2] [exposure t3])
        = take 3 (sort_key (\<lambda>c. toTimestamp rt (Some c)) (uniqueValues [t1, t2, t3]))"
    unfolding merged_stamps using assms(1-3) by (simp add: exposure_def)
  also have "\<dots> = [t1, t2, t3]"
    unfolding uniqueValues_3 [OF d] sort_ascending_3 [of "\<lambda>c. toTimestamp rt (Some c)", OF assms(4,5)]
    by simp
  finally have "map exposure (map checkedAt (mergeExposures rt [exposure t1, exposure t2] [exposure t3]))
                = map exposure [t1, t2, t3]" by simp
  then show ?thesis by (simp add: exposure_def o_def exposure_eta)
qed

lemma merge_three_one:
  assumes "t0 \<noteq> []" "t1 \<noteq> []" "t2 \<noteq> []" "t3 \<noteq> []"
    and "toTimestamp rt (Some t0) < toTimestamp rt (Some t1)"
    and "toTimestamp rt (Some t1) < toTimestamp rt (Some t2)"
    and "toTimestamp rt (Some t2) < toTimestamp rt (Some t3)"
  shows "mergeExposures rt [exposure t1, exposure t2, exposure t3] [exposure t0]
         = [exposure t0, exposure t1, exposure t2]"
proof -
  from assms have d: "distinct [t1, t2, t3, t0]" by auto
  have "map checkedAt (mergeExposures rt [exposure t1, exposure t2, exposure t3] [exposure t0])
        = take 3 (sort_key (\<lambda>c. toTimestamp rt (Some c)) (uniqueValues [t1, t2, t3, t0]))"
    unfolding merged_stamps using assms(1-4) by (simp add: exposure_def)
  also have "\<dots> = [t0, t1, t2]"
    unfolding uniqueValues_4 [OF d]
      sort_rotated_4 [of "\<lambda>c. toTimestamp rt (Some c)", OF assms(5,6,7)]
    by simp
  finally have "map exposure (map checkedAt
                  (mergeExposures rt [exposure t1, exposure t2, exposure t3] [exposure t0]))
                = map exposure [t0, t1, t2]" by simp
  then show ?thesis by (simp add: exposure_def o_def exposure_eta)
qed

text \<open>
  C4. Whatever the two lists, the dates of the merged list are dates given on one side
  or the other (an exposure without a date has none), no date is there twice, they are
  in ascending order of time, they are three, or all of them when fewer than three
  different dates were given, and every given date that was dropped is not older than
  any date that was kept; the merged exposures carry these dates and nothing else. In
  particular, for dates \<open>t1 < t2 < t3\<close> the lists \<open>[t1, t2]\<close> and \<open>[t3]\<close> merge to
  \<open>[t1, t2, t3]\<close>, and for \<open>t0 < t1 < t2 < t3\<close> the lists \<open>[t1, t2, t3]\<close> and \<open>[t0]\<close>
  merge to \<open>[t0, t1, t2]\<close>. The order of dates is the order of their times, as
  \<^verbatim>\<open>toTimestamp\<close> reads them. The exposures of a merged item are the merged exposures of
  its two sides.
\<close>

theorem merged_exposures:
  fixes rt l r
  defines "stamp \<equiv> (\<lambda>c. toTimestamp rt (Some c))"
    and "given \<equiv> {c \<in> checkedAt ` set (l @ r). c \<noteq> []}"
    and "merged \<equiv> map checkedAt (mergeExposures rt l r)"
  shows "set merged \<subseteq> given
         \<and> distinct merged
         \<and> sorted (map stamp merged)
         \<and> length merged = min 3 (card given)
         \<and> (\<forall>c \<in> given - set merged. \<forall>d \<in> set merged. stamp d \<le> stamp c)
         \<and> mergeExposures rt l r = map exposure merged
         \<and> (\<forall>t1 t2 t3. t1 \<noteq> [] \<and> t2 \<noteq> [] \<and> t3 \<noteq> [] \<and> stamp t1 < stamp t2 \<and> stamp t2 < stamp t3 \<longrightarrow>
               mergeExposures rt [exposure t1, exposure t2] [exposure t3]
               = [exposure t1, exposure t2, exposure t3])
         \<and> (\<forall>t0 t1 t2 t3. t0 \<noteq> [] \<and> t1 \<noteq> [] \<and> t2 \<noteq> [] \<and> t3 \<noteq> []
               \<and> stamp t0 < stamp t1 \<and> stamp t1 < stamp t2 \<and> stamp t2 < stamp t3 \<longrightarrow>
               mergeExposures rt [exposure t1, exposure t2, exposure t3] [exposure t0]
               = [exposure t0, exposure t1, exposure t2])
         \<and> (\<forall>a b. exposures (mergeFoodState rt a b)
                    = mergeExposures rt (exposures a) (exposures b))"
proof -
  let ?u = "uniqueValues (filter (\<lambda>c. c \<noteq> []) (map checkedAt (l @ r)))"
  let ?s = "sort_key stamp ?u"
  have m: "merged = take 3 ?s"
    unfolding merged_def stamp_def by (rule merged_stamps)
  have set_s: "set ?s = given"
    by (auto simp: given_def)
  have dist_s: "distinct ?s" by simp
  have len_s: "length ?s = card given"
    using distinct_card [OF dist_s] set_s by simp
  have 1: "set merged \<subseteq> given"
    unfolding m using set_take_subset [of 3 ?s] set_s by blast
  have 2: "distinct merged"
    unfolding m using dist_s by (rule distinct_take)
  have sorted_s: "sorted (map stamp ?s)" by (rule sorted_sort_key)
  have 3: "sorted (map stamp merged)"
    unfolding m using sorted_s sorted_wrt_take [of "(\<le>)" "map stamp ?s" 3]
    by (simp add: take_map)
  have 4: "length merged = min 3 (card given)"
    unfolding m using len_s by (simp add: min.commute)
  have 5: "\<forall>c \<in> given - set merged. \<forall>d \<in> set merged. stamp d \<le> stamp c"
  proof (intro ballI)
    fix c d assume c: "c \<in> given - set merged" and d: "d \<in> set merged"
    have "set ?s = set (take 3 ?s) \<union> set (drop 3 ?s)"
      by (metis append_take_drop_id set_append)
    with c set_s m have "c \<in> set (drop 3 ?s)" by auto
    with sorted_take_drop [OF sorted_s] d m show "stamp d \<le> stamp c" by auto
  qed
  have 6: "mergeExposures rt l r = map exposure merged"
    unfolding merged_def by (simp add: exposure_def o_def exposure_eta)
  have 7: "\<forall>t1 t2 t3. t1 \<noteq> [] \<and> t2 \<noteq> [] \<and> t3 \<noteq> [] \<and> stamp t1 < stamp t2 \<and> stamp t2 < stamp t3 \<longrightarrow>
               mergeExposures rt [exposure t1, exposure t2] [exposure t3]
               = [exposure t1, exposure t2, exposure t3]"
    unfolding stamp_def by (intro allI impI merge_two_one) simp_all
  have 8: "\<forall>t0 t1 t2 t3. t0 \<noteq> [] \<and> t1 \<noteq> [] \<and> t2 \<noteq> [] \<and> t3 \<noteq> []
               \<and> stamp t0 < stamp t1 \<and> stamp t1 < stamp t2 \<and> stamp t2 < stamp t3 \<longrightarrow>
               mergeExposures rt [exposure t1, exposure t2, exposure t3] [exposure t0]
               = [exposure t0, exposure t1, exposure t2]"
    unfolding stamp_def by (intro allI impI merge_three_one) simp_all
  have 9: "\<forall>a b. exposures (mergeFoodState rt a b)
                   = mergeExposures rt (exposures a) (exposures b)"
    by (simp add: mergeFoodState_def Let_def)
  from 1 2 3 4 5 6 7 8 9 show ?thesis by (intro conjI)
qed

text \<open>The two cases on the dates \<open>day0\<close> to \<open>day3\<close>.\<close>

theorem merged_exposures_witness:
  "mergeExposures exampleRuntime [exposure day1, exposure day2] [exposure day3]
     = [exposure day1, exposure day2, exposure day3]
   \<and> mergeExposures exampleRuntime [exposure day1, exposure day2, exposure day3] [exposure day0]
     = [exposure day0, exposure day1, exposure day2]"
  using merged_exposures [of exampleRuntime "[]" "[]"]
  by (simp add: stamps days_nonempty)

subsection \<open>Field groups of an item\<close>

text \<open>
  C8, as amended. Let item \<open>a\<close> have the newer \<^verbatim>\<open>updatedAt\<close> and the older
  \<^verbatim>\<open>descriptionGeneratedAt\<close>, and item \<open>b\<close> the opposite. Merged in either direction,
  the result has the id, the hidden flag, the notes and the legacy \<^verbatim>\<open>ai\<close> of \<open>a\<close>, and the
  stamp of \<open>a\<close> (of \<open>b\<close> if that of \<open>a\<close> is empty); it has the description, the reactions,
  the generation time and the model of \<open>b\<close> (the empty string for one that \<open>b\<close> lacks);
  each custom-image field is that of \<open>a\<close> unless it is empty or absent, and then that of
  \<open>b\<close>; and the exposures are merged from both sides.
\<close>

theorem field_groups_independent:
  assumes "toTimestamp rt (Some (updatedAt b)) < toTimestamp rt (Some (updatedAt a))"
    and "toTimestamp rt (descriptionGeneratedAt a) < toTimestamp rt (descriptionGeneratedAt b)"
    and "(l, r) = (a, b) \<or> (l, r) = (b, a)"
  shows "foodId (mergeFoodState rt l r) = foodId a
         \<and> isHidden (mergeFoodState rt l r) = isHidden a
         \<and> notes (mergeFoodState rt l r) = notes a
         \<and> ai (mergeFoodState rt l r) = ai a
         \<and> updatedAt (mergeFoodState rt l r) = orElse (Some (updatedAt a)) (updatedAt b)
         \<and> description (mergeFoodState rt l r) = Some (nullish (description b) [])
         \<and> reactions (mergeFoodState rt l r) = Some (nullish (reactions b) [])
         \<and> descriptionGeneratedAt (mergeFoodState rt l r)
             = Some (nullish (descriptionGeneratedAt b) [])
         \<and> descriptionModel (mergeFoodState rt l r) = Some (nullish (descriptionModel b) [])
         \<and> customImageUrl (mergeFoodState rt l r)
             = Some (orElse (customImageUrl a) (orElse (customImageUrl b) []))
         \<and> customImageAttribution (mergeFoodState rt l r)
             = Some (orElse (customImageAttribution a) (orElse (customImageAttribution b) []))
         \<and> customImageAttributionUrl (mergeFoodState rt l r)
             = Some (orElse (customImageAttributionUrl a) (orElse (customImageAttributionUrl b) []))
         \<and> imageGeneratedAt (mergeFoodState rt l r)
             = Some (orElse (imageGeneratedAt a) (orElse (imageGeneratedAt b) []))
         \<and> imageSource (mergeFoodState rt l r)
             = Some (orElse (imageSource a) (orElse (imageSource b) []))
         \<and> exposures (mergeFoodState rt l r) = mergeExposures rt (exposures l) (exposures r)"
  using assms by (auto simp: mergeFoodState_def Let_def)

text \<open>The items \<open>foodA\<close> and \<open>foodB\<close>, in both directions.\<close>

theorem field_groups_independent_witness:
  "notes (mergeFoodState exampleRuntime foodA foodB) = ''likes it''
   \<and> description (mergeFoodState exampleRuntime foodA foodB) = Some ''new text''
   \<and> descriptionGeneratedAt (mergeFoodState exampleRuntime foodA foodB) = Some day1
   \<and> notes (mergeFoodState exampleRuntime foodB foodA) = ''likes it''
   \<and> description (mergeFoodState exampleRuntime foodB foodA) = Some ''new text''
   \<and> descriptionGeneratedAt (mergeFoodState exampleRuntime foodB foodA) = Some day1"
proof -
  have 1: "toTimestamp exampleRuntime (Some (updatedAt foodB))
           < toTimestamp exampleRuntime (Some (updatedAt foodA))"
    by (simp add: foodA_def foodB_def initialFood_def stamps)
  have 2: "toTimestamp exampleRuntime (descriptionGeneratedAt foodA)
           < toTimestamp exampleRuntime (descriptionGeneratedAt foodB)"
    by (simp add: foodA_def foodB_def initialFood_def stamps)
  from field_groups_independent [OF 1 2, of foodA foodB]
    field_groups_independent [OF 1 2, of foodB foodA]
  show ?thesis by (simp add: foodA_def foodB_def initialFood_def)
qed

text \<open>
  C8 as stated, for all the fields that are not generated content, fails: \<open>foodA\<close> has
  the newer \<^verbatim>\<open>updatedAt\<close>, no exposure and no custom image, and the merged item has the
  exposure and the image of \<open>foodB\<close>.
\<close>

theorem merged_item_fields_counterexample:
  "toTimestamp exampleRuntime (Some (updatedAt foodB))
     < toTimestamp exampleRuntime (Some (updatedAt foodA))
   \<and> toTimestamp exampleRuntime (descriptionGeneratedAt foodA)
     < toTimestamp exampleRuntime (descriptionGeneratedAt foodB)
   \<and> exposures foodA = []
   \<and> exposures (mergeFoodState exampleRuntime foodA foodB) = [exposure day1]
   \<and> customImageUrl foodA = Some []
   \<and> customImageUrl (mergeFoodState exampleRuntime foodA foodB)
     = Some ''https://upload.wikimedia.org/wikipedia/commons/1/15/Red_Apple.jpg''"
proof -
  have "mergeExposures exampleRuntime [] [exposure day1] = [exposure day1]"
    by (simp add: mergeExposures_def exposure_def uniqueValues_def days_nonempty)
  then show ?thesis
    by (simp add: foodA_def foodB_def initialFood_def stamps mergeFoodState_def Let_def)
qed

subsection \<open>Items at run time\<close>

text \<open>
  On two items that have all the properties of their type, the merge at run time is the
  merge of the declared type.
\<close>

lemma mergeItem_whole: "mergeItem rt (whole a) (whole b) = whole (mergeFoodState rt a b)"
  by (simp add: mergeItem_def mergeFoodState_def whole_def Let_def)

subsection \<open>Dictionaries written key by key\<close>

lemma setProperty_fresh:
  "k \<notin> fst ` set acc \<Longrightarrow>
   setProperty k v acc = (if k = ''__proto__'' then acc else acc @ [(k, v)])"
  by (induction acc) (auto simp: setProperty_def)

lemma fold_setProperty:
  assumes "distinct (map fst kvs)" and "fst ` set kvs \<inter> fst ` set acc = {}"
  shows "fold (\<lambda>(k, v). setProperty k v) kvs acc
         = acc @ filter (\<lambda>(k, v). k \<noteq> ''__proto__'') kvs"
  using assms
proof (induction kvs arbitrary: acc)
  case Nil
  show ?case by simp
next
  case (Cons p kvs)
  obtain k v where p: "p = (k, v)" by (cases p)
  from Cons.prems p have fresh: "k \<notin> fst ` set acc" by auto
  from Cons.prems p have d: "distinct (map fst kvs)"
    and "fst ` set kvs \<inter> fst ` set (setProperty k v acc) = {}"
    by (auto simp: setProperty_fresh [OF fresh])
  from Cons.IH [OF this] show ?case
    by (simp add: p setProperty_fresh [OF fresh])
qed

lemma fold_option:
  "fold (\<lambda>k merged. case g k of None \<Rightarrow> merged | Some v \<Rightarrow> setProperty k v merged) ids acc
   = fold (\<lambda>(k, v). setProperty k v) (List.map_filter (\<lambda>k. map_option (Pair k) (g k)) ids) acc"
  by (induction ids arbitrary: acc) (auto simp: List.map_filter_simps split: option.splits)

lemma map_filter_keys_distinct:
  "distinct ids \<Longrightarrow> distinct (map fst (List.map_filter (\<lambda>k. map_option (Pair k) (g k)) ids))"
proof (induction ids)
  case Nil
  show ?case by (simp add: List.map_filter_simps)
next
  case (Cons i ids)
  have "fst ` set (List.map_filter (\<lambda>k. map_option (Pair k) (g k)) ids) \<subseteq> set ids"
    by (auto simp: List.map_filter_def)
  with Cons show ?case
    by (cases "g i") (auto simp: List.map_filter_simps)
qed

subsection \<open>The items of the merged snapshot\<close>

text \<open>The dictionary written by the loop over \<open>allFoodIds\<close>.\<close>

lemma merged_foods:
  "fold (\<lambda>itemId merged.
           case mergedFood rt l r itemId of
             None \<Rightarrow> merged
           | Some food \<Rightarrow> setProperty itemId food merged)
        (uniqueValues ids) []
   = filter (\<lambda>(k, v). k \<noteq> ''__proto__'')
       (List.map_filter (\<lambda>k. map_option (Pair k) (mergedFood rt l r k)) (uniqueValues ids))"
  unfolding fold_option
  using fold_setProperty [OF map_filter_keys_distinct [OF distinct_uniqueValues], of _ ids "[]"]
  by simp

lemma normalizeFoods_normalKeys:
  assumes "normalKeys fs"
  shows "normalizeFoods fs = map (\<lambda>(k, f). (k, normalizeFood f)) fs"
proof -
  have "normalizeFoods fs
        = fold (\<lambda>(k, v). setProperty k v) (map (\<lambda>(k, f). (k, normalizeFood f)) fs) []"
    by (simp add: normalizeFoods_def fold_map o_def split_def)
  also have "\<dots> = filter (\<lambda>(k, v). k \<noteq> ''__proto__'') (map (\<lambda>(k, f). (k, normalizeFood f)) fs)"
    using assms fold_setProperty [of "map (\<lambda>(k, f). (k, normalizeFood f)) fs" "[]"]
    by (simp add: normalKeys_def o_def split_def)
  also have "\<dots> = map (\<lambda>(k, f). (k, normalizeFood f)) fs"
    using assms by (intro filter_True) (force simp: normalKeys_def)
  finally show ?thesis .
qed

lemma map_of_filter_key:
  "map_of (filter (\<lambda>(k, v). k \<noteq> x) kvs) k = (if k = x then None else map_of kvs k)"
  by (induction kvs) auto

lemma map_of_options:
  "map_of (List.map_filter (\<lambda>k. map_option (Pair k) (g k)) ids) k
   = (if k \<in> set ids then g k else None)"
  by (induction ids) (auto simp: List.map_filter_simps split: option.splits)

lemma lookupItem_own: "map_of dict k = Some f \<Longrightarrow> lookupItem dict k = Some f"
  by (simp add: lookupItem_def)

lemma lookupItem_other:
  "map_of dict k = None \<Longrightarrow> k \<notin> set objectPrototype \<Longrightarrow> lookupItem dict k = None"
  by (simp add: lookupItem_def)

lemma lookupItem_inherited:
  "map_of dict k = None \<Longrightarrow> k \<in> set objectPrototype \<Longrightarrow> lookupItem dict k = Some emptyItem"
  by (simp add: lookupItem_def)


lemma merged_normalKeys:
  "normalKeys (filter (\<lambda>(k, v). k \<noteq> ''__proto__'')
                 (List.map_filter (\<lambda>k. map_option (Pair k) (g k)) (uniqueValues ids)))"
  using map_filter_keys_distinct [OF distinct_uniqueValues, of g ids]
  by (auto simp: normalKeys_def distinct_map_filter)


lemma merged_item:
  "map_of (foods (mergeSnapshots rt l r)) k =
     (if k = ''__proto__'' \<or> k \<notin> itemIds l \<union> itemIds r then None
      else map_option normalizeFood (mergedFood rt l r k))"
proof -
  let ?ids = "uniqueValues (map fst (foods l) @ map fst (foods r))"
  let ?merged = "filter (\<lambda>(k, v). k \<noteq> ''__proto__'')
                   (List.map_filter (\<lambda>k. map_option (Pair k) (mergedFood rt l r k)) ?ids)"
  have "foods (mergeSnapshots rt l r) = map (\<lambda>(k, f). (k, normalizeFood f)) ?merged"
    using merged_normalKeys [of "mergedFood rt l r" "map fst (foods l) @ map fst (foods r)"]
    by (simp add: mergeSnapshots_def Let_def merged_foods normalizeFoods_normalKeys)
  then have "map_of (foods (mergeSnapshots rt l r)) k
             = map_option normalizeFood (map_of ?merged k)"
    by (simp add: map_of_map)
  then show ?thesis
    by (auto simp: map_of_filter_key map_of_options itemIds_def)
qed


text \<open>
  An item that both sides have with all its properties, under an id other than
  \<^verbatim>\<open>__proto__\<close>, is merged by \<open>mergeFoodState\<close> and normalized.
\<close>

lemma merged_common_item:
  assumes "map_of (foods l) k = Some (whole a)" and "map_of (foods r) k = Some (whole b)"
    and "k \<noteq> ''__proto__''"
  shows "map_of (foods (mergeSnapshots rt l r)) k
         = Some (normalizeFood (whole (mergeFoodState rt a b)))"
proof -
  from assms(1) have "k \<in> itemIds l \<union> itemIds r"
    by (auto simp: itemIds_def dest: map_of_SomeD intro: rev_image_eqI)
  with assms show ?thesis
    by (simp add: merged_item mergedFood_def lookupItem_def mergeItem_whole)
qed









text \<open>
  A snapshot with a pear, and a snapshot with an item under the id \<^verbatim>\<open>constructor\<close> that
  has a date.
\<close>

lemma stamped_example: "toTimestamp exampleRuntime (Some day2) \<noteq> 0"
  by (simp add: stamps)



subsection \<open>Merging a snapshot with itself\<close>

lemma orElse_same: "orElse (Some s) (orElse (Some s) []) = s" "orElse (Some s) s = s"
  "orElse (Some s) [] = s"
  by simp_all

lemma mergeExposures_same:
  assumes "list_all (\<lambda>x. checkedAt x \<noteq> []) e" and "distinct (map checkedAt e)"
    and "sorted (map (\<lambda>x. toTimestamp rt (Some (checkedAt x))) e)" and "length e \<le> 3"
  shows "mergeExposures rt e e = e"
proof -
  from assms(1) have f: "filter (\<lambda>item. checkedAt item \<noteq> []) (e @ e) = e @ e"
    by (simp add: list_all_iff)
  have u: "uniqueValues (map checkedAt e @ map checkedAt e) = map checkedAt e"
    using assms(2) by (rule uniqueValues_twice)
  have m: "map (\<lambda>c. \<lparr>checkedAt = c\<rparr>) (map checkedAt e) = e"
    by (simp add: o_def exposure_eta)
  have s: "sort_key (\<lambda>e. toTimestamp rt (Some (checkedAt e))) e = e"
    using assms(3) by (rule sort_key_id_if_sorted)
  show ?thesis
    unfolding mergeExposures_def Let_def f map_append u m s using assms(4) by simp
qed

lemma mergeItem_same:
  assumes "normalItem rt f"
  shows "normalizeFood (mergeItem rt f f) = f"
proof -
  from assms obtain given where g: "itemExposures f = Some given"
    by (auto simp: normalItem_def split: option.splits)
  with assms have e: "mergeExposures rt given given = given"
    by (intro mergeExposures_same) (simp_all add: normalItem_def)
  from assms g obtain a b c d g h i j k where
    "itemCustomImageUrl f = Some a" "itemCustomImageAttribution f = Some b"
    "itemCustomImageAttributionUrl f = Some c" "itemImageGeneratedAt f = Some d"
    "itemImageSource f = Some g" "itemDescription f = Some h" "itemReactions f = Some i"
    "itemDescriptionGeneratedAt f = Some j" "itemDescriptionModel f = Some k"
    by (auto simp: normalItem_def)
  moreover have "either (itemUpdatedAt f) (itemUpdatedAt f) = itemUpdatedAt f"
    by (cases "itemUpdatedAt f") simp_all
  ultimately show ?thesis
    by (simp add: mergeItem_def normalizeFood_def g e Let_def)
qed

lemma merged_foods_same:
  assumes "normalKeys (foods s)" and "list_all (\<lambda>(itemId, f). normalItem rt f) (foods s)"
  shows "foods (mergeSnapshots rt s s) = foods s"
proof -
  from assms(1) have d: "distinct (map fst (foods s))" by (simp add: normalKeys_def)
  have ids: "uniqueValues (map fst (foods s) @ map fst (foods s)) = map fst (foods s)"
    using d by (rule uniqueValues_twice)
  have "List.map_filter (\<lambda>k. map_option (Pair k) (mergedFood rt s s k)) (map fst (foods s))
        = List.map_filter (\<lambda>k. case map_of (foods s) k of
                                   None \<Rightarrow> None
                                 | Some f \<Rightarrow> Some (k, mergeItem rt f f))
            (map fst (foods s))"
    by (intro map_filter_cong)
       (auto simp: mergedFood_def lookupItem_def map_of_eq_None_iff split: option.splits)
  also have "\<dots> = map (\<lambda>(k, f). (k, mergeItem rt f f)) (foods s)"
    using d by (rule map_filter_keys)
  finally have merged:
    "List.map_filter (\<lambda>k. map_option (Pair k) (mergedFood rt s s k)) (map fst (foods s))
     = map (\<lambda>(k, f). (k, mergeItem rt f f)) (foods s)" .
  have kept: "filter (\<lambda>(k, v). k \<noteq> ''__proto__'') (map (\<lambda>(k, f). (k, mergeItem rt f f)) (foods s))
              = map (\<lambda>(k, f). (k, mergeItem rt f f)) (foods s)"
    using assms(1) by (intro filter_True) (force simp: normalKeys_def)
  have keys: "normalKeys (map (\<lambda>(k, f). (k, mergeItem rt f f)) (foods s))"
    using assms(1) by (simp add: normalKeys_def o_def split_def)
  have written: "fold (\<lambda>itemId merged.
                         case mergedFood rt s s itemId of
                           None \<Rightarrow> merged
                         | Some food \<Rightarrow> setProperty itemId food merged)
                      (uniqueValues (map fst (foods s) @ map fst (foods s))) []
                 = map (\<lambda>(k, f). (k, mergeItem rt f f)) (foods s)"
    using merged_foods [of rt s s "map fst (foods s) @ map fst (foods s)"]
    by (simp only: ids merged kept)
  have "foods (mergeSnapshots rt s s)
        = map (\<lambda>(k, f). (k, normalizeFood f)) (map (\<lambda>(k, f). (k, mergeItem rt f f)) (foods s))"
    by (simp add: mergeSnapshots_def Let_def written normalizeFoods_normalKeys [OF keys])
  also have "\<dots> = map (\<lambda>(k, f). (k, normalizeFood (mergeItem rt f f))) (foods s)"
    by (simp add: o_def split_def)
  also have "\<dots> = map (\<lambda>p. p) (foods s)"
    using assms(2) by (intro map_cong) (auto simp: list_all_iff mergeItem_same)
  finally show ?thesis by simp
qed

lemma fold_setProperty_normalKeys:
  assumes "normalKeys entries"
  shows "fold (\<lambda>(k, v). setProperty k v) entries [] = entries"
proof -
  from assms have "filter (\<lambda>(k, v). k \<noteq> ''__proto__'') entries = entries"
    by (intro filter_True) (force simp: normalKeys_def)
  with assms fold_setProperty [of entries "[]"] show ?thesis
    by (simp add: normalKeys_def)
qed

lemma normalizeCustomFoods_same:
  assumes "normalKeys entries"
    and "list_all (\<lambda>(itemId, food). normalCustomFood itemId food) entries"
  shows "normalizeCustomFoods (Some entries) = entries"
proof -
  have "fold (\<lambda>(itemId, food) normalized.
                if seedName food = [] \<or> seedFamily food = [] then normalized
                else setProperty itemId
                       \<lparr>seedId = itemId,
                        seedName = seedName food,
                        seedFamily = seedFamily food,
                        seedAllergens = seedAllergens food,
                        seedImageUrl = orElse (Some (seedImageUrl food)) [],
                        seedImageAttribution = Some (orElse (seedImageAttribution food) []),
                        seedImageAttributionUrl =
                          Some (orElse (seedImageAttributionUrl food) [])\<rparr>
                       normalized)
             entries []
        = fold (\<lambda>(k, v). setProperty k v) entries []"
  proof (intro List.fold_cong refl)
    fix p assume "p \<in> set entries"
    obtain k food where p: "p = (k, food)" by (cases p)
    with \<open>p \<in> set entries\<close> assms(2) have n: "normalCustomFood k food"
      by (auto simp: list_all_iff)
    then obtain a b where "seedImageAttribution food = Some a" "seedImageAttributionUrl food = Some b"
      by (auto simp: normalCustomFood_def)
    with n have "\<lparr>seedId = k, seedName = seedName food, seedFamily = seedFamily food,
                   seedAllergens = seedAllergens food,
                   seedImageUrl = orElse (Some (seedImageUrl food)) [],
                   seedImageAttribution = Some (orElse (seedImageAttribution food) []),
                   seedImageAttributionUrl = Some (orElse (seedImageAttributionUrl food) [])\<rparr>
                 = food"
      by (cases food) (auto simp: normalCustomFood_def)
    with n show "(case p of (itemId, food) \<Rightarrow> \<lambda>normalized.
                if seedName food = [] \<or> seedFamily food = [] then normalized
                else setProperty itemId
                       \<lparr>seedId = itemId,
                        seedName = seedName food,
                        seedFamily = seedFamily food,
                        seedAllergens = seedAllergens food,
                        seedImageUrl = orElse (Some (seedImageUrl food)) [],
                        seedImageAttribution = Some (orElse (seedImageAttribution food) []),
                        seedImageAttributionUrl =
                          Some (orElse (seedImageAttributionUrl food) [])\<rparr>
                       normalized)
                 = (case p of (k, v) \<Rightarrow> setProperty k v)"
      by (simp add: p normalCustomFood_def)
  qed
  also have "\<dots> = entries"
    using assms(1) by (rule fold_setProperty_normalKeys)
  finally show ?thesis by (simp add: normalizeCustomFoods_def)
qed

lemma normalizeFamilyList_same:
  assumes "normalFamilyList rt fs"
  shows "normalizeFamilyList rt (Some fs) = fs"
proof -
  from assms have "map (\<lambda>item. toLowerCase rt (trim rt item)) fs = map (\<lambda>x. x) fs"
    by (intro map_cong) (auto simp: normalFamilyList_def list_all_iff)
  moreover from assms have "filter (\<lambda>s. s \<noteq> []) fs = fs"
    by (auto simp: normalFamilyList_def list_all_iff)
  ultimately show ?thesis
    using assms by (simp add: normalizeFamilyList_def normalFamilyList_def uniqueValues_distinct)
qed

lemma normalizeFamilyOverrides_same:
  assumes "normalKeys entries"
    and "list_all (\<lambda>(family, data). normalOverride rt family data) entries"
  shows "normalizeFamilyOverrides rt (Some entries) = entries"
proof -
  have "fold (\<lambda>(family, data) normalized.
                  let key = toLowerCase rt (trim rt family)
                  in if key = [] \<or> overrideImageUrl data = [] then normalized
                     else setProperty key
                            \<lparr>overrideImageUrl = overrideImageUrl data,
                             overrideImageAttribution =
                               Some (orElse (overrideImageAttribution data) []),
                             overrideImageAttributionUrl =
                               Some (orElse (overrideImageAttributionUrl data) []),
                             overrideImageSource = Some (orElse (overrideImageSource data) [])\<rparr>
                            normalized)
               entries []
        = fold (\<lambda>(k, v). setProperty k v) entries []"
  proof (intro List.fold_cong refl)
    fix p assume "p \<in> set entries"
    obtain family data where p: "p = (family, data)" by (cases p)
    with \<open>p \<in> set entries\<close> assms(2) have n: "normalOverride rt family data"
      by (auto simp: list_all_iff)
    then obtain a b c where "overrideImageAttribution data = Some a"
      "overrideImageAttributionUrl data = Some b" "overrideImageSource data = Some c"
      by (auto simp: normalOverride_def)
    with n have "\<lparr>overrideImageUrl = overrideImageUrl data,
                   overrideImageAttribution = Some (orElse (overrideImageAttribution data) []),
                   overrideImageAttributionUrl =
                     Some (orElse (overrideImageAttributionUrl data) []),
                   overrideImageSource = Some (orElse (overrideImageSource data) [])\<rparr> = data"
      by (cases data) (auto simp: normalOverride_def)
    with n show "(case p of (family, data) \<Rightarrow> \<lambda>normalized.
                  let key = toLowerCase rt (trim rt family)
                  in if key = [] \<or> overrideImageUrl data = [] then normalized
                     else setProperty key
                            \<lparr>overrideImageUrl = overrideImageUrl data,
                             overrideImageAttribution =
                               Some (orElse (overrideImageAttribution data) []),
                             overrideImageAttributionUrl =
                               Some (orElse (overrideImageAttributionUrl data) []),
                             overrideImageSource = Some (orElse (overrideImageSource data) [])\<rparr>
                            normalized)
                 = (case p of (k, v) \<Rightarrow> setProperty k v)"
      by (simp add: p normalOverride_def Let_def)
  qed
  also have "\<dots> = entries"
    using assms(1) by (rule fold_setProperty_normalKeys)
  finally show ?thesis by (simp add: normalizeFamilyOverrides_def)
qed

lemma normalItem_initial: "normalItem rt (whole (initialFood itemId now))"
  by (simp add: normalItem_def whole_def initialFood_def)

lemma normalItem_foodB: "normalItem rt (whole foodB)"
  by (simp add: normalItem_def whole_def foodB_def initialFood_def exposure_def day1_def)

text \<open>
  C5, as amended. Merging a snapshot in normal form with itself returns it unchanged.
\<close>

theorem merge_with_itself:
  assumes "normalSnapshot rt s"
  shows "mergeSnapshots rt s s = s"
proof -
  from assms obtain cf fams ord ovs t name birth weeks where
    opt: "customFoods s = Some cf" "customFamilies s = Some fams" "familyOrder s = Some ord"
      "familyOverrides s = Some ovs" "orderUpdatedAt (meta s) = Some t"
      "babyName s = Some name" "babyBirthDate s = Some birth" "correctedWeeks s = Some weeks"
    by (auto simp: normalSnapshot_def split: option.splits)
  from assms opt have n:
    "normalKeys (foods s)" "list_all (\<lambda>(itemId, f). normalItem rt f) (foods s)"
    "normalKeys cf" "list_all (\<lambda>(itemId, food). normalCustomFood itemId food) cf"
    "normalFamilyList rt fams" "normalFamilyList rt ord"
    "normalKeys ovs" "list_all (\<lambda>(family, data). normalOverride rt family data) ovs"
    "t \<noteq> [] \<or> snapshotUpdatedAt s = []"
    by (simp_all add: normalSnapshot_def)
  from n(3,7) have d: "distinct (map fst cf)" "distinct (map fst ovs)"
    by (simp_all add: normalKeys_def)
  have 1: "foods (mergeSnapshots rt s s) = foods s"
    using n(1,2) by (rule merged_foods_same)
  have 2: "customFoods (mergeSnapshots rt s s) = customFoods s"
    by (simp add: mergeSnapshots_def Let_def opt normalizeCustomFoods_same [OF n(3,4)]
          spread_same [OF d(1)])
  have 3: "customFamilies (mergeSnapshots rt s s) = customFamilies s"
    using n(5)
    by (simp add: mergeSnapshots_def Let_def opt normalizeFamilyList_same [OF n(5)]
          uniqueValues_twice normalFamilyList_def)
  have 4: "familyOrder (mergeSnapshots rt s s) = familyOrder s"
    by (simp add: mergeSnapshots_def Let_def opt normalizeFamilyList_same [OF n(6)])
  have 5: "familyOverrides (mergeSnapshots rt s s) = familyOverrides s"
    by (simp add: mergeSnapshots_def Let_def opt normalizeFamilyOverrides_same [OF n(7,8)]
          spread_same [OF d(2)])
  have 6: "meta (mergeSnapshots rt s s) = meta s"
    using n(9) opt(5) by (cases "meta s") (auto simp: mergeSnapshots_def Let_def getOrderUpdatedAt_def)
  have 7: "order (mergeSnapshots rt s s) = order s"
    "settings (mergeSnapshots rt s s) = settings s"
    "snapshotUpdatedAt (mergeSnapshots rt s s) = snapshotUpdatedAt s"
    "profileName (mergeSnapshots rt s s) = profileName s"
    "shareCode (mergeSnapshots rt s s) = shareCode s"
    "schemaVersion (mergeSnapshots rt s s) = schemaVersion s"
    "profileId (mergeSnapshots rt s s) = profileId s"
    "revision (mergeSnapshots rt s s) = revision s"
    by (simp_all add: mergeSnapshots_def Let_def)
  have 8: "babyName (mergeSnapshots rt s s) = babyName s"
    "babyBirthDate (mergeSnapshots rt s s) = babyBirthDate s"
    "correctedWeeks (mergeSnapshots rt s s) = correctedWeeks s"
    by (simp_all add: mergeSnapshots_def Let_def opt)
  show ?thesis
    by (rule ProfileSnapshot.equality) (simp_all add: 1 2 3 4 5 6 7 8)
qed

text \<open>A snapshot in normal form, with two items, an exposure, an image and a family.\<close>

theorem merge_with_itself_witness:
  "normalSnapshot exampleRuntime familySnapshot
   \<and> mergeSnapshots exampleRuntime familySnapshot familySnapshot = familySnapshot"
proof -
  have "normalSnapshot exampleRuntime familySnapshot"
    by (simp add: normalSnapshot_def normalKeys_def familySnapshot_def initialSnapshot_def
          normalItem_foodB normalItem_initial normalFamilyList_def exampleRuntime_def
          asciiTrim_def isSpace_def asciiLower_def day1_def)
  with merge_with_itself [of exampleRuntime familySnapshot] show ?thesis by simp
qed

text \<open>
  C5 as stated, for every snapshot, fails: merged with itself, \<open>unsortedSnapshot\<close> has
  the exposures of its item in the other order and its family name in lower case.
\<close>

theorem unsorted_snapshot_counterexample:
  "map_option itemExposures (map_of (foods unsortedSnapshot) ''apple'')
     = Some (Some [exposure day2, exposure day1])
   \<and> map_option itemExposures
       (map_of (foods (mergeSnapshots exampleRuntime unsortedSnapshot unsortedSnapshot)) ''apple'')
     = Some (Some [exposure day1, exposure day2])
   \<and> customFamilies unsortedSnapshot = Some [''Frutas'']
   \<and> customFamilies (mergeSnapshots exampleRuntime unsortedSnapshot unsortedSnapshot)
     = Some [''frutas'']
   \<and> mergeSnapshots exampleRuntime unsortedSnapshot unsortedSnapshot \<noteq> unsortedSnapshot"
proof -
  have e: "mergeExposures exampleRuntime [exposure day2, exposure day1] [exposure day2, exposure day1]
           = [exposure day1, exposure day2]"
    by (simp add: mergeExposures_def exposure_def uniqueValues_def days_nonempty stamps Let_def)
       (simp add: day1_def day2_def)
  have f: "customFamilies (mergeSnapshots exampleRuntime unsortedSnapshot unsortedSnapshot)
           = Some [''frutas'']"
    by (simp add: mergeSnapshots_def Let_def unsortedSnapshot_def initialSnapshot_def
          normalizeFamilyList_def uniqueValues_def exampleRuntime_def asciiTrim_def isSpace_def
          asciiLower_def)
  have g: "customFamilies unsortedSnapshot = Some [''Frutas'']"
    by (simp add: unsortedSnapshot_def initialSnapshot_def)
  from f g have "mergeSnapshots exampleRuntime unsortedSnapshot unsortedSnapshot \<noteq> unsortedSnapshot"
    by auto
  with f g show ?thesis
    by (simp add: merged_item)
       (simp add: unsortedSnapshot_def initialSnapshot_def itemIds_def mergedFood_def
          lookupItem_def mergeItem_def normalizeFood_def whole_def initialFood_def e Let_def)
qed

end
